theory Spec2Isabelle
  imports Main "HOL-Library.Word" "HOL-Library.AList"
begin

section \<open>Interner (src/src/interner.cpp)\<close>

type_synonym u32 = "32 word"

datatype error =
    OutOfRange          \<comment> \<open>std::out_of_range thrown by DefaultInterner::lookup\<close>
  | RuntimeError string \<comment> \<open>std::runtime_error with its message\<close>

text \<open>
  \<open>strings\<close> (the field strings_) is the deque of interned strings, \<open>index\<close> (the field index_) the reverse index.  The
  unordered map is an association list; \<open>map_of\<close> is its \<open>find\<close>.
\<close>

record DefaultInterner =
  strings :: "string list"
  index :: "(string \<times> u32) list"

definition Interner_empty :: DefaultInterner where
  "Interner_empty = \<lparr>strings = [], index = []\<rparr>"

text \<open>
  \<open>intern\<close>: an indexed string keeps its id; a new one gets
  \<open>static_cast<uint32_t>(strings.size())\<close>, which truncates to 32 bits.
\<close>

definition intern :: "DefaultInterner \<Rightarrow> string \<Rightarrow> u32 \<times> DefaultInterner" where
  "intern I str =
     (case map_of (index I) str of
        Some i \<Rightarrow> (i, I)
      | None \<Rightarrow>
          (let i = (of_nat (length (strings I)) :: u32)
           in (i, \<lparr>strings = strings I @ [str], index = (str, i) # index I\<rparr>)))"

text \<open>\<open>lookup\<close> compares the id, widened to \<open>size_t\<close>, with the size of the deque.\<close>

definition lookup :: "DefaultInterner \<Rightarrow> u32 \<Rightarrow> error + string" where
  "lookup I i =
     (if unat i \<ge> length (strings I) then Inl OutOfRange
      else Inr (strings I ! unat i))"

text \<open>The interner states a program can reach: the empty one, and any state after an \<open>intern\<close>.\<close>

inductive Interner_reachable :: "DefaultInterner \<Rightarrow> bool" where
  reach_empty: "Interner_reachable Interner_empty"
| reach_intern: "Interner_reachable I \<Longrightarrow> Interner_reachable (snd (intern I s))"

text \<open>Interning a sequence of strings, collecting the ids in order.\<close>

fun intern_all :: "DefaultInterner \<Rightarrow> string list \<Rightarrow> u32 list \<times> DefaultInterner" where
  "intern_all I [] = ([], I)"
| "intern_all I (s # ss) =
     (let (i, I1) = intern I s; (is, I2) = intern_all I1 ss in (i # is, I2))"

definition Interner_inv :: "DefaultInterner \<Rightarrow> bool" where
  "Interner_inv I \<longleftrightarrow>
     distinct (strings I) \<and>
     (\<forall>k < length (strings I). map_of (index I) (strings I ! k) = Some (of_nat k)) \<and>
     (\<forall>s. s \<notin> set (strings I) \<longrightarrow> map_of (index I) s = None)"

lemma Interner_inv_empty: "Interner_inv Interner_empty"
  by (simp add: Interner_inv_def Interner_empty_def)

lemma Interner_inv_intern:
  assumes "Interner_inv I"
  shows "Interner_inv (snd (intern I s))"
proof (cases "map_of (index I) s")
  case (Some i)
  then show ?thesis using assms by (simp add: intern_def)
next
  case None
  have notin: "s \<notin> set (strings I)"
  proof
    assume "s \<in> set (strings I)"
    then obtain k where "k < length (strings I)" "strings I ! k = s"
      by (auto simp: in_set_conv_nth)
    with assms None show False by (auto simp: Interner_inv_def)
  qed
  show ?thesis
    using assms None notin
    by (auto simp: intern_def Interner_inv_def Let_def nth_append less_Suc_eq)
qed

lemma Interner_reachable_inv: "Interner_reachable I \<Longrightarrow> Interner_inv I"
  by (induction rule: Interner_reachable.induct)
     (simp_all add: Interner_inv_empty Interner_inv_intern)


lemma Interner_inv_index_Some:
  assumes "Interner_inv I" "map_of (index I) s = Some i"
  shows "\<exists>k < length (strings I). strings I ! k = s \<and> i = of_nat k"
proof -
  have "s \<in> set (strings I)"
    using assms by (auto simp: Interner_inv_def)
  then obtain k where k: "k < length (strings I)" "strings I ! k = s"
    by (auto simp: in_set_conv_nth)
  with assms have "i = of_nat k" by (auto simp: Interner_inv_def)
  with k show ?thesis by blast
qed

lemma unat_of_nat_u32: "k < 2 ^ 32 \<Longrightarrow> unat (of_nat k :: u32) = k"
  by (simp add: unat_of_nat)

lemma intern_strings_mono:
  "intern I s = (i, I1) \<Longrightarrow> \<exists>ys. strings I1 = strings I @ ys"
  by (auto simp: intern_def Let_def split: option.splits)

lemma intern_position:
  assumes inv: "Interner_inv I" and int: "intern I s = (i, I1)"
    and cap: "length (strings I1) \<le> 2 ^ 32"
  shows "unat i < length (strings I1) \<and> strings I1 ! unat i = s"
proof (cases "map_of (index I) s")
  case (Some i')
  with int have eq: "i' = i" "I1 = I" by (auto simp: intern_def)
  from Interner_inv_index_Some [OF inv Some] obtain k
    where k: "k < length (strings I)" "strings I ! k = s" "i' = of_nat k" by blast
  from k(1) cap eq have "k < 2 ^ 32" by simp
  then have "unat i = k" using k(3) eq by (simp add: unat_of_nat_u32)
  with k eq show ?thesis by simp
next
  case None
  with int have eq: "i = of_nat (length (strings I))" "strings I1 = strings I @ [s]"
    by (auto simp: intern_def Let_def)
  from cap eq(2) have "length (strings I) < 2 ^ 32" by simp
  then have "unat i = length (strings I)" using eq(1) by (simp add: unat_of_nat_u32)
  with eq(2) show ?thesis by simp
qed

lemma lookup_intern:
  assumes "Interner_inv I" "intern I s = (i, I1)" "length (strings I1) \<le> 2 ^ 32"
  shows "lookup I1 i = Inr s"
  using intern_position [OF assms] by (simp add: lookup_def)

lemma intern_index_after:
  "intern I s = (i, I1) \<Longrightarrow> map_of (index I1) s = Some i"
  by (auto simp: intern_def Let_def split: option.splits)

lemma intern_known:
  "map_of (index I) s = Some i \<Longrightarrow> intern I s = (i, I)"
  by (simp add: intern_def)

lemma intern_index_persist:
  assumes "map_of (index I) s = Some i" "intern I t = (j, I1)"
  shows "map_of (index I1) s = Some i"
proof (cases "map_of (index I) t")
  case (Some j')
  with assms show ?thesis by (auto simp: intern_def)
next
  case None
  with assms(1) have "s \<noteq> t" by auto
  with assms None show ?thesis by (auto simp: intern_def Let_def)
qed

lemma lookup_stable:
  assumes "lookup I i = Inr s" "intern I t = (j, I1)"
  shows "lookup I1 i = Inr s"
proof -
  from assms(1) have lt: "unat i < length (strings I)" and s: "strings I ! unat i = s"
    by (auto simp: lookup_def split: if_splits)
  from intern_strings_mono [OF assms(2)] obtain ys where "strings I1 = strings I @ ys" by blast
  with lt s show ?thesis by (simp add: lookup_def nth_append)
qed

lemma intern_injective:
  assumes inv: "Interner_inv I" and a: "intern I s = (i, I1)" and b: "intern I1 t = (j, I2)"
    and cap: "length (strings I2) \<le> 2 ^ 32" and ne: "s \<noteq> t"
  shows "i \<noteq> j"
proof
  assume "i = j"
  have inv1: "Interner_inv I1" using Interner_inv_intern [OF inv, of s] a by simp
  from intern_strings_mono [OF b] cap have cap1: "length (strings I1) \<le> 2 ^ 32" by auto
  have "lookup I2 i = Inr s"
    using lookup_stable [OF lookup_intern [OF inv a cap1] b] .
  moreover have "lookup I2 j = Inr t" using lookup_intern [OF inv1 b cap] .
  ultimately show False using \<open>i = j\<close> ne by simp
qed

lemma lookup_only_interned:
  assumes inv: "Interner_inv I" and ok: "lookup I x = Inr u"
  shows "u \<in> set (strings I) \<and> intern I u = (x, I)"
proof -
  from ok have lt: "unat x < length (strings I)" and u: "strings I ! unat x = u"
    by (auto simp: lookup_def split: if_splits)
  from inv lt u have "map_of (index I) u = Some (of_nat (unat x))"
    by (auto simp: Interner_inv_def)
  then have "intern I u = (x, I)" by (simp add: intern_def)
  with lt u show ?thesis by auto
qed

lemma lookup_cases: "lookup I x = Inl OutOfRange \<or> (\<exists>u. lookup I x = Inr u)"
  by (simp add: lookup_def)

lemma intern_all_fresh:
  assumes "Interner_inv I" "distinct ss" "set ss \<inter> set (strings I) = {}"
  shows "fst (intern_all I ss) = map of_nat [length (strings I) ..< length (strings I) + length ss]
         \<and> strings (snd (intern_all I ss)) = strings I @ ss"
  using assms
proof (induction ss arbitrary: I)
  case Nil
  then show ?case by simp
next
  case (Cons s ss)
  from Cons.prems have "s \<notin> set (strings I)" by simp
  with Cons.prems(1) have none: "map_of (index I) s = None" by (simp add: Interner_inv_def)
  define I1 where "I1 = snd (intern I s)"
  have i1: "intern I s = (of_nat (length (strings I)), I1)" and str1: "strings I1 = strings I @ [s]"
    using none by (simp_all add: I1_def intern_def Let_def)
  have inv1: "Interner_inv I1" unfolding I1_def by (rule Interner_inv_intern [OF Cons.prems(1)])
  have disj: "set ss \<inter> set (strings I1) = {}" using Cons.prems(2,3) str1 by auto
  from Cons.IH [OF inv1 _ disj] Cons.prems(2)
  have ih: "fst (intern_all I1 ss) = map of_nat [length (strings I1) ..< length (strings I1) + length ss]"
       "strings (snd (intern_all I1 ss)) = strings I1 @ ss" by simp_all
  have upt: "[length (strings I) ..< length (strings I) + length (s # ss)]
      = length (strings I) # [length (strings I1) ..< length (strings I1) + length ss]"
    using str1 by (simp add: upt_conv_Cons del: upt_Suc)
  show ?case
    unfolding upt using i1 ih str1 by (simp add: case_prod_unfold)
qed

text \<open>
  C6.  In every interner state reached from the empty one, as long as the deque holds at
  most \<open>2 ^ 32\<close> strings (the ids are 32-bit): \<open>lookup\<close> of the id \<open>intern\<close> returned gives
  the string back, also after further interning; interning the same string again returns the
  same id and changes nothing; distinct strings get distinct ids; a string not yet interned
  gets the number of strings interned before it, so that interning distinct strings into the
  empty interner hands out \<open>0, 1, 2, \<dots>\<close> in order; and \<open>lookup\<close> fails with
  \<open>std::out_of_range\<close> on every id that \<open>intern\<close> returns for none of the interned strings.
\<close>

theorem interner_contract:
  assumes "Interner_reachable I"
    and "intern I s = (i, I1)" and "intern I1 t = (j, I2)"
    and "length (strings I2) \<le> 2 ^ 32"
  shows "lookup I1 i = Inr s \<and> lookup I2 i = Inr s \<and> lookup I2 j = Inr t
       \<and> intern I1 s = (i, I1) \<and> intern I2 s = (i, I2)
       \<and> (s \<noteq> t \<longrightarrow> i \<noteq> j)
       \<and> (s \<notin> set (strings I) \<longrightarrow> unat i = length (strings I))
       \<and> (\<forall>ss. distinct ss \<and> length ss \<le> 2 ^ 32 \<longrightarrow>
             fst (intern_all Interner_empty ss) = map of_nat [0 ..< length ss])
       \<and> (\<forall>x. (\<forall>u \<in> set (strings I2). fst (intern I2 u) \<noteq> x) \<longrightarrow> lookup I2 x = Inl OutOfRange)"
proof -
  have inv: "Interner_inv I" using assms(1) by (rule Interner_reachable_inv)
  have inv1: "Interner_inv I1" using Interner_inv_intern [OF inv, of s] assms(2) by simp
  have inv2: "Interner_inv I2" using Interner_inv_intern [OF inv1, of t] assms(3) by simp
  from intern_strings_mono [OF assms(3)] assms(4)
  have cap1: "length (strings I1) \<le> 2 ^ 32" by auto
  have l1: "lookup I1 i = Inr s" by (rule lookup_intern [OF inv assms(2) cap1])
  have l2: "lookup I2 i = Inr s" by (rule lookup_stable [OF l1 assms(3)])
  have l3: "lookup I2 j = Inr t" by (rule lookup_intern [OF inv1 assms(3) assms(4)])
  have idx1: "map_of (index I1) s = Some i" by (rule intern_index_after [OF assms(2)])
  have s1: "intern I1 s = (i, I1)" by (rule intern_known [OF idx1])
  have s2: "intern I2 s = (i, I2)"
    by (rule intern_known [OF intern_index_persist [OF idx1 assms(3)]])
  have inj: "s \<noteq> t \<longrightarrow> i \<noteq> j"
    using intern_injective [OF inv assms(2) assms(3) assms(4)] by blast
  have fresh: "s \<notin> set (strings I) \<longrightarrow> unat i = length (strings I)"
  proof
    assume "s \<notin> set (strings I)"
    with inv have none: "map_of (index I) s = None" by (simp add: Interner_inv_def)
    with assms(2) have "i = of_nat (length (strings I))" "strings I1 = strings I @ [s]"
      by (auto simp: intern_def Let_def)
    moreover from this cap1 have "length (strings I) < 2 ^ 32" by simp
    ultimately show "unat i = length (strings I)" by (simp add: unat_of_nat_u32)
  qed
  have seq: "\<forall>ss. distinct ss \<and> length ss \<le> 2 ^ 32 \<longrightarrow>
       fst (intern_all Interner_empty ss) = map of_nat [0 ..< length ss]"
    using intern_all_fresh [OF Interner_inv_empty] by (simp add: Interner_empty_def)
  have fail: "\<forall>x. (\<forall>u \<in> set (strings I2). fst (intern I2 u) \<noteq> x) \<longrightarrow> lookup I2 x = Inl OutOfRange"
  proof (intro allI impI)
    fix x assume never: "\<forall>u \<in> set (strings I2). fst (intern I2 u) \<noteq> x"
    show "lookup I2 x = Inl OutOfRange"
    proof (rule ccontr)
      assume "lookup I2 x \<noteq> Inl OutOfRange"
      with lookup_cases [of I2 x] obtain u where "lookup I2 x = Inr u" by blast
      from lookup_only_interned [OF inv2 this] never show False by auto
    qed
  qed
  from l1 l2 l3 s1 s2 inj fresh seq fail show ?thesis by blast
qed

definition I_get :: DefaultInterner where
  "I_get = \<lparr>strings = [''get''], index = [(''get'', 0)]\<rparr>"

definition I_get_set :: DefaultInterner where
  "I_get_set = \<lparr>strings = [''get'', ''set''], index = [(''set'', 1), (''get'', 0)]\<rparr>"

theorem interner_contract_witness:
  "Interner_reachable Interner_empty
   \<and> intern Interner_empty ''get'' = (0, I_get) \<and> intern I_get ''set'' = (1, I_get_set)
   \<and> length (strings I_get_set) \<le> 2 ^ 32
   \<and> lookup I_get 0 = Inr ''get'' \<and> lookup I_get_set 0 = Inr ''get''
   \<and> lookup I_get_set 1 = Inr ''set''
   \<and> intern I_get ''get'' = (0, I_get) \<and> intern I_get_set ''get'' = (0, I_get_set)
   \<and> lookup I_get_set 2 = Inl OutOfRange"
proof -
  have r: "Interner_reachable Interner_empty" by (rule reach_empty)
  have a: "intern Interner_empty ''get'' = (0, I_get)"
    by (simp add: intern_def Interner_empty_def I_get_def)
  have b: "intern I_get ''set'' = (1, I_get_set)"
    by (simp add: intern_def I_get_def I_get_set_def)
  have c: "length (strings I_get_set) \<le> 2 ^ 32" by (simp add: I_get_set_def)
  note T = interner_contract [OF r a b c]
  have never: "\<forall>u \<in> set (strings I_get_set). fst (intern I_get_set u) \<noteq> 2"
    by (simp add: I_get_set_def intern_def)
  from T have fail: "(\<forall>u \<in> set (strings I_get_set). fst (intern I_get_set u) \<noteq> 2)
       \<longrightarrow> lookup I_get_set 2 = Inl OutOfRange" by blast
  from fail never have f: "lookup I_get_set 2 = Inl OutOfRange" by blast
  from T have l1: "lookup I_get 0 = Inr ''get''" and l2: "lookup I_get_set 0 = Inr ''get''"
    and l3: "lookup I_get_set 1 = Inr ''set''" and s1: "intern I_get ''get'' = (0, I_get)"
    and s2: "intern I_get_set ''get'' = (0, I_get_set)" by blast+
  show ?thesis by (intro conjI r a b c l1 l2 l3 s1 s2 f)
qed

section \<open>Lexer (src/src/lexer.cpp, include/finescript/token.h)\<close>

type_synonym u16 = "16 word"
type_synonym i64 = "64 word"

text \<open>The enum \<open>TokenType\<close> of token.h; the constructor for \<open>TokenType::X\<close> is \<open>TokX\<close>.\<close>

datatype TokenType =
    TokIntLiteral | TokFloatLiteral | TokStringLiteral
  | TokStringInterpStart | TokStringInterpMiddle | TokStringInterpEnd
  | TokSymbolLiteral | TokBoolTrue | TokBoolFalse | TokNilLiteral
  | TokName
  | TokLeftBrace | TokRightBrace | TokLeftParen | TokRightParen
  | TokLeftBracket | TokRightBracket | TokDot | TokSemicolon | TokNewline
  | TokPlus | TokMinus | TokStar | TokSlash | TokPercent
  | TokLess | TokGreater | TokLessEqual | TokGreaterEqual | TokEqualEqual | TokBangEqual
  | TokDotDot | TokDotDotEqual | TokAnd | TokOr | TokNot | TokTilde
  | TokNullCoalesce | TokFalsyCoalesce | TokKeyName
  | TokDo | TokEnd | TokIf | TokElif | TokElse | TokFor | TokIn | TokWhile | TokMatch
  | TokOn | TokFn | TokSet | TokLet | TokReturn | TokSource | TokUnderscore
  | TokEof

record SourceLocation =
  fileId :: u16
  line :: u16
  column :: u16

text \<open>
  \<open>struct Token\<close>.  \<open>ttype\<close> and \<open>ttext\<close> are the fields \<open>type\<close> and \<open>text\<close>.  The
  field \<open>floatValue\<close> (a double, the result of \<open>std::stod\<close>) is not represented; the
  digits of a float literal are in \<open>ttext\<close>.
\<close>

record Token =
  ttype :: TokenType
  ttext :: string
  location :: SourceLocation
  intValue :: i64
  hasLeadingSpace :: bool

text \<open>What the lexer throws (all are \<open>std::runtime_error\<close>, except the last).\<close>

datatype lex_error =
    UnterminatedString        \<comment> \<open>"Unterminated string literal"\<close>
  | UnexpectedEquals          \<comment> \<open>"Unexpected '=' -- did you mean '=='?"\<close>
  | UnexpectedBang            \<comment> \<open>"Unexpected '!' -- did you mean '!='?"\<close>
  | UnexpectedCharacter char  \<comment> \<open>"Unexpected character: 'c'"\<close>
  | StollOutOfRange           \<comment> \<open>\<open>std::out_of_range\<close> from \<open>std::stoll\<close>\<close>

text \<open>
  The private state of \<open>class Lexer\<close>: \<open>source\<close>, \<open>pos\<close>, \<open>lexFileId\<close>, \<open>lexLine\<close>,
  \<open>lexColumn\<close>, \<open>nestingDepth\<close>, \<open>inString\<close>, \<open>interpBraceDepth\<close>, \<open>lastWasSpace\<close> and
  \<open>peeked\<close> are the members \<open>source_\<close>, \<open>pos_\<close>, \<open>fileId_\<close>, \<open>line_\<close>, \<open>column_\<close>,
  \<open>nestingDepth_\<close>, \<open>inString_\<close>, \<open>interpBraceDepth_\<close>, \<open>lastWasSpace_\<close> and \<open>peeked_\<close>.
  The two depth counters are C \<open>int\<close>s; they are modelled unbounded.
\<close>

record Lexer =
  source :: string
  pos :: nat
  lexFileId :: u16
  lexLine :: u16
  lexColumn :: u16
  nestingDepth :: int
  inString :: bool
  interpBraceDepth :: int
  lastWasSpace :: bool
  peeked :: "Token option"

text \<open>The constructor \<open>Lexer(source, fileId)\<close> with the default member initialisers.\<close>

definition Lexer_init :: "string \<Rightarrow> u16 \<Rightarrow> Lexer" where
  "Lexer_init src fid =
     \<lparr>source = src, pos = 0, lexFileId = fid, lexLine = 1, lexColumn = 1, nestingDepth = 0,
      inString = False, interpBraceDepth = 0, lastWasSpace = True, peeked = None\<rparr>"

definition current :: "Lexer \<Rightarrow> char" where
  "current L = (if pos L < length (source L) then source L ! pos L else CHR 0x00)"

definition peekChar :: "Lexer \<Rightarrow> char" where
  "peekChar L = (if pos L + 1 < length (source L) then source L ! (pos L + 1) else CHR 0x00)"

definition isAtEnd :: "Lexer \<Rightarrow> bool" where
  "isAtEnd L \<longleftrightarrow> pos L \<ge> length (source L)"

definition loc :: "Lexer \<Rightarrow> SourceLocation" where
  "loc L = \<lparr>fileId = lexFileId L, line = lexLine L, column = lexColumn L\<rparr>"

text \<open>\<open>advance\<close> returns \<open>current\<close> and moves on; the model returns the new state only.\<close>

definition advance :: "Lexer \<Rightarrow> Lexer" where
  "advance L =
     (if current L = CHR 0x0A
      then L\<lparr>pos := pos L + 1, lexLine := lexLine L + 1, lexColumn := 1\<rparr>
      else L\<lparr>pos := pos L + 1, lexColumn := lexColumn L + 1\<rparr>)"

definition makeToken :: "Lexer \<Rightarrow> TokenType \<Rightarrow> string \<Rightarrow> SourceLocation \<Rightarrow> Token" where
  "makeToken L ty txt l =
     \<lparr>ttype = ty, ttext = txt, location = l, intValue = 0, hasLeadingSpace = lastWasSpace L\<rparr>"

text \<open>The character classes of \<open><cctype>\<close> in the "C" locale.\<close>

definition isdigit :: "char \<Rightarrow> bool" where
  "isdigit c \<longleftrightarrow> (48 :: nat) \<le> of_char c \<and> of_char c \<le> (57 :: nat)"

definition isalpha :: "char \<Rightarrow> bool" where
  "isalpha c \<longleftrightarrow> ((65 :: nat) \<le> of_char c \<and> of_char c \<le> (90 :: nat))
                \<or> ((97 :: nat) \<le> of_char c \<and> of_char c \<le> (122 :: nat))"

definition isalnum :: "char \<Rightarrow> bool" where
  "isalnum c \<longleftrightarrow> isalpha c \<or> isdigit c"

definition isIdentStart :: "char \<Rightarrow> bool" where
  "isIdentStart c \<longleftrightarrow> isalpha c \<or> c = CHR ''_''"

definition isIdentChar :: "char \<Rightarrow> bool" where
  "isIdentChar c \<longleftrightarrow> isalnum c \<or> c = CHR ''_''"

text \<open>The loop \<open>while (!isAtEnd() && P(current())) advance();\<close>.\<close>

function advanceWhile :: "(char \<Rightarrow> bool) \<Rightarrow> Lexer \<Rightarrow> Lexer" where
  "advanceWhile P L = (if \<not> isAtEnd L \<and> P (current L) then advanceWhile P (advance L) else L)"
  by pat_completeness auto
termination
  by (relation "measure (\<lambda>(P, L). length (source L) - pos L)")
     (auto simp: isAtEnd_def advance_def)

declare advanceWhile.simps [simp del]

lemma advance_source [simp]: "source (advance L) = source L"
  by (simp add: advance_def)

lemma advance_pos [simp]: "pos (advance L) = Suc (pos L)"
  by (simp add: advance_def)

lemma advanceWhile_source [simp]: "source (advanceWhile P L) = source L"
  by (induction P L rule: advanceWhile.induct) (subst advanceWhile.simps, simp)

lemma advanceWhile_pos: "pos L \<le> pos (advanceWhile P L)"
proof (induction P L rule: advanceWhile.induct)
  case (1 P L)
  show ?case
  proof (cases "\<not> isAtEnd L \<and> P (current L)")
    case True
    with 1 have "Suc (pos L) \<le> pos (advanceWhile P (advance L))" by simp
    with True show ?thesis by (subst advanceWhile.simps) simp
  next
    case False
    then show ?thesis by (subst advanceWhile.simps) auto
  qed
qed

lemma advanceWhile_pos_strict:
  "\<not> isAtEnd L \<Longrightarrow> P (current L) \<Longrightarrow> pos L < pos (advanceWhile P L)"
  using advanceWhile_pos [of "advance L" P] by (subst advanceWhile.simps) simp

text \<open>
  \<open>skipWhitespaceAndComments\<close>: blanks set \<open>lastWasSpace_\<close>; a \<open>#\<close> comment runs to the end
  of the line (the newline itself stays).
\<close>

function skipWhitespaceAndComments :: "Lexer \<Rightarrow> Lexer" where
  "skipWhitespaceAndComments L =
     (if isAtEnd L then L
      else if current L = CHR '' '' \<or> current L = CHR 0x09 \<or> current L = CHR 0x0D
           then skipWhitespaceAndComments (advance (L\<lparr>lastWasSpace := True\<rparr>))
      else if current L = CHR ''#''
           then skipWhitespaceAndComments (advanceWhile (\<lambda>c. c \<noteq> CHR 0x0A) L)
      else L)"
  by pat_completeness auto
termination
proof (relation "measure (\<lambda>L. length (source L) - pos L)", goal_cases)
  case 1
  show ?case by simp
next
  case (2 L)
  then show ?case by (auto simp: isAtEnd_def)
next
  case (3 L)
  then have "pos L < pos (advanceWhile (\<lambda>c. c \<noteq> CHR 0x0A) L)"
    by (intro advanceWhile_pos_strict) auto
  with 3 show ?case by (auto simp: isAtEnd_def)
qed

declare skipWhitespaceAndComments.simps [simp del]

lemma skipWhitespaceAndComments_source [simp]:
  "source (skipWhitespaceAndComments L) = source L"
  by (induction L rule: skipWhitespaceAndComments.induct)
     (subst skipWhitespaceAndComments.simps, simp)

lemma skipWhitespaceAndComments_pos: "pos L \<le> pos (skipWhitespaceAndComments L)"
proof (induction L rule: skipWhitespaceAndComments.induct)
  case (1 L)
  let ?ws = "current L = CHR '' '' \<or> current L = CHR 0x09 \<or> current L = CHR 0x0D"
  consider (e) "isAtEnd L" | (w) "\<not> isAtEnd L" "?ws"
    | (c) "\<not> isAtEnd L" "\<not> ?ws" "current L = CHR ''#''"
    | (o) "\<not> isAtEnd L" "\<not> ?ws" "current L \<noteq> CHR ''#''" by blast
  then show ?case
  proof cases
    case e
    then show ?thesis by (subst skipWhitespaceAndComments.simps) simp
  next
    case w
    with 1(1) have "Suc (pos L) \<le> pos (skipWhitespaceAndComments (advance (L\<lparr>lastWasSpace := True\<rparr>)))"
      by simp
    with w show ?thesis by (subst skipWhitespaceAndComments.simps) auto
  next
    case c
    with 1(2) have "pos (advanceWhile (\<lambda>c. c \<noteq> CHR 0x0A) L)
        \<le> pos (skipWhitespaceAndComments (advanceWhile (\<lambda>c. c \<noteq> CHR 0x0A) L))" by simp
    moreover have "pos L \<le> pos (advanceWhile (\<lambda>c. c \<noteq> CHR 0x0A) L)" by (rule advanceWhile_pos)
    ultimately show ?thesis using c by (subst skipWhitespaceAndComments.simps) auto
  next
    case o
    then show ?thesis by (subst skipWhitespaceAndComments.simps) auto
  qed
qed

text \<open>The loop of \<open>scanToken\<close> that collapses a run of newlines.\<close>

function collapseNewlines :: "Lexer \<Rightarrow> Lexer" where
  "collapseNewlines L =
     (if \<not> isAtEnd L \<and> current L = CHR 0x0A
      then collapseNewlines (skipWhitespaceAndComments (advance L))
      else L)"
  by pat_completeness auto
termination
proof (relation "measure (\<lambda>L. length (source L) - pos L)", goal_cases)
  case 1
  show ?case by simp
next
  case (2 L)
  have "pos (advance L) \<le> pos (skipWhitespaceAndComments (advance L))"
    by (rule skipWhitespaceAndComments_pos)
  with 2 show ?case by (auto simp: isAtEnd_def)
qed

declare collapseNewlines.simps [simp del]

definition classifyKeyword :: "string \<Rightarrow> TokenType" where
  "classifyKeyword txt =
     (if txt = ''do'' then TokDo
      else if txt = ''end'' then TokEnd
      else if txt = ''if'' then TokIf
      else if txt = ''elif'' then TokElif
      else if txt = ''else'' then TokElse
      else if txt = ''for'' then TokFor
      else if txt = ''in'' then TokIn
      else if txt = ''while'' then TokWhile
      else if txt = ''match'' then TokMatch
      else if txt = ''on'' then TokOn
      else if txt = ''fn'' then TokFn
      else if txt = ''set'' then TokSet
      else if txt = ''let'' then TokLet
      else if txt = ''return'' then TokReturn
      else if txt = ''source'' then TokSource
      else if txt = ''true'' then TokBoolTrue
      else if txt = ''false'' then TokBoolFalse
      else if txt = ''nil'' then TokNilLiteral
      else if txt = ''and'' then TokAnd
      else if txt = ''or'' then TokOr
      else if txt = ''not'' then TokNot
      else if txt = ''_'' then TokUnderscore
      else TokName)"

text \<open>\<open>source_.substr(start, pos_ - start)\<close>.\<close>

definition substr :: "string \<Rightarrow> nat \<Rightarrow> nat \<Rightarrow> string" where
  "substr s start n = take n (drop start s)"

text \<open>The value of a string of decimal digits, as \<open>std::stoll\<close> reads it.\<close>

definition digitsValue :: "string \<Rightarrow> int" where
  "digitsValue txt = foldl (\<lambda>n c. 10 * n + (of_char c - 48)) 0 txt"

text \<open>
  \<open>scanNumber\<close>.  An integer literal beyond \<open>INT64_MAX\<close> makes \<open>std::stoll\<close> throw; for a
  float literal only the text is kept.
\<close>

definition scanNumber :: "Lexer \<Rightarrow> nat \<Rightarrow> (lex_error + Token) \<times> Lexer" where
  "scanNumber L start =
     (let startLoc = loc L;
          L1 = advanceWhile isdigit L;
          isFloat = (current L1 = CHR ''.'' \<and> peekChar L1 \<noteq> CHR ''.'');
          L2 = (if isFloat then advanceWhile isdigit (advance L1) else L1);
          txt = substr (source L2) start (pos L2 - start);
          t = makeToken L2 (if isFloat then TokFloatLiteral else TokIntLiteral) txt startLoc
      in if isFloat then (Inr t, L2)
         else if digitsValue txt \<ge> 2 ^ 63 then (Inl StollOutOfRange, L2)
         else (Inr (t\<lparr>intValue := of_int (digitsValue txt)\<rparr>), L2))"

definition scanName :: "Lexer \<Rightarrow> nat \<Rightarrow> (lex_error + Token) \<times> Lexer" where
  "scanName L start =
     (let startLoc = loc L;
          L1 = advanceWhile isIdentChar L;
          txt = substr (source L1) start (pos L1 - start)
      in (Inr (makeToken L1 (classifyKeyword txt) txt startLoc), L1))"

definition scanSymbolLiteral :: "Lexer \<Rightarrow> (lex_error + Token) \<times> Lexer" where
  "scanSymbolLiteral L =
     (let startLoc = loc L;
          L1 = advance L;
          nameStart = pos L1;
          L2 = advanceWhile isIdentChar L1;
          nm = substr (source L2) nameStart (pos L2 - nameStart)
      in (Inr (makeToken L2 TokSymbolLiteral nm startLoc), L2))"

text \<open>\<open>processEscapes\<close>: a backslash before an unknown character keeps both.\<close>

fun processEscapes :: "string \<Rightarrow> string" where
  "processEscapes [] = []"
| "processEscapes [c] = [c]"
| "processEscapes (c # d # rest) =
     (if c = CHR 0x5C then
        (if d = CHR ''n'' then CHR 0x0A # processEscapes rest
         else if d = CHR ''t'' then CHR 0x09 # processEscapes rest
         else if d = CHR ''r'' then CHR 0x0D # processEscapes rest
         else if d = CHR 0x5C then CHR 0x5C # processEscapes rest
         else if d = CHR 0x22 then CHR 0x22 # processEscapes rest
         else if d = CHR ''{'' then CHR ''{'' # processEscapes rest
         else if d = CHR ''}'' then CHR ''}'' # processEscapes rest
         else CHR 0x5C # d # processEscapes rest)
      else c # processEscapes (d # rest))"

text \<open>
  The scanning loop shared by \<open>scanString\<close> and \<open>scanStringContinuation\<close>: it stops at the
  end of the input, at a closing quote, or at an unescaped \<open>{\<close> (the flag of the result),
  and returns the raw text read.
\<close>

function stringLoop :: "Lexer \<Rightarrow> string \<Rightarrow> Lexer \<times> string \<times> bool" where
  "stringLoop L txt =
     (if \<not> isAtEnd L \<and> current L \<noteq> CHR 0x22 then
        (if current L = CHR 0x5C then
           (let L1 = advance L; txt1 = txt @ [current L]
            in if \<not> isAtEnd L1 then stringLoop (advance L1) (txt1 @ [current L1])
               else stringLoop L1 txt1)
         else if current L = CHR ''{'' then (L, txt, True)
         else stringLoop (advance L) (txt @ [current L]))
      else (L, txt, False))"
  by pat_completeness auto
termination
  by (relation "measure (\<lambda>(L, txt). length (source L) - pos L)")
     (auto simp: isAtEnd_def)

declare stringLoop.simps [simp del]

definition scanStringRest ::
  "Lexer \<Rightarrow> SourceLocation \<Rightarrow> TokenType \<Rightarrow> TokenType \<Rightarrow> bool \<Rightarrow> (lex_error + Token) \<times> Lexer" where
  "scanStringRest L startLoc interpTy endTy inStr =
     (case stringLoop L [] of
        (L1, txt, True) \<Rightarrow>
          (let L2 = advance (L1\<lparr>inString := True, interpBraceDepth := 1\<rparr>)
           in (Inr (makeToken L2 interpTy (processEscapes txt) startLoc), L2))
      | (L1, txt, False) \<Rightarrow>
          (if isAtEnd L1 then (Inl UnterminatedString, L1)
           else (let L2 = (advance L1)\<lparr>inString := inStr\<rparr>
                 in (Inr (makeToken L2 endTy (processEscapes txt) startLoc), L2))))"

text \<open>
  \<open>scanString\<close> consumes the opening quote first and leaves \<open>inString_\<close> as it is when the
  literal ends; \<open>scanStringContinuation\<close> starts after a \<open>}\<close> and clears \<open>inString_\<close> at the
  closing quote.  At an interpolation both set \<open>interpBraceDepth_ = 1\<close>; \<open>inString_\<close> is already
  set in the continuation.
\<close>

definition scanString :: "Lexer \<Rightarrow> (lex_error + Token) \<times> Lexer" where
  "scanString L =
     (let startLoc = loc L; L0 = advance L
      in scanStringRest L0 startLoc TokStringInterpStart TokStringLiteral (inString L0))"

definition scanStringContinuation :: "Lexer \<Rightarrow> (lex_error + Token) \<times> Lexer" where
  "scanStringContinuation L =
     scanStringRest L (loc L) TokStringInterpMiddle TokStringInterpEnd False"

text \<open>The \<open>switch\<close> of \<open>scanToken\<close>, entered after the character \<open>c\<close> was consumed.\<close>

definition scanPunct :: "Lexer \<Rightarrow> char \<Rightarrow> SourceLocation \<Rightarrow> (lex_error + Token) \<times> Lexer" where
  "scanPunct L c startLoc =
     (if c = CHR ''{'' then
        (let L1 = (if inString L then L\<lparr>interpBraceDepth := interpBraceDepth L + 1\<rparr>
                   else L\<lparr>nestingDepth := nestingDepth L + 1\<rparr>)
         in (Inr (makeToken L1 TokLeftBrace ''{'' startLoc), L1))
      else if c = CHR ''}'' then
        (if inString L then
           (let L1 = L\<lparr>interpBraceDepth := interpBraceDepth L - 1\<rparr>
            in if interpBraceDepth L1 = 0 then scanStringContinuation L1
               else (Inr (makeToken L1 TokRightBrace ''}'' startLoc), L1))
         else
           (let L1 = (if nestingDepth L > 0 then L\<lparr>nestingDepth := nestingDepth L - 1\<rparr> else L)
            in (Inr (makeToken L1 TokRightBrace ''}'' startLoc), L1)))
      else if c = CHR ''('' then
        (let L1 = L\<lparr>nestingDepth := nestingDepth L + 1\<rparr>
         in (Inr (makeToken L1 TokLeftParen ''('' startLoc), L1))
      else if c = CHR '')'' then
        (let L1 = (if nestingDepth L > 0 then L\<lparr>nestingDepth := nestingDepth L - 1\<rparr> else L)
         in (Inr (makeToken L1 TokRightParen '')'' startLoc), L1))
      else if c = CHR ''['' then
        (let L1 = L\<lparr>nestingDepth := nestingDepth L + 1\<rparr>
         in (Inr (makeToken L1 TokLeftBracket ''['' startLoc), L1))
      else if c = CHR '']'' then
        (let L1 = (if nestingDepth L > 0 then L\<lparr>nestingDepth := nestingDepth L - 1\<rparr> else L)
         in (Inr (makeToken L1 TokRightBracket '']'' startLoc), L1))
      else if c = CHR '';'' then (Inr (makeToken L TokSemicolon '';'' startLoc), L)
      else if c = CHR ''+'' then (Inr (makeToken L TokPlus ''+'' startLoc), L)
      else if c = CHR ''-'' then (Inr (makeToken L TokMinus ''-'' startLoc), L)
      else if c = CHR ''*'' then (Inr (makeToken L TokStar ''*'' startLoc), L)
      else if c = CHR ''/'' then (Inr (makeToken L TokSlash ''/'' startLoc), L)
      else if c = CHR ''%'' then (Inr (makeToken L TokPercent ''%'' startLoc), L)
      else if c = CHR ''.'' then
        (if current L = CHR ''.'' then
           (let L1 = advance L
            in if current L1 = CHR ''='' then
                 (let L2 = advance L1 in (Inr (makeToken L2 TokDotDotEqual ''..='' startLoc), L2))
               else (Inr (makeToken L1 TokDotDot ''..'' startLoc), L1))
         else (Inr (makeToken L TokDot ''.'' startLoc), L))
      else if c = CHR ''<'' then
        (if current L = CHR ''='' then
           (let L1 = advance L in (Inr (makeToken L1 TokLessEqual ''<='' startLoc), L1))
         else (Inr (makeToken L TokLess ''<'' startLoc), L))
      else if c = CHR ''>'' then
        (if current L = CHR ''='' then
           (let L1 = advance L in (Inr (makeToken L1 TokGreaterEqual ''>='' startLoc), L1))
         else (Inr (makeToken L TokGreater ''>'' startLoc), L))
      else if c = CHR ''='' then
        (if current L = CHR ''='' then
           (let L1 = advance L in (Inr (makeToken L1 TokEqualEqual ''=='' startLoc), L1))
         else (Inl UnexpectedEquals, L))
      else if c = CHR ''!'' then
        (if current L = CHR ''='' then
           (let L1 = advance L in (Inr (makeToken L1 TokBangEqual ''!='' startLoc), L1))
         else (Inl UnexpectedBang, L))
      else if c = CHR ''~'' then (Inr (makeToken L TokTilde ''~'' startLoc), L)
      else (Inl (UnexpectedCharacter c), L))"

text \<open>
  \<open>scanToken\<close>.  A newline inside nesting delimiters is skipped by scanning again; this is
  the only recursive call.
\<close>

function scanToken :: "Lexer \<Rightarrow> (lex_error + Token) \<times> Lexer" where
  "scanToken L =
     (if inString L \<and> interpBraceDepth L = 0 then scanStringContinuation L
      else
        (let L1 = skipWhitespaceAndComments L in
         if isAtEnd L1 then (Inr (makeToken L1 TokEof [] (loc L1)), L1)
         else
           (let startLoc = loc L1; c = current L1 in
            if c = CHR 0x0A then
              (let L2 = (advance L1)\<lparr>lastWasSpace := True\<rparr> in
               if nestingDepth L2 > 0 then scanToken L2
               else (let L3 = collapseNewlines (skipWhitespaceAndComments L2)
                     in (Inr (makeToken L3 TokNewline [CHR 0x5C, CHR ''n''] startLoc), L3)))
            else
              (let hadLeadingSpace = lastWasSpace L1;
                   L2 = L1\<lparr>lastWasSpace := False\<rparr> in
               if isdigit c then scanNumber L2 (pos L2)
               else if isIdentStart c then scanName L2 (pos L2)
               else if c = CHR 0x22 then scanString L2
               else if c = CHR '':'' \<and> \<not> isAtEnd L2 \<and> isIdentStart (peekChar L2)
                    then scanSymbolLiteral L2
               else scanPunct (advance (L2\<lparr>lastWasSpace := hadLeadingSpace\<rparr>)) c startLoc))))"
  by pat_completeness auto
termination
proof (relation "measure (\<lambda>L. length (source L) - pos L)", goal_cases)
  case 1
  show ?case by simp
next
  case (2 L L1 startLoc c L2)
  have "pos L \<le> pos (skipWhitespaceAndComments L)" by (rule skipWhitespaceAndComments_pos)
  with 2 show ?case by (auto simp: isAtEnd_def)
qed

declare scanToken.simps [simp del]

text \<open>\<open>next\<close> and \<open>peek\<close>: one token of lookahead, cached in \<open>peeked_\<close>.\<close>

definition lexer_next :: "Lexer \<Rightarrow> (lex_error + Token) \<times> Lexer" where
  "lexer_next L =
     (case peeked L of
        Some t \<Rightarrow> (Inr t, L\<lparr>peeked := None\<rparr>)
      | None \<Rightarrow> scanToken L)"

definition lexer_peek :: "Lexer \<Rightarrow> (lex_error + Token) \<times> Lexer" where
  "lexer_peek L =
     (case peeked L of
        Some t \<Rightarrow> (Inr t, L)
      | None \<Rightarrow>
          (case scanToken L of
             (Inr t, L1) \<Rightarrow> (Inr t, L1\<lparr>peeked := Some t\<rparr>)
           | (Inl e, L1) \<Rightarrow> (Inl e, L1)))"

subsection \<open>What the lexer does with \<open>=name\<close>, \<open>?\<close>, \<open>??\<close> and \<open>?:\<close>\<close>

lemma current_advance: "current (advance L) = peekChar L"
  by (simp add: current_def peekChar_def advance_def)

lemma current_lastWasSpace [simp]: "current (L\<lparr>lastWasSpace := b\<rparr>) = current L"
  by (simp add: current_def)

lemma peekChar_lastWasSpace [simp]: "peekChar (L\<lparr>lastWasSpace := b\<rparr>) = peekChar L"
  by (simp add: peekChar_def)

lemma isAtEnd_lastWasSpace [simp]: "isAtEnd (L\<lparr>lastWasSpace := b\<rparr>) = isAtEnd L"
  by (simp add: isAtEnd_def)

lemma not_isIdentStart_equals: "\<not> isIdentStart (CHR ''='')"
  by (simp add: isIdentStart_def isalpha_def)

text \<open>
  Outside string continuation, \<open>scanToken\<close> reaches the \<open>switch\<close> on every character that
  is no newline, digit, identifier start, quote or colon.
\<close>

lemma scanToken_punct:
  assumes "\<not> (inString L \<and> interpBraceDepth L = 0)"
    and "\<not> isAtEnd (skipWhitespaceAndComments L)"
    and "current (skipWhitespaceAndComments L) = c"
    and "c \<noteq> CHR 0x0A" "\<not> isdigit c" "\<not> isIdentStart c" "c \<noteq> CHR 0x22" "c \<noteq> CHR '':''"
  shows "scanToken L =
           scanPunct (advance (skipWhitespaceAndComments L)) c (loc (skipWhitespaceAndComments L))"
  using assms by (subst scanToken.simps) (auto simp: Let_def)

text \<open>
  C1 (the code does otherwise).  Wherever the lexer, in code mode, stands before \<open>=\<close>
  followed by the first character of an identifier (after blanks and comments), \<open>scanToken\<close>
  throws "Unexpected '='"; no \<open>KeyName\<close> token is produced.
\<close>

theorem scanToken_rejects_key_name:
  assumes "\<not> (inString L \<and> interpBraceDepth L = 0)"
    and "\<not> isAtEnd (skipWhitespaceAndComments L)"
    and "current (skipWhitespaceAndComments L) = CHR ''=''"
    and "isIdentStart (peekChar (skipWhitespaceAndComments L))"
  shows "fst (scanToken L) = Inl UnexpectedEquals"
proof -
  let ?L1 = "skipWhitespaceAndComments L"
  have ne: "peekChar ?L1 \<noteq> CHR ''=''"
    using assms(4) not_isIdentStart_equals by auto
  have "scanToken L = scanPunct (advance ?L1) (CHR ''='') (loc ?L1)"
    using assms(1-3)
    by (intro scanToken_punct) (simp_all add: isdigit_def isIdentStart_def isalpha_def)
  then show ?thesis using ne by (simp add: scanPunct_def current_advance)
qed

lemma skipWhitespaceAndComments_stay:
  "\<not> isAtEnd L \<Longrightarrow> current L \<noteq> CHR '' '' \<Longrightarrow> current L \<noteq> CHR 0x09 \<Longrightarrow>
   current L \<noteq> CHR 0x0D \<Longrightarrow> current L \<noteq> CHR ''#'' \<Longrightarrow> skipWhitespaceAndComments L = L"
  by (subst skipWhitespaceAndComments.simps) simp

theorem scanToken_rejects_key_name_witness:
  "\<not> (inString (Lexer_init ''=foo'' 0) \<and> interpBraceDepth (Lexer_init ''=foo'' 0) = 0)
   \<and> \<not> isAtEnd (skipWhitespaceAndComments (Lexer_init ''=foo'' 0))
   \<and> current (skipWhitespaceAndComments (Lexer_init ''=foo'' 0)) = CHR ''=''
   \<and> isIdentStart (peekChar (skipWhitespaceAndComments (Lexer_init ''=foo'' 0)))
   \<and> fst (scanToken (Lexer_init ''=foo'' 0)) = Inl UnexpectedEquals"
proof -
  have s: "skipWhitespaceAndComments (Lexer_init ''=foo'' 0) = Lexer_init ''=foo'' 0"
    by (rule skipWhitespaceAndComments_stay)
       (simp_all add: Lexer_init_def isAtEnd_def current_def)
  have a: "\<not> (inString (Lexer_init ''=foo'' 0) \<and> interpBraceDepth (Lexer_init ''=foo'' 0) = 0)"
    by (simp add: Lexer_init_def)
  have b: "\<not> isAtEnd (skipWhitespaceAndComments (Lexer_init ''=foo'' 0))"
    unfolding s by (simp add: Lexer_init_def isAtEnd_def)
  have c: "current (skipWhitespaceAndComments (Lexer_init ''=foo'' 0)) = CHR ''=''"
    unfolding s by (simp add: Lexer_init_def current_def)
  have d: "isIdentStart (peekChar (skipWhitespaceAndComments (Lexer_init ''=foo'' 0)))"
    unfolding s by (simp add: Lexer_init_def peekChar_def isIdentStart_def isalpha_def)
  show ?thesis by (intro conjI a b c d scanToken_rejects_key_name [OF a b c d])
qed

text \<open>
  C3 (the code does otherwise for \<open>??\<close> and \<open>?:\<close>).  Wherever the lexer, in code mode, stands
  before a \<open>?\<close>, \<open>scanToken\<close> throws "Unexpected character: '?'", whatever follows: a lone
  \<open>?\<close> is rejected, and so are \<open>??\<close> and \<open>?:\<close>.
\<close>

theorem scanToken_rejects_question_mark:
  assumes "\<not> (inString L \<and> interpBraceDepth L = 0)"
    and "\<not> isAtEnd (skipWhitespaceAndComments L)"
    and "current (skipWhitespaceAndComments L) = CHR ''?''"
  shows "fst (scanToken L) = Inl (UnexpectedCharacter (CHR ''?''))"
proof -
  let ?L1 = "skipWhitespaceAndComments L"
  have "scanToken L = scanPunct (advance ?L1) (CHR ''?'') (loc ?L1)"
    using assms
    by (intro scanToken_punct) (simp_all add: isdigit_def isIdentStart_def isalpha_def)
  then show ?thesis by (simp add: scanPunct_def)
qed

theorem scanToken_rejects_question_mark_witness:
  "\<not> (inString (Lexer_init ''??'' 0) \<and> interpBraceDepth (Lexer_init ''??'' 0) = 0)
   \<and> \<not> isAtEnd (skipWhitespaceAndComments (Lexer_init ''??'' 0))
   \<and> current (skipWhitespaceAndComments (Lexer_init ''??'' 0)) = CHR ''?''
   \<and> fst (scanToken (Lexer_init ''??'' 0)) = Inl (UnexpectedCharacter (CHR ''?''))"
proof -
  have s: "skipWhitespaceAndComments (Lexer_init ''??'' 0) = Lexer_init ''??'' 0"
    by (rule skipWhitespaceAndComments_stay)
       (simp_all add: Lexer_init_def isAtEnd_def current_def)
  have a: "\<not> (inString (Lexer_init ''??'' 0) \<and> interpBraceDepth (Lexer_init ''??'' 0) = 0)"
    by (simp add: Lexer_init_def)
  have b: "\<not> isAtEnd (skipWhitespaceAndComments (Lexer_init ''??'' 0))"
    unfolding s by (simp add: Lexer_init_def isAtEnd_def)
  have c: "current (skipWhitespaceAndComments (Lexer_init ''??'' 0)) = CHR ''?''"
    unfolding s by (simp add: Lexer_init_def current_def)
  show ?thesis by (intro conjI a b c scanToken_rejects_question_mark [OF a b c])
qed

section \<open>Values, maps and scopes (value.h, value.cpp, map_data.cpp, scope.cpp)\<close>

text \<open>
  Strings, arrays, maps, closures, native functions and scopes are shared through
  \<open>std::shared_ptr\<close>; the model keeps them in a heap, a list of objects, and a handle is the
  index of its object.  Objects are never freed in the model.
\<close>

type_synonym addr = nat

text \<open>
  \<open>class Value\<close>: the ten alternatives of its variant.  A float is kept as the 64 bits of
  the double; no floating-point operation is modelled.
\<close>

datatype Value =
    VNil
  | VBool bool
  | VInt i64
  | VFloat "64 word"
  | VSymbol u32
  | VString addr
  | VArray addr
  | VMap addr
  | VClosure addr
  | VNativeFunction addr

text \<open>
  \<open>struct AstNode\<close> (ast.h), one constructor for each \<open>AstNodeKind\<close> with the fields the
  parser fills for it:
  \<^item> \<open>MapLit\<close>: the keys (\<open>nameParts\<close>) paired with the value expressions (\<open>children\<close>);
  \<^item> \<open>DottedName\<close>: \<open>children[0]\<close> and the fields (\<open>nameParts\<close>);
  \<^item> \<open>Call\<close>: the verb \<open>children[0]\<close>, the positional arguments, and the named arguments
    (\<open>nameParts\<close> paired with the trailing children);
  \<^item> \<open>Infix\<close>: \<open>op\<close>, \<open>children[0]\<close>, \<open>children[1]\<close>;
  \<^item> \<open>SetNode\<close>: the dotted target (\<open>nameParts\<close>) and the right-hand side;
  \<^item> \<open>Fn\<close>: the name (\<open>stringValue\<close>), the parameters (\<open>nameParts\<close>), the number of
    required ones (\<open>intValue\<close>), the body (\<open>children[0]\<close>), the default expressions
    (\<open>children[1..]\<close>) and \<open>op\<close> (the rest and kwargs names, separated by \<open>|\<close>);
  \<^item> \<open>IfNode\<close>: the condition and body pairs and the optional else body (\<open>hasElse\<close>);
  \<^item> \<open>ForNode\<close>: the loop variable (\<open>nameParts[0]\<close>), the iterable and the body;
  \<^item> \<open>Match\<close>: the scrutinee and the (pattern, body) arms;
  \<^item> \<open>Return\<close>: the optional value expression.
  Source locations are left out.
\<close>

datatype AstNode =
    IntLit i64
  | FloatLit "64 word"
  | StringLit string
  | StringInterp "AstNode list"
  | SymbolLit string
  | BoolLit bool
  | NilLit
  | ArrayLit "AstNode list"
  | MapLit "(string \<times> AstNode) list"
  | Name string
  | DottedName AstNode "string list"
  | Call AstNode "AstNode list" "(string \<times> AstNode) list"
  | Infix string AstNode AstNode
  | UnaryNot AstNode
  | UnaryNegate AstNode
  | Block "AstNode list"
  | Index AstNode AstNode
  | Ref AstNode
  | SetNode "string list" AstNode
  | LetNode string AstNode
  | Fn string "string list" nat AstNode "AstNode list" string
  | IfNode "(AstNode \<times> AstNode) list" "AstNode option"
  | ForNode string AstNode AstNode
  | While AstNode AstNode
  | Match AstNode "(AstNode \<times> AstNode) list"
  | On string AstNode
  | Return "AstNode option"
  | Source AstNode

text \<open>
  \<open>struct Closure\<close>.  The body and the default expressions are pointers into the immutable
  AST; the model holds the nodes.  \<open>astRoot\<close> only keeps the AST alive and is left out.
\<close>

record Closure =
  paramIds :: "u32 list"
  numRequired :: nat
  defaultExprs :: "AstNode list"
  body :: AstNode
  capturedScope :: addr
  name :: string
  hasRestParam :: bool
  restParamId :: u32
  hasKwargsParam :: bool
  kwargsParamId :: u32

text \<open>
  \<open>class MapData\<close>: \<open>proxy\<close>, \<open>entries\<close> and \<open>methodKeys\<close> are the members \<open>proxy_\<close>,
  \<open>entries_\<close> and \<open>methodKeys_\<close>.  The only \<open>ProxyMap\<close> of the repository is
  \<open>ScopeProxyMap\<close>; \<open>proxy = Some a\<close> is a \<open>ScopeProxyMap\<close> over the scope at \<open>a\<close>.  The
  unordered map is an association list (its order is the model's, not the program's).
\<close>

record MapData =
  proxy :: "addr option"
  entries :: "(u32 \<times> Value) list"
  methodKeys :: "u32 set"

text \<open>\<open>class Scope\<close>: \<open>parent\<close> and \<open>bindings\<close> are the members \<open>parent_\<close> and \<open>bindings_\<close>.\<close>

record Scope =
  parent :: "addr option"
  bindings :: "(u32 \<times> Value) list"

datatype HeapObj =
    OString string
  | OArray "Value list"
  | OMap MapData
  | OClosure Closure
  | ONative
  | OScope Scope

type_synonym heap = "HeapObj list"

definition heapGet :: "heap \<Rightarrow> addr \<Rightarrow> HeapObj option" where
  "heapGet h a = (if a < length h then Some (h ! a) else None)"

definition alloc :: "heap \<Rightarrow> HeapObj \<Rightarrow> addr \<times> heap" where
  "alloc h obj = (length h, h @ [obj])"

definition scopeAt :: "heap \<Rightarrow> addr \<Rightarrow> Scope option" where
  "scopeAt h a = (case heapGet h a of Some (OScope s) \<Rightarrow> Some s | _ \<Rightarrow> None)"

definition mapAt :: "heap \<Rightarrow> addr \<Rightarrow> MapData option" where
  "mapAt h a = (case heapGet h a of Some (OMap m) \<Rightarrow> Some m | _ \<Rightarrow> None)"

definition arrayAt :: "heap \<Rightarrow> addr \<Rightarrow> Value list option" where
  "arrayAt h a = (case heapGet h a of Some (OArray xs) \<Rightarrow> Some xs | _ \<Rightarrow> None)"

definition stringAt :: "heap \<Rightarrow> addr \<Rightarrow> string option" where
  "stringAt h a = (case heapGet h a of Some (OString s) \<Rightarrow> Some s | _ \<Rightarrow> None)"

definition closureAt :: "heap \<Rightarrow> addr \<Rightarrow> Closure option" where
  "closureAt h a = (case heapGet h a of Some (OClosure c) \<Rightarrow> Some c | _ \<Rightarrow> None)"

subsection \<open>Value\<close>

definition isNil :: "Value \<Rightarrow> bool" where
  "isNil v \<longleftrightarrow> v = VNil"

definition isInt :: "Value \<Rightarrow> bool" where
  "isInt v \<longleftrightarrow> (case v of VInt _ \<Rightarrow> True | _ \<Rightarrow> False)"

definition isSymbol :: "Value \<Rightarrow> bool" where
  "isSymbol v \<longleftrightarrow> (case v of VSymbol _ \<Rightarrow> True | _ \<Rightarrow> False)"

definition isCallable :: "Value \<Rightarrow> bool" where
  "isCallable v \<longleftrightarrow> (case v of VClosure _ \<Rightarrow> True | VNativeFunction _ \<Rightarrow> True | _ \<Rightarrow> False)"

text \<open>\<open>Value::truthy\<close>: only nil and false are falsy.\<close>

definition truthy :: "Value \<Rightarrow> bool" where
  "truthy v = (case v of VNil \<Rightarrow> False | VBool b \<Rightarrow> b | _ \<Rightarrow> True)"

definition typeName :: "Value \<Rightarrow> string" where
  "typeName v =
     (case v of
        VNil \<Rightarrow> ''nil'' | VBool _ \<Rightarrow> ''bool'' | VInt _ \<Rightarrow> ''int'' | VFloat _ \<Rightarrow> ''float''
      | VSymbol _ \<Rightarrow> ''symbol'' | VString _ \<Rightarrow> ''string'' | VArray _ \<Rightarrow> ''array''
      | VMap _ \<Rightarrow> ''map'' | VClosure _ \<Rightarrow> ''function'' | VNativeFunction _ \<Rightarrow> ''function'')"

subsection \<open>Scope\<close>

text \<open>
  \<open>Scope::createGlobal\<close> and \<open>Scope::createChild\<close> allocate a frame without bindings.
\<close>

definition Scope_createGlobal :: "heap \<Rightarrow> addr \<times> heap" where
  "Scope_createGlobal h = alloc h (OScope \<lparr>parent = None, bindings = []\<rparr>)"

definition Scope_createChild :: "heap \<Rightarrow> addr \<Rightarrow> addr \<times> heap" where
  "Scope_createChild h a = alloc h (OScope \<lparr>parent = Some a, bindings = []\<rparr>)"

text \<open>
  \<open>Scope::lookup\<close> walks the parent chain.  It is recursive in the source and returns no
  result on a chain that never ends, which is the value \<open>None\<close> of the model; so is a handle
  that is not a scope.  \<open>Some None\<close> is the null pointer (unbound), \<open>Some (Some v)\<close> a binding.
\<close>

partial_function (option) Scope_lookup :: "heap \<Rightarrow> addr \<Rightarrow> u32 \<Rightarrow> Value option option" where
  "Scope_lookup h a k =
     (case scopeAt h a of
        None \<Rightarrow> None
      | Some sc \<Rightarrow>
          (case map_of (bindings sc) k of
             Some v \<Rightarrow> Some (Some v)
           | None \<Rightarrow>
               (case parent sc of
                  Some p \<Rightarrow> Scope_lookup h p k
                | None \<Rightarrow> Some None)))"

text \<open>\<open>bindings_[symbolId] = value\<close> in the frame at \<open>a\<close>.\<close>

definition bindIn :: "heap \<Rightarrow> addr \<Rightarrow> Scope \<Rightarrow> u32 \<Rightarrow> Value \<Rightarrow> heap" where
  "bindIn h a sc k v = h[a := OScope (sc\<lparr>bindings := AList.update k v (bindings sc)\<rparr>)]"

text \<open>
  The loop of \<open>Scope::set\<close>, from the frame \<open>s\<close> upwards: \<open>Some (Some h')\<close> when a frame
  that binds \<open>k\<close> was found and updated, \<open>Some None\<close> when the chain ended without one.
\<close>

partial_function (option) Scope_setLoop ::
    "heap \<Rightarrow> addr option \<Rightarrow> u32 \<Rightarrow> Value \<Rightarrow> heap option option" where
  "Scope_setLoop h s k v =
     (case s of
        None \<Rightarrow> Some None
      | Some a \<Rightarrow>
          (case scopeAt h a of
             None \<Rightarrow> None
           | Some sc \<Rightarrow>
               (if map_of (bindings sc) k \<noteq> None then Some (Some (bindIn h a sc k v))
                else Scope_setLoop h (parent sc) k v)))"

text \<open>\<open>Scope::set\<close>: update the nearest frame that binds \<open>k\<close>, else create the binding here.\<close>

definition Scope_set :: "heap \<Rightarrow> addr \<Rightarrow> u32 \<Rightarrow> Value \<Rightarrow> heap option" where
  "Scope_set h a k v =
     (case Scope_setLoop h (Some a) k v of
        None \<Rightarrow> None
      | Some (Some h') \<Rightarrow> Some h'
      | Some None \<Rightarrow>
          (case scopeAt h a of None \<Rightarrow> None | Some sc \<Rightarrow> Some (bindIn h a sc k v)))"

text \<open>\<open>Scope::define\<close>: always this frame.\<close>

definition Scope_define :: "heap \<Rightarrow> addr \<Rightarrow> u32 \<Rightarrow> Value \<Rightarrow> heap option" where
  "Scope_define h a k v =
     (case scopeAt h a of None \<Rightarrow> None | Some sc \<Rightarrow> Some (bindIn h a sc k v))"

definition Scope_hasLocal :: "heap \<Rightarrow> addr \<Rightarrow> u32 \<Rightarrow> bool option" where
  "Scope_hasLocal h a k =
     (case scopeAt h a of None \<Rightarrow> None | Some sc \<Rightarrow> Some (map_of (bindings sc) k \<noteq> None))"

definition Scope_localKeys :: "heap \<Rightarrow> addr \<Rightarrow> u32 list option" where
  "Scope_localKeys h a =
     (case scopeAt h a of None \<Rightarrow> None | Some sc \<Rightarrow> Some (map fst (bindings sc)))"

text \<open>
  The chain \<open>S0 \<rightarrow> S1 \<rightarrow> \<dots> \<rightarrow> Sn\<close> of a scope: the handles from \<open>a\<close> up to the global scope.
  \<open>Scope_chain h a = Some as\<close> says that the chain is finite and lists it.  This function is
  not in the source; the statements about \<open>Scope::set\<close> are phrased with it.
\<close>

partial_function (option) Scope_chain :: "heap \<Rightarrow> addr \<Rightarrow> addr list option" where
  "Scope_chain h a =
     (case scopeAt h a of
        None \<Rightarrow> None
      | Some sc \<Rightarrow>
          (case parent sc of
             None \<Rightarrow> Some [a]
           | Some p \<Rightarrow> Option.bind (Scope_chain h p) (\<lambda>as. Some (a # as))))"

definition binds :: "heap \<Rightarrow> u32 \<Rightarrow> addr \<Rightarrow> bool" where
  "binds h k a \<longleftrightarrow> (case scopeAt h a of Some sc \<Rightarrow> map_of (bindings sc) k \<noteq> None | None \<Rightarrow> False)"

text \<open>Writing \<open>k \<mapsto> v\<close> into the frame at \<open>a\<close>, every other object of the heap unchanged.\<close>

definition writeBinding :: "heap \<Rightarrow> addr \<Rightarrow> u32 \<Rightarrow> Value \<Rightarrow> heap" where
  "writeBinding h a k v =
     (case scopeAt h a of Some sc \<Rightarrow> bindIn h a sc k v | None \<Rightarrow> h)"

text \<open>
  The spec's words for \<open>set\<close>: the nearest frame of the chain that binds \<open>k\<close> is updated;
  if there is none, the binding is created in the first frame.
\<close>

definition set_spec :: "heap \<Rightarrow> addr list \<Rightarrow> u32 \<Rightarrow> Value \<Rightarrow> heap" where
  "set_spec h as k v =
     (case find (binds h k) as of
        Some b \<Rightarrow> writeBinding h b k v
      | None \<Rightarrow> writeBinding h (hd as) k v)"

declare Scope_lookup.simps [code] Scope_setLoop.simps [code] Scope_chain.simps [code]

subsection \<open>Scope: \<open>set\<close> and \<open>define\<close>\<close>

lemma Scope_chain_cases:
  assumes "Scope_chain h a = Some as"
  obtains sc where "scopeAt h a = Some sc" "parent sc = None" "as = [a]"
  | sc p as' where "scopeAt h a = Some sc" "parent sc = Some p"
      "Scope_chain h p = Some as'" "as = a # as'"
proof -
  from assms obtain sc where sc: "scopeAt h a = Some sc"
    by (subst (asm) Scope_chain.simps) (auto split: option.splits)
  show thesis
  proof (cases "parent sc")
    case None
    with assms sc have "as = [a]" by (subst (asm) Scope_chain.simps) simp
    with sc None that(1) show thesis by blast
  next
    case (Some p)
    with assms sc obtain as' where "Scope_chain h p = Some as'" "as = a # as'"
      by (subst (asm) Scope_chain.simps) (auto simp: bind_eq_Some_conv)
    with sc Some that(2) show thesis by blast
  qed
qed

lemma Scope_chain_hd: "Scope_chain h a = Some as \<Longrightarrow> as \<noteq> [] \<and> hd as = a"
  by (erule Scope_chain_cases) auto

lemma writeBinding_scope: "scopeAt h a = Some sc \<Longrightarrow> writeBinding h a k v = bindIn h a sc k v"
  by (simp add: writeBinding_def)

lemma Scope_setLoop_chain:
  "Scope_chain h a = Some as \<Longrightarrow>
   Scope_setLoop h (Some a) k v =
     Some (case find (binds h k) as of Some b \<Rightarrow> Some (writeBinding h b k v) | None \<Rightarrow> None)"
proof (induction as arbitrary: a)
  case Nil
  then show ?case using Scope_chain_hd by blast
next
  case (Cons x xs)
  from Cons.prems show ?case
  proof (cases rule: Scope_chain_cases)
    case (1 sc)
    show ?thesis
    proof (cases "map_of (bindings sc) k \<noteq> None")
      case True
      with 1 show ?thesis
        by (subst Scope_setLoop.simps) (auto simp: binds_def writeBinding_def)
    next
      case False
      have "Scope_setLoop h None k v = Some None" by (subst Scope_setLoop.simps) simp
      with False 1 show ?thesis
        by (subst Scope_setLoop.simps) (auto simp: binds_def)
    qed
  next
    case (2 sc p as')
    then have xs: "xs = as'" "x = a" by simp_all
    show ?thesis
    proof (cases "map_of (bindings sc) k \<noteq> None")
      case True
      with 2 show ?thesis
        by (subst Scope_setLoop.simps) (auto simp: binds_def writeBinding_def)
    next
      case False
      from Cons.IH [of p] 2 xs
      have "Scope_setLoop h (Some p) k v =
        Some (case find (binds h k) xs of Some b \<Rightarrow> Some (writeBinding h b k v) | None \<Rightarrow> None)"
        by simp
      with False 2 xs show ?thesis
        by (subst Scope_setLoop.simps) (auto simp: binds_def)
    qed
  qed
qed

lemma Scope_set_chain:
  assumes "Scope_chain h a = Some as"
  shows "Scope_set h a k v = Some (set_spec h as k v)"
proof -
  from assms obtain sc where sc: "scopeAt h a = Some sc"
    by (auto elim: Scope_chain_cases)
  from Scope_chain_hd [OF assms] have hd: "hd as = a" by simp
  show ?thesis
    using Scope_setLoop_chain [OF assms, of k v] sc hd
    by (auto simp: Scope_set_def set_spec_def writeBinding_def split: option.splits)
qed

lemma heapGet_update:
  "heapGet (h[a := x]) b = (if b = a \<and> a < length h then Some x else heapGet h b)"
  by (auto simp: heapGet_def)

lemma scopeAt_lt: "scopeAt h a = Some sc \<Longrightarrow> a < length h"
  by (auto simp: scopeAt_def heapGet_def split: if_splits)

lemma writeBinding_other: "b \<noteq> a \<Longrightarrow> heapGet (writeBinding h a k v) b = heapGet h b"
  by (auto simp: writeBinding_def bindIn_def heapGet_update split: option.splits)

lemma writeBinding_length [simp]: "length (writeBinding h a k v) = length h"
  by (auto simp: writeBinding_def bindIn_def split: option.splits)

lemma writeBinding_same:
  "scopeAt h a = Some sc \<Longrightarrow>
   scopeAt (writeBinding h a k v) a =
     Some (sc\<lparr>bindings := AList.update k v (bindings sc)\<rparr>)"
  by (frule scopeAt_lt) (simp add: writeBinding_def bindIn_def scopeAt_def heapGet_update)

definition set_target :: "heap \<Rightarrow> addr list \<Rightarrow> u32 \<Rightarrow> addr" where
  "set_target h as k = (case find (binds h k) as of Some b \<Rightarrow> b | None \<Rightarrow> hd as)"

lemma set_spec_target: "set_spec h as k v = writeBinding h (set_target h as k) k v"
  by (simp add: set_spec_def set_target_def split: option.splits)

lemma find_first:
  "find P xs = Some b \<Longrightarrow> \<exists>i < length xs. xs ! i = b \<and> P b \<and> (\<forall>j < i. \<not> P (xs ! j))"
  by (auto simp: find_Some_iff)

text \<open>
  C4.  Let \<open>as = [S0, S1, \<dots>, Sn]\<close> be the scope chain of \<open>S0 = a\<close>.
  \<open>Scope::set(k, v)\<close> on \<open>S0\<close> returns, and the frame \<open>t\<close> it writes is the first frame of
  the chain that binds \<open>k\<close>, or \<open>S0\<close> when no frame of the chain binds \<open>k\<close>; in the new heap
  that frame has the same parent and the bindings of before with \<open>k \<mapsto> v\<close>, and every other
  object of the heap (all other frames) is unchanged.  \<open>Scope::define(k, v)\<close> on \<open>S0\<close> always
  writes \<open>k \<mapsto> v\<close> into \<open>S0\<close> itself, whatever the ancestors bind, and changes nothing else.
\<close>

theorem Scope_set_define_contract:
  assumes "Scope_chain h a = Some as"
  shows "(\<exists>t h' sc. Scope_set h a k v = Some h' \<and> scopeAt h t = Some sc
           \<and> ((\<exists>i < length as. as ! i = t \<and> binds h k t \<and> (\<forall>j < i. \<not> binds h k (as ! j)))
              \<or> ((\<forall>b \<in> set as. \<not> binds h k b) \<and> t = a))
           \<and> scopeAt h' t = Some (sc\<lparr>bindings := AList.update k v (bindings sc)\<rparr>)
           \<and> map_of (AList.update k v (bindings sc)) = (map_of (bindings sc))(k \<mapsto> v)
           \<and> length h' = length h
           \<and> (\<forall>b. b \<noteq> t \<longrightarrow> heapGet h' b = heapGet h b))
       \<and> (\<exists>h' sc. Scope_define h a k v = Some h' \<and> scopeAt h a = Some sc
           \<and> scopeAt h' a = Some (sc\<lparr>bindings := AList.update k v (bindings sc)\<rparr>)
           \<and> map_of (AList.update k v (bindings sc)) = (map_of (bindings sc))(k \<mapsto> v)
           \<and> length h' = length h
           \<and> (\<forall>b. b \<noteq> a \<longrightarrow> heapGet h' b = heapGet h b))"
proof -
  from assms obtain sc0 where sc0: "scopeAt h a = Some sc0"
    by (auto elim: Scope_chain_cases)
  from Scope_chain_hd [OF assms] have hd: "hd as = a" "as \<noteq> []" by simp_all
  let ?t = "set_target h as k"
  let ?h' = "writeBinding h ?t k v"
  have set: "Scope_set h a k v = Some ?h'"
    using Scope_set_chain [OF assms] by (simp add: set_spec_target)
  have where_t: "(\<exists>i < length as. as ! i = ?t \<and> binds h k ?t \<and> (\<forall>j < i. \<not> binds h k (as ! j)))
              \<or> ((\<forall>b \<in> set as. \<not> binds h k b) \<and> ?t = a)"
  proof (cases "find (binds h k) as")
    case None
    then have "?t = a" using hd by (simp add: set_target_def)
    moreover have "\<forall>b \<in> set as. \<not> binds h k b" using None by (simp add: find_None_iff)
    ultimately show ?thesis by blast
  next
    case (Some b)
    from find_first [OF Some] Some show ?thesis by (auto simp: set_target_def)
  qed
  have "\<exists>sc. scopeAt h ?t = Some sc"
    using where_t sc0 by (auto simp: binds_def split: option.splits)
  then obtain sc where sc: "scopeAt h ?t = Some sc" by blast
  have part1: "\<exists>t h' sc. Scope_set h a k v = Some h' \<and> scopeAt h t = Some sc
           \<and> ((\<exists>i < length as. as ! i = t \<and> binds h k t \<and> (\<forall>j < i. \<not> binds h k (as ! j)))
              \<or> ((\<forall>b \<in> set as. \<not> binds h k b) \<and> t = a))
           \<and> scopeAt h' t = Some (sc\<lparr>bindings := AList.update k v (bindings sc)\<rparr>)
           \<and> map_of (AList.update k v (bindings sc)) = (map_of (bindings sc))(k \<mapsto> v)
           \<and> length h' = length h
           \<and> (\<forall>b. b \<noteq> t \<longrightarrow> heapGet h' b = heapGet h b)"
    using set sc where_t writeBinding_same [OF sc, of k v]
    by (intro exI [of _ ?t] exI [of _ ?h'] exI [of _ sc])
       (simp add: update_conv' writeBinding_other)
  have part2: "\<exists>h' sc. Scope_define h a k v = Some h' \<and> scopeAt h a = Some sc
           \<and> scopeAt h' a = Some (sc\<lparr>bindings := AList.update k v (bindings sc)\<rparr>)
           \<and> map_of (AList.update k v (bindings sc)) = (map_of (bindings sc))(k \<mapsto> v)
           \<and> length h' = length h
           \<and> (\<forall>b. b \<noteq> a \<longrightarrow> heapGet h' b = heapGet h b)"
    using sc0 writeBinding_same [OF sc0, of k v]
    by (intro exI [of _ "writeBinding h a k v"] exI [of _ sc0])
       (simp add: update_conv' writeBinding_other Scope_define_def
          writeBinding_scope [OF sc0, symmetric])
  from part1 part2 show ?thesis by (rule conjI)
qed

text \<open>
  A chain of three frames: the global scope binds symbol 7, its child and grandchild bind
  nothing.  \<open>set\<close> on the grandchild updates the global frame.
\<close>

definition heap3 :: heap where
  "heap3 = [OScope \<lparr>parent = None, bindings = [(7, VInt 10)]\<rparr>,
            OScope \<lparr>parent = Some 0, bindings = []\<rparr>,
            OScope \<lparr>parent = Some 1, bindings = []\<rparr>]"

lemma Scope_chain_heap3: "Scope_chain heap3 2 = Some [2, 1, 0]"
  by (simp add: Scope_chain.simps scopeAt_def heapGet_def heap3_def)

lemma Scope_set_heap3:
  "Scope_set heap3 2 7 (VInt 99) =
     Some [OScope \<lparr>parent = None, bindings = [(7, VInt 99)]\<rparr>,
           OScope \<lparr>parent = Some 0, bindings = []\<rparr>,
           OScope \<lparr>parent = Some 1, bindings = []\<rparr>]"
  by (simp add: Scope_set_def Scope_setLoop.simps scopeAt_def heapGet_def heap3_def bindIn_def)

lemma Scope_define_heap3:
  "Scope_define heap3 2 7 (VInt 99) =
     Some [OScope \<lparr>parent = None, bindings = [(7, VInt 10)]\<rparr>,
           OScope \<lparr>parent = Some 0, bindings = []\<rparr>,
           OScope \<lparr>parent = Some 1, bindings = [(7, VInt 99)]\<rparr>]"
  by (simp add: Scope_define_def scopeAt_def heapGet_def heap3_def bindIn_def)

theorem Scope_set_define_contract_witness:
  "Scope_chain heap3 2 = Some [2, 1, 0]
   \<and> (\<exists>t h' sc. Scope_set heap3 2 7 (VInt 99) = Some h' \<and> scopeAt heap3 t = Some sc
           \<and> ((\<exists>i < length [2, 1, 0 :: nat]. [2, 1, 0] ! i = t \<and> binds heap3 7 t
                 \<and> (\<forall>j < i. \<not> binds heap3 7 ([2, 1, 0] ! j)))
              \<or> ((\<forall>b \<in> set [2, 1, 0]. \<not> binds heap3 7 b) \<and> t = 2))
           \<and> scopeAt h' t = Some (sc\<lparr>bindings := AList.update 7 (VInt 99) (bindings sc)\<rparr>)
           \<and> map_of (AList.update 7 (VInt 99) (bindings sc)) = (map_of (bindings sc))(7 \<mapsto> VInt 99)
           \<and> length h' = length heap3
           \<and> (\<forall>b. b \<noteq> t \<longrightarrow> heapGet h' b = heapGet heap3 b))
   \<and> (\<exists>h' sc. Scope_define heap3 2 7 (VInt 99) = Some h' \<and> scopeAt heap3 2 = Some sc
           \<and> scopeAt h' 2 = Some (sc\<lparr>bindings := AList.update 7 (VInt 99) (bindings sc)\<rparr>)
           \<and> map_of (AList.update 7 (VInt 99) (bindings sc)) = (map_of (bindings sc))(7 \<mapsto> VInt 99)
           \<and> length h' = length heap3
           \<and> (\<forall>b. b \<noteq> 2 \<longrightarrow> heapGet h' b = heapGet heap3 b))"
  by (rule conjI [OF Scope_chain_heap3 Scope_set_define_contract [OF Scope_chain_heap3]])

section \<open>Evaluator (src/src/evaluator.cpp, src/src/script_engine.cpp)\<close>

subsection \<open>MapData\<close>

text \<open>
  The members of \<open>MapData\<close> on the map object at handle \<open>ma\<close>.  With a proxy the calls go to
  \<open>ScopeProxyMap\<close>: \<open>get\<close> and \<open>has\<close> look the key up through the scope chain, \<open>set\<close> defines
  it in the scope, \<open>remove\<close> is refused, \<open>keys\<close> are the local keys of the scope.  The method
  flags stay in the map object.  \<open>None\<close> is "no result" (a handle that is not a map, or a
  scope chain that does not end).
\<close>

definition MapData_get :: "heap \<Rightarrow> addr \<Rightarrow> u32 \<Rightarrow> Value option" where
  "MapData_get h ma k =
     (case mapAt h ma of
        None \<Rightarrow> None
      | Some m \<Rightarrow>
          (case proxy m of
             Some sa \<Rightarrow>
               (case Scope_lookup h sa k of
                  None \<Rightarrow> None
                | Some None \<Rightarrow> Some VNil
                | Some (Some v) \<Rightarrow> Some v)
           | None \<Rightarrow>
               (case map_of (entries m) k of
                  Some v \<Rightarrow> Some v
                | None \<Rightarrow> Some VNil)))"

definition MapData_set :: "heap \<Rightarrow> addr \<Rightarrow> u32 \<Rightarrow> Value \<Rightarrow> heap option" where
  "MapData_set h ma k v =
     (case mapAt h ma of
        None \<Rightarrow> None
      | Some m \<Rightarrow>
          (case proxy m of
             Some sa \<Rightarrow> Scope_define h sa k v
           | None \<Rightarrow> Some (h[ma := OMap (m\<lparr>entries := AList.update k v (entries m)\<rparr>)])))"

definition MapData_has :: "heap \<Rightarrow> addr \<Rightarrow> u32 \<Rightarrow> bool option" where
  "MapData_has h ma k =
     (case mapAt h ma of
        None \<Rightarrow> None
      | Some m \<Rightarrow>
          (case proxy m of
             Some sa \<Rightarrow>
               (case Scope_lookup h sa k of
                  None \<Rightarrow> None
                | Some r \<Rightarrow> Some (r \<noteq> None))
           | None \<Rightarrow> Some (map_of (entries m) k \<noteq> None)))"

definition MapData_remove :: "heap \<Rightarrow> addr \<Rightarrow> u32 \<Rightarrow> (bool \<times> heap) option" where
  "MapData_remove h ma k =
     (case mapAt h ma of
        None \<Rightarrow> None
      | Some m \<Rightarrow>
          (let m1 = m\<lparr>methodKeys := methodKeys m - {k}\<rparr> in
           case proxy m of
             Some sa \<Rightarrow> Some (False, h[ma := OMap m1])
           | None \<Rightarrow>
               Some (map_of (entries m) k \<noteq> None,
                     h[ma := OMap (m1\<lparr>entries := AList.delete k (entries m)\<rparr>)])))"

definition MapData_keys :: "heap \<Rightarrow> addr \<Rightarrow> u32 list option" where
  "MapData_keys h ma =
     (case mapAt h ma of
        None \<Rightarrow> None
      | Some m \<Rightarrow>
          (case proxy m of
             Some sa \<Rightarrow> Scope_localKeys h sa
           | None \<Rightarrow> Some (map fst (entries m))))"

definition MapData_markMethod :: "heap \<Rightarrow> addr \<Rightarrow> u32 \<Rightarrow> heap option" where
  "MapData_markMethod h ma k =
     (case mapAt h ma of
        None \<Rightarrow> None
      | Some m \<Rightarrow> Some (h[ma := OMap (m\<lparr>methodKeys := insert k (methodKeys m)\<rparr>)]))"

definition MapData_setMethod :: "heap \<Rightarrow> addr \<Rightarrow> u32 \<Rightarrow> Value \<Rightarrow> heap option" where
  "MapData_setMethod h ma k v =
     (case MapData_set h ma k v of
        None \<Rightarrow> None
      | Some h1 \<Rightarrow> MapData_markMethod h1 ma k)"

definition MapData_isMethod :: "heap \<Rightarrow> addr \<Rightarrow> u32 \<Rightarrow> bool option" where
  "MapData_isMethod h ma k =
     (case mapAt h ma of
        None \<Rightarrow> None
      | Some m \<Rightarrow> Some (k \<in> methodKeys m))"

subsection \<open>State, signals and results\<close>

text \<open>
  What an evaluation ends with instead of a value: the \<open>ReturnSignal\<close> of \<open>return\<close>, a
  \<open>ScriptError\<close> with its message (the source location is left out), \<open>NoResult\<close> when the
  evaluation does not return (the fuel of the model ran out, or a state the program cannot
  be in), and \<open>Unmodelled\<close> for what the model does not cover (floating-point operations,
  host functions, \<open>source\<close>, sorting, some string methods).
\<close>

datatype signal =
    ReturnSignal Value
  | ScriptError string
  | NoResult
  | Unmodelled

text \<open>
  The state the evaluator works on: the interner of the engine, the heap, and the
  \<open>ExecutionContext\<close> passed to \<open>eval\<close> (\<open>None\<close> is the null pointer), of which the scope
  and the list of event handlers are kept.
\<close>

record ExecutionContext =
  contextScope :: addr
  eventHandlers :: "(u32 \<times> Value) list"

record State =
  interner :: DefaultInterner
  heap :: heap
  ctx :: "ExecutionContext option"

type_synonym 'a res = "(signal + 'a) \<times> State"

text \<open>Sequencing: an exception of the first computation skips the second.\<close>

definition thenR :: "'a res \<Rightarrow> ('a \<Rightarrow> State \<Rightarrow> 'b res) \<Rightarrow> 'b res" where
  "thenR r f = (case r of (Inl e, st) \<Rightarrow> (Inl e, st) | (Inr a, st) \<Rightarrow> f a st)"

lemma thenR_Inl [simp]: "thenR (Inl e, st) f = (Inl e, st)"
  by (simp add: thenR_def)

lemma thenR_Inr [simp]: "thenR (Inr a, st) f = f a st"
  by (simp add: thenR_def)

text \<open>A heap operation that gives no result ends the evaluation with \<open>NoResult\<close>.\<close>

definition withHeap :: "heap option \<Rightarrow> State \<Rightarrow> (State \<Rightarrow> 'a res) \<Rightarrow> 'a res" where
  "withHeap r st f = (case r of None \<Rightarrow> (Inl NoResult, st) | Some h \<Rightarrow> f (st\<lparr>heap := h\<rparr>))"

definition orNoResult :: "'b option \<Rightarrow> State \<Rightarrow> ('b \<Rightarrow> 'a res) \<Rightarrow> 'a res" where
  "orNoResult r st f = (case r of None \<Rightarrow> (Inl NoResult, st) | Some x \<Rightarrow> f x)"

lemma withHeap_simps [simp]:
  "withHeap None st f = (Inl NoResult, st)"
  "withHeap (Some h) st f = f (st\<lparr>heap := h\<rparr>)"
  by (simp_all add: withHeap_def)

lemma orNoResult_simps [simp]:
  "orNoResult None st g = (Inl NoResult, st)"
  "orNoResult (Some x) st g = g x"
  by (simp_all add: orNoResult_def)

definition internS :: "string \<Rightarrow> State \<Rightarrow> u32 \<times> State" where
  "internS s st = (case intern (interner st) s of (i, I) \<Rightarrow> (i, st\<lparr>interner := I\<rparr>))"

text \<open>\<open>std::make_shared\<close>: a new object at a fresh handle.\<close>

definition newObj :: "HeapObj \<Rightarrow> State \<Rightarrow> addr \<times> State" where
  "newObj obj st = (length (heap st), st\<lparr>heap := heap st @ [obj]\<rparr>)"

definition Value_string :: "string \<Rightarrow> State \<Rightarrow> Value \<times> State" where
  "Value_string s st = (case newObj (OString s) st of (a, st1) \<Rightarrow> (VString a, st1))"

definition Value_array :: "Value list \<Rightarrow> State \<Rightarrow> Value \<times> State" where
  "Value_array xs st = (case newObj (OArray xs) st of (a, st1) \<Rightarrow> (VArray a, st1))"

definition Value_map :: "State \<Rightarrow> Value \<times> State" where
  "Value_map st =
     (case newObj (OMap \<lparr>proxy = None, entries = [], methodKeys = {}\<rparr>) st of
        (a, st1) \<Rightarrow> (VMap a, st1))"

definition Value_closure :: "Closure \<Rightarrow> State \<Rightarrow> Value \<times> State" where
  "Value_closure c st = (case newObj (OClosure c) st of (a, st1) \<Rightarrow> (VClosure a, st1))"

definition createChild :: "addr \<Rightarrow> State \<Rightarrow> addr \<times> State" where
  "createChild a st = newObj (OScope \<lparr>parent = Some a, bindings = []\<rparr>) st"

text \<open>The symbols the constructor of \<open>Evaluator\<close> interns (\<open>preInternSymbols\<close>), in its order.\<close>

record Evaluator =
  sym_get :: u32
  sym_set :: u32
  sym_has :: u32
  sym_remove :: u32
  sym_keys :: u32
  sym_values :: u32
  sym_length :: u32
  sym_push :: u32
  sym_pop :: u32
  sym_setMethod :: u32
  sym_slice :: u32
  sym_contains :: u32
  sym_sort :: u32
  sym_map :: u32
  sym_filter :: u32
  sym_foreach :: u32
  sym_insert :: u32
  sym_delete :: u32
  sym_replace :: u32
  sym_split :: u32
  sym_substr :: u32
  sym_find :: u32
  sym_upper :: u32
  sym_lower :: u32
  sym_trim :: u32
  sym_starts_with :: u32
  sym_ends_with :: u32
  sym_char_at :: u32
  sym_sort_by :: u32
  sym_self :: u32

definition preInternNames :: "string list" where
  "preInternNames =
     [''get'', ''set'', ''has'', ''remove'', ''keys'', ''values'', ''length'', ''push'', ''pop'',
      ''setMethod'', ''slice'', ''contains'', ''sort'', ''map'', ''filter'', ''foreach'',
      ''insert'', ''delete'', ''replace'', ''split'', ''substr'', ''find'', ''upper'', ''lower'',
      ''trim'', ''starts_with'', ''ends_with'', ''char_at'', ''sort_by'', ''self'']"

definition preInternSymbols :: "DefaultInterner \<Rightarrow> Evaluator \<times> DefaultInterner" where
  "preInternSymbols I =
     (case intern_all I preInternNames of
        (ids, I1) \<Rightarrow>
          (\<lparr>sym_get = ids ! 0, sym_set = ids ! 1, sym_has = ids ! 2, sym_remove = ids ! 3,
            sym_keys = ids ! 4, sym_values = ids ! 5, sym_length = ids ! 6, sym_push = ids ! 7,
            sym_pop = ids ! 8, sym_setMethod = ids ! 9, sym_slice = ids ! 10,
            sym_contains = ids ! 11, sym_sort = ids ! 12, sym_map = ids ! 13,
            sym_filter = ids ! 14, sym_foreach = ids ! 15, sym_insert = ids ! 16,
            sym_delete = ids ! 17, sym_replace = ids ! 18, sym_split = ids ! 19,
            sym_substr = ids ! 20, sym_find = ids ! 21, sym_upper = ids ! 22,
            sym_lower = ids ! 23, sym_trim = ids ! 24, sym_starts_with = ids ! 25,
            sym_ends_with = ids ! 26, sym_char_at = ids ! 27, sym_sort_by = ids ! 28,
            sym_self = ids ! 29\<rparr>, I1))"

text \<open>\<open>isAutoMethod\<close>: a closure whose first parameter is the symbol \<open>self\<close>.\<close>

definition isAutoMethod :: "Evaluator \<Rightarrow> heap \<Rightarrow> Value \<Rightarrow> bool" where
  "isAutoMethod E h v =
     (case v of
        VClosure a \<Rightarrow>
          (case closureAt h a of
             Some c \<Rightarrow> paramIds c \<noteq> [] \<and> hd (paramIds c) = sym_self E
           | None \<Rightarrow> False)
      | _ \<Rightarrow> False)"

definition isBuiltinMapMethod :: "Evaluator \<Rightarrow> u32 \<Rightarrow> bool" where
  "isBuiltinMapMethod E s \<longleftrightarrow>
     s = sym_get E \<or> s = sym_set E \<or> s = sym_has E \<or> s = sym_remove E \<or> s = sym_keys E
     \<or> s = sym_values E \<or> s = sym_setMethod E"

definition isBuiltinArrayMethod :: "Evaluator \<Rightarrow> u32 \<Rightarrow> bool" where
  "isBuiltinArrayMethod E s \<longleftrightarrow>
     s = sym_length E \<or> s = sym_push E \<or> s = sym_pop E \<or> s = sym_get E \<or> s = sym_set E
     \<or> s = sym_slice E \<or> s = sym_contains E \<or> s = sym_sort E \<or> s = sym_sort_by E
     \<or> s = sym_map E \<or> s = sym_filter E \<or> s = sym_foreach E"

definition isBuiltinStringMethod :: "Evaluator \<Rightarrow> u32 \<Rightarrow> bool" where
  "isBuiltinStringMethod E s \<longleftrightarrow>
     s = sym_length E \<or> s = sym_get E \<or> s = sym_set E \<or> s = sym_char_at E
     \<or> s = sym_insert E \<or> s = sym_delete E \<or> s = sym_replace E \<or> s = sym_find E
     \<or> s = sym_contains E \<or> s = sym_substr E \<or> s = sym_slice E \<or> s = sym_split E
     \<or> s = sym_upper E \<or> s = sym_lower E \<or> s = sym_trim E \<or> s = sym_starts_with E
     \<or> s = sym_ends_with E \<or> s = sym_push E"

text \<open>\<open>std::to_string\<close> of an integer.\<close>

fun digits :: "nat \<Rightarrow> string" where
  "digits n = (if n < 10 then [char_of (48 + n)]
               else digits (n div 10) @ [char_of (48 + n mod 10)])"

declare digits.simps [simp del]

definition to_string :: "int \<Rightarrow> string" where
  "to_string i = (if i < 0 then CHR ''-'' # digits (nat (- i)) else digits (nat i))"

text \<open>
  An index as arrays and strings take it: a negative one counts from the end; \<open>None\<close> when
  it is out of range after that.  (\<open>idx\<close> is the \<open>int64_t\<close>, \<open>n\<close> the size.)
\<close>

definition wrapIndex :: "i64 \<Rightarrow> nat \<Rightarrow> nat option" where
  "wrapIndex idx n =
     (let i = (if sint idx < 0 then sint idx + int n else sint idx)
      in if i < 0 \<or> i \<ge> int n then None else Some (nat i))"

subsection \<open>Value equality and binary operators\<close>

text \<open>
  \<open>Value::operator==\<close>.  Values of different types are unequal; arrays are compared
  element by element, which recurses (the fuel \<open>n\<close> bounds the depth: an array that contains
  itself makes the source recurse without end); maps, closures and native functions are
  compared by handle.  Equality of two floats is not modelled.
\<close>

primrec listEq :: "(Value \<Rightarrow> Value \<Rightarrow> signal + bool) \<Rightarrow> Value list \<Rightarrow> Value list \<Rightarrow> signal + bool" where
  "listEq eq [] ys = Inr True"
| "listEq eq (x # xs) ys =
     (case ys of
        [] \<Rightarrow> Inr True
      | y # ys' \<Rightarrow>
          (case eq x y of
             Inl e \<Rightarrow> Inl e
           | Inr False \<Rightarrow> Inr False
           | Inr True \<Rightarrow> listEq eq xs ys'))"

primrec valueEq :: "nat \<Rightarrow> heap \<Rightarrow> Value \<Rightarrow> Value \<Rightarrow> signal + bool" where
  "valueEq 0 h a b = Inl NoResult"
| "valueEq (Suc n) h a b =
     (case (a, b) of
        (VNil, VNil) \<Rightarrow> Inr True
      | (VBool x, VBool y) \<Rightarrow> Inr (x = y)
      | (VInt x, VInt y) \<Rightarrow> Inr (x = y)
      | (VFloat x, VFloat y) \<Rightarrow> Inl Unmodelled
      | (VSymbol x, VSymbol y) \<Rightarrow> Inr (x = y)
      | (VString x, VString y) \<Rightarrow>
          (case (stringAt h x, stringAt h y) of
             (Some s, Some t) \<Rightarrow> Inr (s = t)
           | _ \<Rightarrow> Inl NoResult)
      | (VArray x, VArray y) \<Rightarrow>
          (case (arrayAt h x, arrayAt h y) of
             (Some xs, Some ys) \<Rightarrow>
               (if length xs \<noteq> length ys then Inr False else listEq (valueEq n h) xs ys)
           | _ \<Rightarrow> Inl NoResult)
      | (VMap x, VMap y) \<Rightarrow> Inr (x = y)
      | (VClosure x, VClosure y) \<Rightarrow> Inr (x = y)
      | (VNativeFunction x, VNativeFunction y) \<Rightarrow> Inr (x = y)
      | _ \<Rightarrow> Inr False)"

text \<open>C++ integer division and remainder truncate towards zero.\<close>

definition truncDiv :: "int \<Rightarrow> int \<Rightarrow> int" where
  "truncDiv a b = (if (a < 0) = (b < 0) then \<bar>a\<bar> div \<bar>b\<bar> else - (\<bar>a\<bar> div \<bar>b\<bar>))"

definition truncMod :: "int \<Rightarrow> int \<Rightarrow> int" where
  "truncMod a b = a - b * truncDiv a b"

text \<open>\<open>std::string::operator<\<close>: lexicographic on the bytes.\<close>

fun strLess :: "string \<Rightarrow> string \<Rightarrow> bool" where
  "strLess [] [] = False"
| "strLess [] (y # ys) = True"
| "strLess (x # xs) [] = False"
| "strLess (x # xs) (y # ys) =
     ((of_char x :: nat) < of_char y \<or> (x = y \<and> strLess xs ys))"

text \<open>
  An \<open>int64_t\<close> converts to a double without rounding when its magnitude is at most
  \<open>2 ^ 53\<close>; the numeric comparisons (made on doubles) are modelled for such operands only.
\<close>

definition exactDouble :: "i64 \<Rightarrow> bool" where
  "exactDouble x \<longleftrightarrow> \<bar>sint x\<bar> \<le> 2 ^ 53"

definition intCompare :: "string \<Rightarrow> i64 \<Rightarrow> i64 \<Rightarrow> bool option" where
  "intCompare op x y =
     (if op = ''<'' then Some (sint x < sint y)
      else if op = ''>'' then Some (sint x > sint y)
      else if op = ''<='' then Some (sint x \<le> sint y)
      else if op = ''>='' then Some (sint x \<ge> sint y)
      else None)"

definition strCompare :: "string \<Rightarrow> string \<Rightarrow> string \<Rightarrow> bool option" where
  "strCompare op s t =
     (if op = ''<'' then Some (strLess s t)
      else if op = ''>'' then Some (strLess t s)
      else if op = ''<='' then Some (\<not> strLess t s)
      else if op = ''>='' then Some (\<not> strLess s t)
      else None)"

definition cannotApply :: "string \<Rightarrow> Value \<Rightarrow> Value \<Rightarrow> signal" where
  "cannotApply op l r =
     ScriptError (''Cannot apply '' @ [CHR 0x27] @ op @ [CHR 0x27] @ '' to '' @ typeName l
                  @ '' and '' @ typeName r)"

text \<open>
  \<open>applyBinOp\<close>.  Integer arithmetic wraps around (two's complement).  Not modelled:
  every operation with a float operand, \<open>%\<close> with a string on the left (printf-style
  formatting), a closed range up to \<open>INT64_MAX\<close>, and \<open>INT64_MIN\<close> divided by \<open>-1\<close>.
\<close>

definition intArith :: "string \<Rightarrow> i64 \<Rightarrow> i64 \<Rightarrow> Value \<Rightarrow> Value \<Rightarrow> State \<Rightarrow> Value res" where
  "intArith op x y l r st =
     (if op = ''+'' then (Inr (VInt (x + y)), st)
      else if op = ''-'' then (Inr (VInt (x - y)), st)
      else if op = ''*'' then (Inr (VInt (x * y)), st)
      else if op = ''/'' then
        (if y = 0 then (Inl (ScriptError ''Division by zero''), st)
         else if sint x = - (2 ^ 63) \<and> sint y = - 1 then (Inl Unmodelled, st)
         else (Inr (VInt (of_int (truncDiv (sint x) (sint y)))), st))
      else if op = ''%'' then
        (if y = 0 then (Inl (ScriptError ''Modulo by zero''), st)
         else if sint x = - (2 ^ 63) \<and> sint y = - 1 then (Inl Unmodelled, st)
         else (Inr (VInt (of_int (truncMod (sint x) (sint y)))), st))
      else (case intCompare op x y of
              Some b \<Rightarrow> (if exactDouble x \<and> exactDouble y then (Inr (VBool b), st)
                         else (Inl Unmodelled, st))
            | None \<Rightarrow> (Inl (cannotApply op l r), st)))"

definition isNumeric :: "Value \<Rightarrow> bool" where
  "isNumeric v \<longleftrightarrow> (case v of VInt _ \<Rightarrow> True | VFloat _ \<Rightarrow> True | _ \<Rightarrow> False)"

definition rangeValues :: "int \<Rightarrow> int \<Rightarrow> Value list" where
  "rangeValues lo hi = map (\<lambda>i. VInt (of_int i)) [lo .. hi - 1]"

definition applyBinOp :: "nat \<Rightarrow> string \<Rightarrow> Value \<Rightarrow> Value \<Rightarrow> State \<Rightarrow> Value res" where
  "applyBinOp n op l r st =
     (if op = ''..'' then
        (case (l, r) of
           (VInt x, VInt y) \<Rightarrow>
             (case Value_array (rangeValues (sint x) (sint y)) st of (v, st1) \<Rightarrow> (Inr v, st1))
         | _ \<Rightarrow> (Inl (ScriptError ''Range operands must be integers''), st))
      else if op = ''..='' then
        (case (l, r) of
           (VInt x, VInt y) \<Rightarrow>
             (if sint y = 2 ^ 63 - 1 then (Inl Unmodelled, st)
              else (case Value_array (rangeValues (sint x) (sint y + 1)) st of
                      (v, st1) \<Rightarrow> (Inr v, st1)))
         | _ \<Rightarrow> (Inl (ScriptError ''Range operands must be integers''), st))
      else if op = ''=='' then
        (case valueEq n (heap st) l r of Inl e \<Rightarrow> (Inl e, st) | Inr b \<Rightarrow> (Inr (VBool b), st))
      else if op = ''!='' then
        (case valueEq n (heap st) l r of Inl e \<Rightarrow> (Inl e, st) | Inr b \<Rightarrow> (Inr (VBool (\<not> b)), st))
      else
        (case (l, r) of
           (VString x, VString y) \<Rightarrow>
             (case (stringAt (heap st) x, stringAt (heap st) y) of
                (Some s, Some t) \<Rightarrow>
                  (if op = ''+'' then
                     (case Value_string (s @ t) st of (v, st1) \<Rightarrow> (Inr v, st1))
                   else if op = ''%'' then (Inl Unmodelled, st)
                   else (case strCompare op s t of
                           Some b \<Rightarrow> (Inr (VBool b), st)
                         | None \<Rightarrow> (Inl (cannotApply op l r), st)))
              | _ \<Rightarrow> (Inl NoResult, st))
         | (VArray x, VArray y) \<Rightarrow>
             (case (arrayAt (heap st) x, arrayAt (heap st) y) of
                (Some xs, Some ys) \<Rightarrow>
                  (if op = ''+'' then
                     (case Value_array (xs @ ys) st of (v, st1) \<Rightarrow> (Inr v, st1))
                   else (Inl (cannotApply op l r), st))
              | _ \<Rightarrow> (Inl NoResult, st))
         | (VInt x, VInt y) \<Rightarrow> intArith op x y l r st
         | _ \<Rightarrow>
             (case l of
                VString x \<Rightarrow>
                  (if op = ''%'' then (Inl Unmodelled, st) else (Inl (cannotApply op l r), st))
              | _ \<Rightarrow>
                  (if isNumeric l \<and> isNumeric r then (Inl Unmodelled, st)
                   else (Inl (cannotApply op l r), st)))))"

subsection \<open>The node evaluators\<close>

text \<open>
  In every function below the first argument \<open>ev\<close> is the recursive call
  \<open>Evaluator::eval(node, scope, ctx)\<close>; the functions are tied together by \<open>eval\<close> at the end
  of this section.  \<open>E\<close> holds the pre-interned symbols.
\<close>

type_synonym evalT = "AstNode \<Rightarrow> addr \<Rightarrow> State \<Rightarrow> Value res"

primrec evalList :: "evalT \<Rightarrow> AstNode list \<Rightarrow> addr \<Rightarrow> State \<Rightarrow> (Value list) res" where
  "evalList ev [] sc st = (Inr [], st)"
| "evalList ev (x # xs) sc st =
     thenR (ev x sc st) (\<lambda>v st1.
     thenR (evalList ev xs sc st1) (\<lambda>vs st2. (Inr (v # vs), st2)))"

definition evalArrayLit :: "evalT \<Rightarrow> AstNode list \<Rightarrow> addr \<Rightarrow> State \<Rightarrow> Value res" where
  "evalArrayLit ev children sc st =
     thenR (evalList ev children sc st) (\<lambda>elems st1.
       case Value_array elems st1 of (v, st2) \<Rightarrow> (Inr v, st2))"

text \<open>\<open>evalName\<close>: an unbound name is nil.\<close>

definition evalName :: "string \<Rightarrow> addr \<Rightarrow> State \<Rightarrow> Value res" where
  "evalName nm sc st =
     (case internS nm st of
        (sy, st1) \<Rightarrow>
          (case Scope_lookup (heap st1) sc sy of
             None \<Rightarrow> (Inl NoResult, st1)
           | Some (Some v) \<Rightarrow> (Inr v, st1)
           | Some None \<Rightarrow> (Inr VNil, st1)))"

primrec getAll :: "heap \<Rightarrow> addr \<Rightarrow> u32 list \<Rightarrow> Value list option" where
  "getAll h ma [] = Some []"
| "getAll h ma (k # ks) =
     (case MapData_get h ma k of
        None \<Rightarrow> None
      | Some v \<Rightarrow> (case getAll h ma ks of None \<Rightarrow> None | Some vs \<Rightarrow> Some (v # vs)))"

definition mapKeysArray :: "addr \<Rightarrow> State \<Rightarrow> Value res" where
  "mapKeysArray ma st =
     orNoResult (MapData_keys (heap st) ma) st (\<lambda>ks.
       case Value_array (map VSymbol ks) st of (v, st1) \<Rightarrow> (Inr v, st1))"

definition mapValuesArray :: "addr \<Rightarrow> State \<Rightarrow> Value res" where
  "mapValuesArray ma st =
     orNoResult (MapData_keys (heap st) ma) st (\<lambda>ks.
     orNoResult (getAll (heap st) ma ks) st (\<lambda>vs.
       case Value_array vs st of (v, st1) \<Rightarrow> (Inr v, st1)))"

definition arrayPop :: "addr \<Rightarrow> State \<Rightarrow> Value res" where
  "arrayPop a st =
     orNoResult (arrayAt (heap st) a) st (\<lambda>arr.
       if arr = [] then (Inl (ScriptError ''Cannot pop from empty array''), st)
       else (Inr (last arr), st\<lparr>heap := (heap st)[a := OArray (butlast arr)]\<rparr>))"

definition cannotAccessField :: "string \<Rightarrow> string \<Rightarrow> signal" where
  "cannotAccessField field ty =
     ScriptError (''Cannot access field '' @ [CHR 0x27] @ field @ [CHR 0x27] @ '' on '' @ ty)"

text \<open>One step of the field loop of \<open>evalDottedName\<close>.\<close>

definition fieldStep :: "Evaluator \<Rightarrow> string \<Rightarrow> Value \<Rightarrow> State \<Rightarrow> Value res" where
  "fieldStep E field cur st =
     (case internS field st of
        (sy, st1) \<Rightarrow>
          (case cur of
             VMap ma \<Rightarrow>
               (if sy = sym_keys E then mapKeysArray ma st1
                else if sy = sym_values E then mapValuesArray ma st1
                else orNoResult (MapData_get (heap st1) ma sy) st1 (\<lambda>v. (Inr v, st1)))
           | VArray a \<Rightarrow>
               (if sy = sym_length E then
                  orNoResult (arrayAt (heap st1) a) st1 (\<lambda>arr. (Inr (VInt (of_nat (length arr))), st1))
                else if sy = sym_pop E then arrayPop a st1
                else (Inl (cannotAccessField field ''array''), st1))
           | VString a \<Rightarrow>
               (if sy = sym_length E then
                  orNoResult (stringAt (heap st1) a) st1 (\<lambda>s. (Inr (VInt (of_nat (length s))), st1))
                else (Inl (cannotAccessField field ''string''), st1))
           | _ \<Rightarrow> (Inl (cannotAccessField field (typeName cur)), st1)))"

primrec walkFields :: "Evaluator \<Rightarrow> string list \<Rightarrow> Value \<Rightarrow> State \<Rightarrow> Value res" where
  "walkFields E [] cur st = (Inr cur, st)"
| "walkFields E (f # fs) cur st =
     thenR (fieldStep E f cur st) (\<lambda>c st1. walkFields E fs c st1)"

definition evalDottedName ::
    "evalT \<Rightarrow> Evaluator \<Rightarrow> AstNode \<Rightarrow> string list \<Rightarrow> addr \<Rightarrow> State \<Rightarrow> Value res" where
  "evalDottedName ev E base flds sc st =
     thenR (ev base sc st) (\<lambda>cur st1. walkFields E flds cur st1)"

text \<open>
  \<open>evalInfix\<close>: \<open>and\<close>, \<open>or\<close>, \<open>??\<close> and \<open>?:\<close> evaluate the right operand only when the
  left one does not decide; every other operator evaluates both and applies \<open>applyBinOp\<close>.
\<close>

definition evalInfix ::
    "nat \<Rightarrow> evalT \<Rightarrow> string \<Rightarrow> AstNode \<Rightarrow> AstNode \<Rightarrow> addr \<Rightarrow> State \<Rightarrow> Value res" where
  "evalInfix n ev op l r sc st =
     (if op = ''and'' then
        thenR (ev l sc st) (\<lambda>left st1.
          if \<not> truthy left then (Inr left, st1) else ev r sc st1)
      else if op = ''or'' then
        thenR (ev l sc st) (\<lambda>left st1.
          if truthy left then (Inr left, st1) else ev r sc st1)
      else if op = ''??'' then
        thenR (ev l sc st) (\<lambda>left st1.
          if \<not> isNil left then (Inr left, st1) else ev r sc st1)
      else if op = ''?:'' then
        thenR (ev l sc st) (\<lambda>left st1.
          if truthy left then (Inr left, st1) else ev r sc st1)
      else
        thenR (ev l sc st) (\<lambda>left st1.
        thenR (ev r sc st1) (\<lambda>right st2.
          applyBinOp n op left right st2)))"

definition evalUnaryNot :: "evalT \<Rightarrow> AstNode \<Rightarrow> addr \<Rightarrow> State \<Rightarrow> Value res" where
  "evalUnaryNot ev x sc st =
     thenR (ev x sc st) (\<lambda>v st1. (Inr (VBool (\<not> truthy v)), st1))"

text \<open>\<open>evalUnaryNegate\<close>; the negation of an integer wraps around, that of a float is not modelled.\<close>

definition evalUnaryNegate :: "evalT \<Rightarrow> AstNode \<Rightarrow> addr \<Rightarrow> State \<Rightarrow> Value res" where
  "evalUnaryNegate ev x sc st =
     thenR (ev x sc st) (\<lambda>v st1.
       case v of
         VInt i \<Rightarrow> (Inr (VInt (- i)), st1)
       | VFloat f \<Rightarrow> (Inl Unmodelled, st1)
       | _ \<Rightarrow> (Inl (ScriptError (''Cannot negate '' @ typeName v)), st1))"

primrec evalBlockFrom :: "evalT \<Rightarrow> Value \<Rightarrow> AstNode list \<Rightarrow> addr \<Rightarrow> State \<Rightarrow> Value res" where
  "evalBlockFrom ev result [] sc st = (Inr result, st)"
| "evalBlockFrom ev result (x # xs) sc st =
     thenR (ev x sc st) (\<lambda>v st1. evalBlockFrom ev v xs sc st1)"

definition evalBlock :: "evalT \<Rightarrow> AstNode list \<Rightarrow> addr \<Rightarrow> State \<Rightarrow> Value res" where
  "evalBlock ev children sc st = evalBlockFrom ev VNil children sc st"

text \<open>
  \<open>evalIndex\<close>, after both operands are evaluated.  The message of an index out of bounds
  ends with the index as written.
\<close>

definition indexValues :: "Value \<Rightarrow> Value \<Rightarrow> State \<Rightarrow> Value res" where
  "indexValues target idx st =
     (case target of
        VArray a \<Rightarrow>
          (case idx of
             VInt i \<Rightarrow>
               orNoResult (arrayAt (heap st) a) st (\<lambda>arr.
                 case wrapIndex i (length arr) of
                   None \<Rightarrow> (Inl (ScriptError (''Array index out of bounds: '' @ to_string (sint i))), st)
                 | Some j \<Rightarrow> (Inr (arr ! j), st))
           | _ \<Rightarrow> (Inl (ScriptError ''Array index must be an integer''), st))
      | VString a \<Rightarrow>
          (case idx of
             VInt i \<Rightarrow>
               orNoResult (stringAt (heap st) a) st (\<lambda>s.
                 case wrapIndex i (length s) of
                   None \<Rightarrow> (Inl (ScriptError (''String index out of bounds: '' @ to_string (sint i))), st)
                 | Some j \<Rightarrow> (case Value_string [s ! j] st of (v, st1) \<Rightarrow> (Inr v, st1)))
           | _ \<Rightarrow> (Inl (ScriptError ''String index must be an integer''), st))
      | VMap ma \<Rightarrow>
          (case idx of
             VSymbol k \<Rightarrow> orNoResult (MapData_get (heap st) ma k) st (\<lambda>v. (Inr v, st))
           | _ \<Rightarrow> (Inl (ScriptError ''Map key must be a symbol''), st))
      | _ \<Rightarrow> (Inl (ScriptError (''Cannot index '' @ typeName target)), st))"

definition evalIndex :: "evalT \<Rightarrow> AstNode \<Rightarrow> AstNode \<Rightarrow> addr \<Rightarrow> State \<Rightarrow> Value res" where
  "evalIndex ev t i sc st =
     thenR (ev t sc st) (\<lambda>target st1.
     thenR (ev i sc st1) (\<lambda>idx st2. indexValues target idx st2))"

text \<open>
  The store into a map followed by the method check, as \<open>evalMapLit\<close>, \<open>evalSet\<close> and the
  built-in \<open>map.set\<close> each write it:
  \<open>map.set(key, val); if (isAutoMethod(val)) map.markMethod(key);\<close>
\<close>

definition storeAuto :: "Evaluator \<Rightarrow> addr \<Rightarrow> u32 \<Rightarrow> Value \<Rightarrow> State \<Rightarrow> unit res" where
  "storeAuto E ma k v st =
     withHeap (MapData_set (heap st) ma k v) st (\<lambda>st1.
       if isAutoMethod E (heap st1) v
       then withHeap (MapData_markMethod (heap st1) ma k) st1 (\<lambda>st2. (Inr (), st2))
       else (Inr (), st1))"

primrec mapLitLoop ::
    "evalT \<Rightarrow> Evaluator \<Rightarrow> addr \<Rightarrow> (string \<times> AstNode) list \<Rightarrow> addr \<Rightarrow> State \<Rightarrow> unit res" where
  "mapLitLoop ev E ma [] sc st = (Inr (), st)"
| "mapLitLoop ev E ma (kv # kvs) sc st =
     (case internS (fst kv) st of
        (sy, st1) \<Rightarrow>
          thenR (ev (snd kv) sc st1) (\<lambda>val st2.
          thenR (storeAuto E ma sy val st2) (\<lambda>u st3. mapLitLoop ev E ma kvs sc st3)))"

definition evalMapLit ::
    "evalT \<Rightarrow> Evaluator \<Rightarrow> (string \<times> AstNode) list \<Rightarrow> addr \<Rightarrow> State \<Rightarrow> Value res" where
  "evalMapLit ev E kvs sc st =
     (case Value_map st of
        (mapVal, st1) \<Rightarrow>
          (case mapVal of
             VMap ma \<Rightarrow> thenR (mapLitLoop ev E ma kvs sc st1) (\<lambda>u st2. (Inr mapVal, st2))
           | _ \<Rightarrow> (Inl NoResult, st1)))"

text \<open>The walk of \<open>evalSet\<close> from the root to the map that holds the last field.\<close>

primrec setWalk :: "string list \<Rightarrow> Value \<Rightarrow> State \<Rightarrow> Value res" where
  "setWalk [] cur st = (Inr cur, st)"
| "setWalk (f # fs) cur st =
     (case cur of
        VMap ma \<Rightarrow>
          (case internS f st of
             (sy, st1) \<Rightarrow>
               orNoResult (MapData_get (heap st1) ma sy) st1 (\<lambda>v. setWalk fs v st1))
      | _ \<Rightarrow> (Inl (cannotAccessField f (typeName cur)), st))"

definition evalSet ::
    "evalT \<Rightarrow> Evaluator \<Rightarrow> string list \<Rightarrow> AstNode \<Rightarrow> addr \<Rightarrow> State \<Rightarrow> Value res" where
  "evalSet ev E nameParts rhs sc st =
     thenR (ev rhs sc st) (\<lambda>val st1.
       case nameParts of
         [] \<Rightarrow> (Inl NoResult, st1)
       | [nm] \<Rightarrow>
           (case internS nm st1 of
              (sy, st2) \<Rightarrow>
                withHeap (Scope_set (heap st2) sc sy val) st2 (\<lambda>st3. (Inr val, st3)))
       | root # rest \<Rightarrow>
           (case internS root st1 of
              (rootSym, st2) \<Rightarrow>
                (case Scope_lookup (heap st2) sc rootSym of
                   None \<Rightarrow> (Inl NoResult, st2)
                 | Some None \<Rightarrow>
                     (Inl (ScriptError (''Undefined variable '' @ [CHR 0x27] @ root @ [CHR 0x27])), st2)
                 | Some (Some rootVal) \<Rightarrow>
                     thenR (setWalk (butlast rest) rootVal st2) (\<lambda>cur st3.
                       case cur of
                         VMap ma \<Rightarrow>
                           (case internS (last rest) st3 of
                              (lastSym, st4) \<Rightarrow>
                                thenR (storeAuto E ma lastSym val st4) (\<lambda>u st5. (Inr val, st5)))
                       | _ \<Rightarrow> (Inl (ScriptError (''Cannot set field on '' @ typeName cur)), st3)))))"

definition evalLet :: "evalT \<Rightarrow> string \<Rightarrow> AstNode \<Rightarrow> addr \<Rightarrow> State \<Rightarrow> Value res" where
  "evalLet ev nm rhs sc st =
     thenR (ev rhs sc st) (\<lambda>val st1.
       case internS nm st1 of
         (sy, st2) \<Rightarrow>
           withHeap (Scope_define (heap st2) sc sy val) st2 (\<lambda>st3. (Inr val, st3)))"

definition internAllS :: "string list \<Rightarrow> State \<Rightarrow> u32 list \<times> State" where
  "internAllS ss st = (case intern_all (interner st) ss of (ids, I) \<Rightarrow> (ids, st\<lparr>interner := I\<rparr>))"

text \<open>
  \<open>evalFn\<close>.  \<open>op\<close> is empty, or the rest name alone, or \<open>rest|kwargs\<close> with either part
  possibly empty.  A parameter id that is not set is 0.
\<close>

definition evalFn ::
    "string \<Rightarrow> string list \<Rightarrow> nat \<Rightarrow> AstNode \<Rightarrow> AstNode list \<Rightarrow> string \<Rightarrow> addr \<Rightarrow> State
     \<Rightarrow> Value res" where
  "evalFn nm params nreq bdy defaults op sc st =
     (case internAllS params st of
        (pids, st1) \<Rightarrow>
          (let hasPipe = (CHR ''|'' \<in> set op);
               restName = (if hasPipe then takeWhile (\<lambda>c. c \<noteq> CHR ''|'') op else op);
               kwargsName = (if hasPipe then tl (dropWhile (\<lambda>c. c \<noteq> CHR ''|'') op) else []);
               hasRest = (op \<noteq> [] \<and> restName \<noteq> []);
               hasKw = (op \<noteq> [] \<and> kwargsName \<noteq> [])
           in case (if hasRest then internS restName st1 else (0, st1)) of
                (restId, st2) \<Rightarrow>
                  (case (if hasKw then internS kwargsName st2 else (0, st2)) of
                     (kwId, st3) \<Rightarrow>
                       (case Value_closure
                               \<lparr>paramIds = pids, numRequired = nreq, defaultExprs = defaults,
                                body = bdy, capturedScope = sc, name = nm,
                                hasRestParam = hasRest, restParamId = restId,
                                hasKwargsParam = hasKw, kwargsParamId = kwId\<rparr> st3 of
                          (closureVal, st4) \<Rightarrow>
                            (if nm \<noteq> [] then
                               (case internS nm st4 of
                                  (nameSym, st5) \<Rightarrow>
                                    withHeap (Scope_define (heap st5) sc nameSym closureVal) st5
                                      (\<lambda>st6. (Inr closureVal, st6)))
                             else (Inr closureVal, st4))))))"

primrec ifLoop ::
    "evalT \<Rightarrow> (AstNode \<times> AstNode) list \<Rightarrow> AstNode option \<Rightarrow> addr \<Rightarrow> State \<Rightarrow> Value res" where
  "ifLoop ev [] els sc st =
     (case els of Some e \<Rightarrow> ev e sc st | None \<Rightarrow> (Inr VNil, st))"
| "ifLoop ev (cb # rest) els sc st =
     thenR (ev (fst cb) sc st) (\<lambda>cond st1.
       if truthy cond then ev (snd cb) sc st1 else ifLoop ev rest els sc st1)"

text \<open>
  \<open>evalFor\<close>.  One child scope is created before the loop; each iteration defines the loop
  variable in it again and evaluates the body in it.  The elements are those the array
  holds when the loop starts.
\<close>

primrec forLoop ::
    "evalT \<Rightarrow> u32 \<Rightarrow> AstNode \<Rightarrow> addr \<Rightarrow> Value \<Rightarrow> Value list \<Rightarrow> State \<Rightarrow> Value res" where
  "forLoop ev varSym bdy loopScope result [] st = (Inr result, st)"
| "forLoop ev varSym bdy loopScope result (elem # elems) st =
     withHeap (Scope_define (heap st) loopScope varSym elem) st (\<lambda>st1.
     thenR (ev bdy loopScope st1) (\<lambda>r st2. forLoop ev varSym bdy loopScope r elems st2))"

definition evalFor ::
    "evalT \<Rightarrow> string \<Rightarrow> AstNode \<Rightarrow> AstNode \<Rightarrow> addr \<Rightarrow> State \<Rightarrow> Value res" where
  "evalFor ev var iter bdy sc st =
     (case internS var st of
        (varSym, st1) \<Rightarrow>
          thenR (ev iter sc st1) (\<lambda>iterable st2.
            case createChild sc st2 of
              (loopScope, st3) \<Rightarrow>
                withHeap (Scope_define (heap st3) loopScope varSym VNil) st3 (\<lambda>st4.
                  case iterable of
                    VArray a \<Rightarrow>
                      orNoResult (arrayAt (heap st4) a) st4 (\<lambda>elems.
                        forLoop ev varSym bdy loopScope VNil elems st4)
                  | _ \<Rightarrow> (Inl (ScriptError (''Cannot iterate over '' @ typeName iterable)), st4))))"

text \<open>\<open>evalWhile\<close>; the first argument bounds the number of iterations.\<close>

primrec whileLoop ::
    "nat \<Rightarrow> evalT \<Rightarrow> AstNode \<Rightarrow> AstNode \<Rightarrow> Value \<Rightarrow> addr \<Rightarrow> State \<Rightarrow> Value res" where
  "whileLoop 0 ev c b result sc st = (Inl NoResult, st)"
| "whileLoop (Suc k) ev c b result sc st =
     thenR (ev c sc st) (\<lambda>cond st1.
       if \<not> truthy cond then (Inr result, st1)
       else thenR (ev b sc st1) (\<lambda>r st2. whileLoop k ev c b r sc st2))"

primrec matchLoop ::
    "nat \<Rightarrow> evalT \<Rightarrow> Value \<Rightarrow> (AstNode \<times> AstNode) list \<Rightarrow> addr \<Rightarrow> State \<Rightarrow> Value res" where
  "matchLoop n ev scrutinee [] sc st = (Inr VNil, st)"
| "matchLoop n ev scrutinee (arm # arms) sc st =
     (if fst arm = Name ''_'' then ev (snd arm) sc st
      else
        thenR (ev (fst arm) sc st) (\<lambda>patVal st1.
          case valueEq n (heap st1) scrutinee patVal of
            Inl e \<Rightarrow> (Inl e, st1)
          | Inr True \<Rightarrow> ev (snd arm) sc st1
          | Inr False \<Rightarrow> matchLoop n ev scrutinee arms sc st1))"

definition evalMatch ::
    "nat \<Rightarrow> evalT \<Rightarrow> AstNode \<Rightarrow> (AstNode \<times> AstNode) list \<Rightarrow> addr \<Rightarrow> State \<Rightarrow> Value res" where
  "evalMatch n ev scrut arms sc st =
     thenR (ev scrut sc st) (\<lambda>scrutinee st1. matchLoop n ev scrutinee arms sc st1)"

definition evalOn :: "string \<Rightarrow> AstNode \<Rightarrow> addr \<Rightarrow> State \<Rightarrow> Value res" where
  "evalOn event bdy sc st =
     (case ctx st of
        None \<Rightarrow> (Inl (ScriptError ([CHR 0x27] @ ''on'' @ [CHR 0x27] @ '' requires an execution context'')), st)
      | Some c \<Rightarrow>
          (case Value_closure
                  \<lparr>paramIds = [], numRequired = 0, defaultExprs = [], body = bdy,
                   capturedScope = sc, name = ''on:'' @ event,
                   hasRestParam = False, restParamId = 0,
                   hasKwargsParam = False, kwargsParamId = 0\<rparr> st of
             (handlerVal, st1) \<Rightarrow>
               (case internS event st1 of
                  (eventSym, st2) \<Rightarrow>
                    (Inr VNil,
                     st2\<lparr>ctx := Some (c\<lparr>eventHandlers := eventHandlers c @ [(eventSym, handlerVal)]\<rparr>)\<rparr>))))"

text \<open>\<open>evalReturn\<close> throws the \<open>ReturnSignal\<close> with the value (nil without an operand).\<close>

definition evalReturn :: "evalT \<Rightarrow> AstNode option \<Rightarrow> addr \<Rightarrow> State \<Rightarrow> Value res" where
  "evalReturn ev x sc st =
     (case x of
        None \<Rightarrow> (Inl (ReturnSignal VNil), st)
      | Some e \<Rightarrow> thenR (ev e sc st) (\<lambda>val st1. (Inl (ReturnSignal val), st1)))"

subsection \<open>Calls\<close>

text \<open>
  The parameter loop of \<open>callClosure\<close>: parameter \<open>i\<close> takes the \<open>i\<close>-th argument, else its
  default expression evaluated in the call scope, else nil.
\<close>

primrec bindParams ::
    "evalT \<Rightarrow> Closure \<Rightarrow> Value list \<Rightarrow> addr \<Rightarrow> nat \<Rightarrow> u32 list \<Rightarrow> State \<Rightarrow> unit res" where
  "bindParams ev c args callScope i [] st = (Inr (), st)"
| "bindParams ev c args callScope i (p # ps) st =
     (if i < length args then
        withHeap (Scope_define (heap st) callScope p (args ! i)) st (\<lambda>st1.
          bindParams ev c args callScope (Suc i) ps st1)
      else if i \<ge> numRequired c \<and> i - numRequired c < length (defaultExprs c) then
        thenR (ev (defaultExprs c ! (i - numRequired c)) callScope st) (\<lambda>d st1.
          withHeap (Scope_define (heap st1) callScope p d) st1 (\<lambda>st2.
            bindParams ev c args callScope (Suc i) ps st2))
      else
        withHeap (Scope_define (heap st) callScope p VNil) st (\<lambda>st1.
          bindParams ev c args callScope (Suc i) ps st1))"

definition bindRest :: "Closure \<Rightarrow> Value list \<Rightarrow> addr \<Rightarrow> State \<Rightarrow> unit res" where
  "bindRest c restArgs callScope st =
     (if hasRestParam c then
        (case Value_array restArgs st of
           (v, st1) \<Rightarrow>
             withHeap (Scope_define (heap st1) callScope (restParamId c) v) st1
               (\<lambda>st2. (Inr (), st2)))
      else (Inr (), st))"

text \<open>A fresh map holding the given entries, set one after the other (no method flags).\<close>

definition kwargsMap :: "(u32 \<times> Value) list \<Rightarrow> State \<Rightarrow> Value \<times> State" where
  "kwargsMap kvs st =
     (case newObj (OMap \<lparr>proxy = None,
                          entries = foldl (\<lambda>es kv. AList.update (fst kv) (snd kv) es) [] kvs,
                          methodKeys = {}\<rparr>) st of
        (a, st1) \<Rightarrow> (VMap a, st1))"

definition bindKwargs :: "Closure \<Rightarrow> (u32 \<times> Value) list \<Rightarrow> addr \<Rightarrow> State \<Rightarrow> unit res" where
  "bindKwargs c kvs callScope st =
     (if hasKwargsParam c then
        (case kwargsMap kvs st of
           (v, st1) \<Rightarrow>
             withHeap (Scope_define (heap st1) callScope (kwargsParamId c) v) st1
               (\<lambda>st2. (Inr (), st2)))
      else (Inr (), st))"

text \<open>
  The function-call boundary: \<open>try { return eval(body) } catch (ReturnSignal& sig)
  { return sig.value(); }\<close>.  Every other exception passes.
\<close>

definition catchReturn :: "Value res \<Rightarrow> Value res" where
  "catchReturn r = (case r of (Inl (ReturnSignal v), st) \<Rightarrow> (Inr v, st) | _ \<Rightarrow> r)"

definition callClosure :: "evalT \<Rightarrow> Closure \<Rightarrow> Value list \<Rightarrow> State \<Rightarrow> Value res" where
  "callClosure ev c args st =
     (case createChild (capturedScope c) st of
        (callScope, st1) \<Rightarrow>
          thenR (bindParams ev c args callScope 0 (paramIds c) st1) (\<lambda>u st2.
          thenR (bindRest c (drop (length (paramIds c)) args) callScope st2) (\<lambda>u st3.
          thenR (bindKwargs c [] callScope st3) (\<lambda>u st4.
            catchReturn (ev (body c) callScope st4)))))"

primrec firstIndex :: "('a \<Rightarrow> bool) \<Rightarrow> 'a list \<Rightarrow> nat option" where
  "firstIndex P [] = None"
| "firstIndex P (x # xs) = (if P x then Some 0 else map_option Suc (firstIndex P xs))"

text \<open>
  The parameter loop of \<open>callClosureWithNamed\<close>; the result is \<open>namedArgUsed\<close>.
\<close>

primrec bindParamsNamed ::
    "evalT \<Rightarrow> Closure \<Rightarrow> Value list \<Rightarrow> (u32 \<times> Value) list \<Rightarrow> addr \<Rightarrow> nat \<Rightarrow> bool list
     \<Rightarrow> u32 list \<Rightarrow> State \<Rightarrow> (bool list) res" where
  "bindParamsNamed ev c posArgs namedArgs callScope i used [] st = (Inr used, st)"
| "bindParamsNamed ev c posArgs namedArgs callScope i used (p # ps) st =
     (if i < length posArgs then
        withHeap (Scope_define (heap st) callScope p (posArgs ! i)) st (\<lambda>st1.
          bindParamsNamed ev c posArgs namedArgs callScope (Suc i) used ps st1)
      else
        (case firstIndex (\<lambda>kv. fst kv = p) namedArgs of
           Some j \<Rightarrow>
             withHeap (Scope_define (heap st) callScope p (snd (namedArgs ! j))) st (\<lambda>st1.
               bindParamsNamed ev c posArgs namedArgs callScope (Suc i) (used[j := True]) ps st1)
         | None \<Rightarrow>
             (if i \<ge> numRequired c \<and> i - numRequired c < length (defaultExprs c) then
                thenR (ev (defaultExprs c ! (i - numRequired c)) callScope st) (\<lambda>d st1.
                  withHeap (Scope_define (heap st1) callScope p d) st1 (\<lambda>st2.
                    bindParamsNamed ev c posArgs namedArgs callScope (Suc i) used ps st2))
              else
                withHeap (Scope_define (heap st) callScope p VNil) st (\<lambda>st1.
                  bindParamsNamed ev c posArgs namedArgs callScope (Suc i) used ps st1))))"

definition callClosureWithNamed ::
    "evalT \<Rightarrow> Closure \<Rightarrow> Value list \<Rightarrow> (u32 \<times> Value) list \<Rightarrow> State \<Rightarrow> Value res" where
  "callClosureWithNamed ev c posArgs namedArgs st =
     (case createChild (capturedScope c) st of
        (callScope, st1) \<Rightarrow>
          thenR (bindParamsNamed ev c posArgs namedArgs callScope 0
                   (replicate (length namedArgs) False) (paramIds c) st1) (\<lambda>used st2.
          thenR (bindRest c (drop (length (paramIds c)) posArgs) callScope st2) (\<lambda>u st3.
          thenR (bindKwargs c (map fst (filter (\<lambda>kvu. \<not> snd kvu) (zip namedArgs used)))
                   callScope st3) (\<lambda>u st4.
            catchReturn (ev (body c) callScope st4)))))"

text \<open>
  \<open>callFunction\<close>.  A native function is host code: with a context its call is not
  modelled.
\<close>

definition callFunction :: "evalT \<Rightarrow> Value \<Rightarrow> Value list \<Rightarrow> State \<Rightarrow> Value res" where
  "callFunction ev callable args st =
     (case callable of
        VClosure a \<Rightarrow> orNoResult (closureAt (heap st) a) st (\<lambda>c. callClosure ev c args st)
      | VNativeFunction a \<Rightarrow>
          (if ctx st = None
           then (Inl (ScriptError ''Cannot call native function without execution context''), st)
           else (Inl Unmodelled, st))
      | _ \<Rightarrow> (Inl (ScriptError (''Value is not callable: '' @ typeName callable)), st))"

subsection \<open>Built-in methods\<close>

definition dispatchMap :: "Evaluator \<Rightarrow> addr \<Rightarrow> u32 \<Rightarrow> Value list \<Rightarrow> State \<Rightarrow> Value res" where
  "dispatchMap E ma methodSym args st =
     (if methodSym = sym_get E then
        (if args = [] then (Inl (ScriptError ''map.get requires a key argument''), st)
         else (case args ! 0 of
                 VSymbol k \<Rightarrow> orNoResult (MapData_get (heap st) ma k) st (\<lambda>v. (Inr v, st))
               | _ \<Rightarrow> (Inl (ScriptError ''Map key must be a symbol''), st)))
      else if methodSym = sym_set E then
        (if length args < 2 then (Inl (ScriptError ''map.set requires key and value arguments''), st)
         else (case args ! 0 of
                 VSymbol k \<Rightarrow> thenR (storeAuto E ma k (args ! 1) st) (\<lambda>u st1. (Inr (args ! 1), st1))
               | _ \<Rightarrow> (Inl (ScriptError ''Map key must be a symbol''), st)))
      else if methodSym = sym_has E then
        (if args = [] then (Inl (ScriptError ''map.has requires a key argument''), st)
         else (case args ! 0 of
                 VSymbol k \<Rightarrow> orNoResult (MapData_has (heap st) ma k) st (\<lambda>b. (Inr (VBool b), st))
               | _ \<Rightarrow> (Inl (ScriptError ''Map key must be a symbol''), st)))
      else if methodSym = sym_remove E then
        (if args = [] then (Inl (ScriptError ''map.remove requires a key argument''), st)
         else (case args ! 0 of
                 VSymbol k \<Rightarrow>
                   orNoResult (MapData_remove (heap st) ma k) st
                     (\<lambda>bh. (Inr (VBool (fst bh)), st\<lparr>heap := snd bh\<rparr>))
               | _ \<Rightarrow> (Inl (ScriptError ''Map key must be a symbol''), st)))
      else if methodSym = sym_keys E then mapKeysArray ma st
      else if methodSym = sym_values E then mapValuesArray ma st
      else if methodSym = sym_setMethod E then
        (if length args < 2
         then (Inl (ScriptError ''map.setMethod requires name and function arguments''), st)
         else (case args ! 0 of
                 VSymbol k \<Rightarrow>
                   withHeap (MapData_setMethod (heap st) ma k (args ! 1)) st
                     (\<lambda>st1. (Inr (args ! 1), st1))
               | _ \<Rightarrow> (Inl (ScriptError ''Method name must be a symbol''), st)))
      else (Inl (ScriptError ''Unknown built-in method''), st))"

primrec containsLoop :: "nat \<Rightarrow> heap \<Rightarrow> Value \<Rightarrow> Value list \<Rightarrow> signal + bool" where
  "containsLoop n h x [] = Inr False"
| "containsLoop n h x (elem # elems) =
     (case valueEq n h elem x of
        Inl e \<Rightarrow> Inl e
      | Inr True \<Rightarrow> Inr True
      | Inr False \<Rightarrow> containsLoop n h x elems)"

primrec mapLoop :: "(Value list \<Rightarrow> State \<Rightarrow> Value res) \<Rightarrow> Value list \<Rightarrow> State \<Rightarrow> (Value list) res" where
  "mapLoop call [] st = (Inr [], st)"
| "mapLoop call (elem # elems) st =
     thenR (call [elem] st) (\<lambda>v st1.
     thenR (mapLoop call elems st1) (\<lambda>vs st2. (Inr (v # vs), st2)))"

primrec filterLoop :: "(Value list \<Rightarrow> State \<Rightarrow> Value res) \<Rightarrow> Value list \<Rightarrow> State \<Rightarrow> (Value list) res" where
  "filterLoop call [] st = (Inr [], st)"
| "filterLoop call (elem # elems) st =
     thenR (call [elem] st) (\<lambda>keep st1.
     thenR (filterLoop call elems st1) (\<lambda>vs st2.
       (Inr (if truthy keep then elem # vs else vs), st2)))"

definition sliceBounds :: "int \<Rightarrow> int \<Rightarrow> nat \<Rightarrow> nat \<times> nat" where
  "sliceBounds start0 end0 n =
     (let s1 = (if start0 < 0 then start0 + int n else start0);
          e1 = (if end0 < 0 then end0 + int n else end0);
          s2 = max 0 (min s1 (int n));
          e2 = max 0 (min e1 (int n));
          s3 = (if s2 > e2 then e2 else s2)
      in (nat s3, nat e2))"

text \<open>
  The array methods.  \<open>call\<close> is \<open>callFunction\<close> with the first argument of the method as
  the callable.  \<open>map\<close>, \<open>filter\<close> and \<open>foreach\<close> run over the elements the array holds when
  the method starts.  \<open>sort\<close> and \<open>sort_by\<close> (\<open>std::sort\<close>) are not modelled.
\<close>

definition dispatchArray ::
    "nat \<Rightarrow> (Value \<Rightarrow> Value list \<Rightarrow> State \<Rightarrow> Value res) \<Rightarrow> Evaluator \<Rightarrow> addr \<Rightarrow> u32
     \<Rightarrow> Value list \<Rightarrow> State \<Rightarrow> Value res" where
  "dispatchArray n call E a methodSym args st =
     orNoResult (arrayAt (heap st) a) st (\<lambda>arr.
       if methodSym = sym_length E then (Inr (VInt (of_nat (length arr))), st)
       else if methodSym = sym_push E then
         (Inr (VInt (of_nat (length arr + length args))),
          st\<lparr>heap := (heap st)[a := OArray (arr @ args)]\<rparr>)
       else if methodSym = sym_pop E then arrayPop a st
       else if methodSym = sym_get E then
         (if args = [] then (Inl (ScriptError ''array.get requires an index''), st)
          else (case args ! 0 of
                  VInt i \<Rightarrow>
                    (case wrapIndex i (length arr) of
                       None \<Rightarrow> (Inl (ScriptError ''Array index out of bounds''), st)
                     | Some j \<Rightarrow> (Inr (arr ! j), st))
                | _ \<Rightarrow> (Inl (ScriptError ''Array index must be an integer''), st)))
       else if methodSym = sym_set E then
         (if length args < 2 then (Inl (ScriptError ''array.set requires index and value''), st)
          else (case args ! 0 of
                  VInt i \<Rightarrow>
                    (case wrapIndex i (length arr) of
                       None \<Rightarrow> (Inl (ScriptError ''Array index out of bounds''), st)
                     | Some j \<Rightarrow>
                         (Inr (args ! 1), st\<lparr>heap := (heap st)[a := OArray (arr[j := args ! 1])]\<rparr>))
                | _ \<Rightarrow> (Inl (ScriptError ''Array index must be an integer''), st)))
       else if methodSym = sym_slice E then
         (if args = [] then (Inl (ScriptError ''array.slice requires start index''), st)
          else (case args ! 0 of
                  VInt s \<Rightarrow>
                    (let e = (if length args > 1
                              then (case args ! 1 of VInt e1 \<Rightarrow> sint e1 | _ \<Rightarrow> int (length arr))
                              else int (length arr));
                         se = sliceBounds (sint s) e (length arr)
                     in case Value_array (take (snd se - fst se) (drop (fst se) arr)) st of
                          (v, st1) \<Rightarrow> (Inr v, st1))
                | _ \<Rightarrow> (Inl (ScriptError ''Slice start must be an integer''), st)))
       else if methodSym = sym_contains E then
         (if args = [] then (Inl (ScriptError ''array.contains requires a value''), st)
          else (case containsLoop n (heap st) (args ! 0) arr of
                  Inl e \<Rightarrow> (Inl e, st)
                | Inr b \<Rightarrow> (Inr (VBool b), st)))
       else if methodSym = sym_sort E then (Inl Unmodelled, st)
       else if methodSym = sym_sort_by E then
         (if args = [] \<or> \<not> isCallable (args ! 0)
          then (Inl (ScriptError ''array.sort_by requires a comparator function''), st)
          else (Inl Unmodelled, st))
       else if methodSym = sym_map E then
         (if args = [] \<or> \<not> isCallable (args ! 0)
          then (Inl (ScriptError ''array.map requires a function argument''), st)
          else thenR (mapLoop (call (args ! 0)) arr st) (\<lambda>vs st1.
                 case Value_array vs st1 of (v, st2) \<Rightarrow> (Inr v, st2)))
       else if methodSym = sym_filter E then
         (if args = [] \<or> \<not> isCallable (args ! 0)
          then (Inl (ScriptError ''array.filter requires a function argument''), st)
          else thenR (filterLoop (call (args ! 0)) arr st) (\<lambda>vs st1.
                 case Value_array vs st1 of (v, st2) \<Rightarrow> (Inr v, st2)))
       else if methodSym = sym_foreach E then
         (if args = [] \<or> \<not> isCallable (args ! 0)
          then (Inl (ScriptError ''array.foreach requires a function argument''), st)
          else thenR (mapLoop (call (args ! 0)) arr st) (\<lambda>vs st1. (Inr VNil, st1)))
       else (Inl (ScriptError ''Unknown built-in method''), st))"

text \<open>
  The string methods \<open>length\<close>, \<open>get\<close>, \<open>char_at\<close> and \<open>push\<close>; the other string methods are
  not modelled.
\<close>

definition dispatchString ::
    "Evaluator \<Rightarrow> Value \<Rightarrow> addr \<Rightarrow> u32 \<Rightarrow> Value list \<Rightarrow> State \<Rightarrow> Value res" where
  "dispatchString E object a methodSym args st =
     orNoResult (stringAt (heap st) a) st (\<lambda>str.
       if methodSym = sym_length E then (Inr (VInt (of_nat (length str))), st)
       else if methodSym = sym_get E \<or> methodSym = sym_char_at E then
         (if args = [] then (Inl (ScriptError ''string.get requires an index''), st)
          else (case args ! 0 of
                  VInt i \<Rightarrow>
                    (case wrapIndex i (length str) of
                       None \<Rightarrow> (Inl (ScriptError ''String index out of bounds''), st)
                     | Some j \<Rightarrow> (case Value_string [str ! j] st of (v, st1) \<Rightarrow> (Inr v, st1)))
                | _ \<Rightarrow> (Inl (ScriptError ''String index must be an integer''), st)))
       else if methodSym = sym_push E then
         (if args = [] then (Inl (ScriptError ''string.push requires a string argument''), st)
          else (case args ! 0 of
                  VString b \<Rightarrow>
                    orNoResult (stringAt (heap st) b) st (\<lambda>t.
                      (Inr object, st\<lparr>heap := (heap st)[a := OString (str @ t)]\<rparr>))
                | _ \<Rightarrow> (Inl (ScriptError ''string.push argument must be a string''), st)))
       else (Inl Unmodelled, st))"

definition dispatchBuiltinMethod ::
    "nat \<Rightarrow> evalT \<Rightarrow> Evaluator \<Rightarrow> Value \<Rightarrow> u32 \<Rightarrow> Value list \<Rightarrow> State \<Rightarrow> Value res" where
  "dispatchBuiltinMethod n ev E object methodSym args st =
     (case object of
        VMap ma \<Rightarrow> dispatchMap E ma methodSym args st
      | VArray a \<Rightarrow> dispatchArray n (callFunction ev) E a methodSym args st
      | VString a \<Rightarrow> dispatchString E object a methodSym args st
      | _ \<Rightarrow> (Inl (ScriptError ''Unknown built-in method''), st))"

subsection \<open>\<open>evalCall\<close>\<close>

primrec evalNamedArgs ::
    "evalT \<Rightarrow> (string \<times> AstNode) list \<Rightarrow> addr \<Rightarrow> State \<Rightarrow> ((u32 \<times> Value) list) res" where
  "evalNamedArgs ev [] sc st = (Inr [], st)"
| "evalNamedArgs ev (kv # kvs) sc st =
     (case internS (fst kv) st of
        (sy, st1) \<Rightarrow>
          thenR (ev (snd kv) sc st1) (\<lambda>val st2.
          thenR (evalNamedArgs ev kvs sc st2) (\<lambda>rest st3. (Inr ((sy, val) # rest), st3))))"

text \<open>
  The tail shared by both branches of \<open>evalCall\<close> once the callable and the positional
  arguments are there: the value itself for a zero-argument call of a non-callable, the
  named-argument conventions, and \<open>callFunction\<close>.
\<close>

definition applyCall ::
    "evalT \<Rightarrow> Value \<Rightarrow> Value list \<Rightarrow> (string \<times> AstNode) list \<Rightarrow> addr \<Rightarrow> State \<Rightarrow> Value res" where
  "applyCall ev func args named sc st =
     (if args = [] \<and> named = [] \<and> \<not> isCallable func then (Inr func, st)
      else if named \<noteq> [] then
        (case func of
           VClosure a \<Rightarrow>
             thenR (evalNamedArgs ev named sc st) (\<lambda>namedArgs st1.
               orNoResult (closureAt (heap st1) a) st1 (\<lambda>c.
                 callClosureWithNamed ev c args namedArgs st1))
         | VNativeFunction a \<Rightarrow>
             thenR (evalNamedArgs ev named sc st) (\<lambda>namedArgs st1.
               case kwargsMap namedArgs st1 of
                 (kw, st2) \<Rightarrow> callFunction ev func (args @ [kw]) st2)
         | _ \<Rightarrow> callFunction ev func args st)
      else callFunction ev func args st)"

text \<open>The receiver of a method call: the fields before the last, maps only.\<close>

primrec receiverWalk :: "string list \<Rightarrow> Value \<Rightarrow> State \<Rightarrow> Value res" where
  "receiverWalk [] receiver st = (Inr receiver, st)"
| "receiverWalk (f # fs) receiver st =
     (case internS f st of
        (sy, st1) \<Rightarrow>
          (case receiver of
             VMap ma \<Rightarrow>
               orNoResult (MapData_get (heap st1) ma sy) st1 (\<lambda>v. receiverWalk fs v st1)
           | _ \<Rightarrow> (Inl (cannotAccessField f (typeName receiver)), st1)))"

definition isMapV :: "Value \<Rightarrow> bool" where
  "isMapV v \<longleftrightarrow> (case v of VMap _ \<Rightarrow> True | _ \<Rightarrow> False)"

definition isArrayV :: "Value \<Rightarrow> bool" where
  "isArrayV v \<longleftrightarrow> (case v of VArray _ \<Rightarrow> True | _ \<Rightarrow> False)"

definition isStringV :: "Value \<Rightarrow> bool" where
  "isStringV v \<longleftrightarrow> (case v of VString _ \<Rightarrow> True | _ \<Rightarrow> False)"

definition methodCall ::
    "nat \<Rightarrow> evalT \<Rightarrow> Evaluator \<Rightarrow> AstNode \<Rightarrow> string list \<Rightarrow> AstNode list
     \<Rightarrow> (string \<times> AstNode) list \<Rightarrow> addr \<Rightarrow> State \<Rightarrow> Value res" where
  "methodCall n ev E base parts posArgs named sc st =
     thenR (ev base sc st) (\<lambda>receiver0 st1.
     thenR (receiverWalk (butlast parts) receiver0 st1) (\<lambda>receiver st2.
       case internS (last parts) st2 of
         (methodSym, st3) \<Rightarrow>
           thenR (evalList ev posArgs sc st3) (\<lambda>args st4.
             if (isMapV receiver \<and> isBuiltinMapMethod E methodSym)
                \<or> (isArrayV receiver \<and> isBuiltinArrayMethod E methodSym)
                \<or> (isStringV receiver \<and> isBuiltinStringMethod E methodSym)
             then dispatchBuiltinMethod n ev E receiver methodSym args st4
             else
               (let fallback =
                      (if args = [] \<and> named = [] then evalDottedName ev E base parts sc st4
                       else (Inl (ScriptError (''No method '' @ [CHR 0x27] @ last parts @ [CHR 0x27]
                                                @ '' on '' @ typeName receiver)), st4))
                in case receiver of
                     VMap ma \<Rightarrow>
                       orNoResult (MapData_has (heap st4) ma methodSym) st4 (\<lambda>has.
                         if has then
                           orNoResult (MapData_get (heap st4) ma methodSym) st4 (\<lambda>func.
                           orNoResult (MapData_isMethod (heap st4) ma methodSym) st4 (\<lambda>isM.
                             applyCall ev func (if isM then receiver # args else args) named sc st4))
                         else fallback)
                   | _ \<Rightarrow> fallback))))"

definition evalCall ::
    "nat \<Rightarrow> evalT \<Rightarrow> Evaluator \<Rightarrow> AstNode \<Rightarrow> AstNode list \<Rightarrow> (string \<times> AstNode) list
     \<Rightarrow> addr \<Rightarrow> State \<Rightarrow> Value res" where
  "evalCall n ev E verbNode posArgs named sc st =
     (case verbNode of
        DottedName base parts \<Rightarrow>
          (if parts \<noteq> [] then methodCall n ev E base parts posArgs named sc st
           else thenR (ev verbNode sc st) (\<lambda>verb st1.
                thenR (evalList ev posArgs sc st1) (\<lambda>args st2.
                  applyCall ev verb args named sc st2)))
      | _ \<Rightarrow>
          thenR (ev verbNode sc st) (\<lambda>verb st1.
          thenR (evalList ev posArgs sc st1) (\<lambda>args st2.
            applyCall ev verb args named sc st2)))"

subsection \<open>\<open>eval\<close> and \<open>ScriptEngine::execute\<close>\<close>

text \<open>
  The \<open>switch\<close> of \<open>Evaluator::eval\<close>.  \<open>n\<close> bounds the iterations of a \<open>while\<close> loop and the
  depth of value comparisons.  \<open>StringInterp\<close> (it formats values) and \<open>Source\<close> (it reads
  files through the engine) are not modelled.
\<close>

definition evalNode :: "nat \<Rightarrow> evalT \<Rightarrow> Evaluator \<Rightarrow> AstNode \<Rightarrow> addr \<Rightarrow> State \<Rightarrow> Value res" where
  "evalNode n ev E node sc st =
     (case node of
        IntLit i \<Rightarrow> (Inr (VInt i), st)
      | FloatLit f \<Rightarrow> (Inr (VFloat f), st)
      | StringLit s \<Rightarrow> (case Value_string s st of (v, st1) \<Rightarrow> (Inr v, st1))
      | StringInterp parts \<Rightarrow> (Inl Unmodelled, st)
      | SymbolLit s \<Rightarrow> (case internS s st of (sy, st1) \<Rightarrow> (Inr (VSymbol sy), st1))
      | BoolLit b \<Rightarrow> (Inr (VBool b), st)
      | NilLit \<Rightarrow> (Inr VNil, st)
      | ArrayLit children \<Rightarrow> evalArrayLit ev children sc st
      | MapLit kvs \<Rightarrow> evalMapLit ev E kvs sc st
      | Name nm \<Rightarrow> evalName nm sc st
      | DottedName base flds \<Rightarrow> evalDottedName ev E base flds sc st
      | Call verb posArgs named \<Rightarrow> evalCall n ev E verb posArgs named sc st
      | Infix op l r \<Rightarrow> evalInfix n ev op l r sc st
      | UnaryNot x \<Rightarrow> evalUnaryNot ev x sc st
      | UnaryNegate x \<Rightarrow> evalUnaryNegate ev x sc st
      | Block children \<Rightarrow> evalBlock ev children sc st
      | Index t i \<Rightarrow> evalIndex ev t i sc st
      | Ref x \<Rightarrow> ev x sc st
      | SetNode nameParts rhs \<Rightarrow> evalSet ev E nameParts rhs sc st
      | LetNode nm rhs \<Rightarrow> evalLet ev nm rhs sc st
      | Fn nm params nreq bdy defaults op \<Rightarrow> evalFn nm params nreq bdy defaults op sc st
      | IfNode pairs els \<Rightarrow> ifLoop ev pairs els sc st
      | ForNode var iter bdy \<Rightarrow> evalFor ev var iter bdy sc st
      | While c b \<Rightarrow> whileLoop n ev c b VNil sc st
      | Match scrut arms \<Rightarrow> evalMatch n ev scrut arms sc st
      | On event bdy \<Rightarrow> evalOn event bdy sc st
      | Return x \<Rightarrow> evalReturn ev x sc st
      | Source x \<Rightarrow> (Inl Unmodelled, st))"

text \<open>
  \<open>Evaluator::eval\<close>, with fuel: \<open>eval n\<close> follows the source as long as the nesting of
  \<open>eval\<close> calls stays below \<open>n\<close> and gives \<open>NoResult\<close> beyond.
\<close>

primrec eval :: "nat \<Rightarrow> Evaluator \<Rightarrow> AstNode \<Rightarrow> addr \<Rightarrow> State \<Rightarrow> Value res" where
  "eval 0 E node sc st = (Inl NoResult, st)"
| "eval (Suc n) E node sc st = evalNode n (eval n E) E node sc st"

declare eval.simps [simp del]

text \<open>
  \<open>FullScriptResult\<close> (script name, error line and column left out) and
  \<open>ScriptEngine::execute\<close>: a new \<open>Evaluator\<close> on the engine's interner evaluates the root in
  the scope of the context.  A \<open>ScriptError\<close> becomes a failed result; a \<open>ReturnSignal\<close> that
  arrives here is the result of the script.  \<open>None\<close>: \<open>execute\<close> does not return (or is not
  modelled).
\<close>

record FullScriptResult =
  success :: bool
  returnValue :: Value
  errorMessage :: string

definition execute :: "nat \<Rightarrow> AstNode \<Rightarrow> State \<Rightarrow> FullScriptResult option \<times> State" where
  "execute n root st =
     (case ctx st of
        None \<Rightarrow> (None, st)
      | Some c \<Rightarrow>
          (case preInternSymbols (interner st) of
             (E, I1) \<Rightarrow>
               (case eval n E root (contextScope c) (st\<lparr>interner := I1\<rparr>) of
                  (Inr v, st1) \<Rightarrow>
                    (Some \<lparr>success = True, returnValue = v, errorMessage = []\<rparr>, st1)
                | (Inl (ScriptError m), st1) \<Rightarrow>
                    (Some \<lparr>success = False, returnValue = VNil, errorMessage = m\<rparr>, st1)
                | (Inl (ReturnSignal v), st1) \<Rightarrow>
                    (Some \<lparr>success = True, returnValue = v, errorMessage = []\<rparr>, st1)
                | (Inl NoResult, st1) \<Rightarrow> (None, st1)
                | (Inl Unmodelled, st1) \<Rightarrow> (None, st1))))"

section \<open>Properties of the evaluator\<close>

lemma internS_heap [simp]: "heap (snd (internS s st)) = heap st"
  by (simp add: internS_def split: prod.splits)

lemma internS_ctx [simp]: "ctx (snd (internS s st)) = ctx st"
  by (simp add: internS_def split: prod.splits)

lemma internS_eq: "internS s st = (fst (internS s st), snd (internS s st))"
  by simp

lemma Scope_lookup_chain:
  "Scope_chain h a = Some as \<Longrightarrow>
   Scope_lookup h a k =
     Some (case find (binds h k) as of
             None \<Rightarrow> None
           | Some b \<Rightarrow> (case scopeAt h b of Some sc \<Rightarrow> map_of (bindings sc) k | None \<Rightarrow> None))"
proof (induction as arbitrary: a)
  case Nil
  then show ?case using Scope_chain_hd by blast
next
  case (Cons x xs)
  from Cons.prems show ?case
  proof (cases rule: Scope_chain_cases)
    case (1 sc)
    then show ?thesis
      by (subst Scope_lookup.simps) (auto simp: binds_def split: option.splits)
  next
    case (2 sc p as')
    then have xs: "xs = as'" "x = a" by simp_all
    show ?thesis
    proof (cases "map_of (bindings sc) k")
      case None
      from Cons.IH [of p] 2 xs
      have "Scope_lookup h p k =
        Some (case find (binds h k) xs of
                None \<Rightarrow> None
              | Some b \<Rightarrow> (case scopeAt h b of Some sc \<Rightarrow> map_of (bindings sc) k | None \<Rightarrow> None))"
        by simp
      with None 2 xs show ?thesis
        by (subst Scope_lookup.simps) (auto simp: binds_def)
    next
      case (Some v)
      with 2 show ?thesis
        by (subst Scope_lookup.simps) (auto simp: binds_def)
    qed
  qed
qed

lemma Scope_lookup_unbound:
  assumes "Scope_chain h a = Some as" "\<forall>b \<in> set as. \<not> binds h k b"
  shows "Scope_lookup h a k = Some None"
proof -
  from assms(2) have "find (binds h k) as = None" by (simp add: find_None_iff)
  with Scope_lookup_chain [OF assms(1), of k] show ?thesis by simp
qed

subsection \<open>Names\<close>

text \<open>
  C10.  If no frame of the scope chain binds the symbol of a name, evaluating the \<open>Name\<close>
  node (with any fuel) returns nil and raises nothing; the only effect is that the name is
  interned.  By contrast a dotted access on that same unbound name fails with a
  \<open>ScriptError\<close>, as its base is nil and not a map.
\<close>

theorem evalName_unbound_nil:
  assumes "Scope_chain (heap st) sc = Some as"
    and "\<forall>a \<in> set as. \<not> binds (heap st) (fst (internS nm st)) a"
  shows "eval (Suc n) E (Name nm) sc st = (Inr VNil, snd (internS nm st))
       \<and> eval (Suc (Suc n)) E (DottedName (Name nm) (f # fs)) sc st =
           (Inl (cannotAccessField f ''nil''), snd (internS f (snd (internS nm st))))"
proof -
  have lk: "Scope_lookup (heap st) sc (fst (internS nm st)) = Some None"
    using assms by (rule Scope_lookup_unbound)
  have nm: "evalName nm sc st = (Inr VNil, snd (internS nm st))"
    using lk by (simp add: evalName_def case_prod_unfold)
  have a: "eval (Suc n) E (Name nm) sc st = (Inr VNil, snd (internS nm st))"
    using nm by (simp add: eval.simps evalNode_def)
  have b: "eval (Suc (Suc n)) E (DottedName (Name nm) (f # fs)) sc st =
           (Inl (cannotAccessField f ''nil''), snd (internS f (snd (internS nm st))))"
    using a by (simp add: eval.simps(2) [of "Suc n"] evalNode_def evalDottedName_def
        fieldStep_def typeName_def case_prod_unfold)
  from a b show ?thesis by (rule conjI)
qed

subsection \<open>Infix\<close>

text \<open>
  C7.  Let the left operand evaluate to \<open>v\<close>, leaving the state \<open>st1\<close>.  Then \<open>and\<close> yields
  \<open>v\<close> if \<open>v\<close> is falsy, \<open>or\<close> and \<open>?:\<close> yield \<open>v\<close> if \<open>v\<close> is truthy, \<open>??\<close> yields \<open>v\<close> unless
  \<open>v\<close> is nil; in these cases the result is \<open>v\<close> in the state \<open>st1\<close> whatever the right
  operand is, so the right operand is not evaluated.  In the other case the result is that
  of the right operand, evaluated in \<open>st1\<close>.
\<close>

theorem evalInfix_short_circuit:
  assumes "eval n E l sc st = (Inr v, st1)"
  shows "eval (Suc n) E (Infix ''and'' l r) sc st =
           (if \<not> truthy v then (Inr v, st1) else eval n E r sc st1)
       \<and> eval (Suc n) E (Infix ''or'' l r) sc st =
           (if truthy v then (Inr v, st1) else eval n E r sc st1)
       \<and> eval (Suc n) E (Infix ''??'' l r) sc st =
           (if v \<noteq> VNil then (Inr v, st1) else eval n E r sc st1)
       \<and> eval (Suc n) E (Infix ''?:'' l r) sc st =
           (if truthy v then (Inr v, st1) else eval n E r sc st1)"
  using assms by (simp add: eval.simps(2) [of n] evalNode_def evalInfix_def isNil_def)

text \<open>
  A state for the concrete instances below: an evaluator constructed on the empty
  interner, the interner it leaves (the thirty pre-interned symbols), a heap with the global
  scope alone, and no execution context.
\<close>

definition st_w :: State where
  "st_w = \<lparr>interner = snd (preInternSymbols Interner_empty),
           heap = [OScope \<lparr>parent = None, bindings = []\<rparr>], ctx = None\<rparr>"

definition E_w :: Evaluator where
  "E_w = fst (preInternSymbols Interner_empty)"

lemma eval_IntLit [simp]: "eval (Suc n) E (IntLit i) sc st = (Inr (VInt i), st)"
  by (simp add: eval.simps evalNode_def)

lemma eval_BoolLit [simp]: "eval (Suc n) E (BoolLit b) sc st = (Inr (VBool b), st)"
  by (simp add: eval.simps evalNode_def)

lemma eval_NilLit [simp]: "eval (Suc n) E NilLit sc st = (Inr VNil, st)"
  by (simp add: eval.simps evalNode_def)

lemma Scope_chain_st_w: "Scope_chain (heap st_w) 0 = Some [0]"
  by (simp add: Scope_chain.simps scopeAt_def heapGet_def st_w_def)

theorem evalName_unbound_nil_witness:
  "Scope_chain (heap st_w) 0 = Some [0]
   \<and> eval (Suc 0) E_w (Name ''x'') 0 st_w = (Inr VNil, snd (internS ''x'' st_w))
   \<and> eval (Suc (Suc 0)) E_w (DottedName (Name ''x'') [''y'']) 0 st_w =
       (Inl (cannotAccessField ''y'' ''nil''), snd (internS ''y'' (snd (internS ''x'' st_w))))"
proof -
  have u: "\<forall>a \<in> set [0]. \<not> binds (heap st_w) (fst (internS ''x'' st_w)) a"
    by (simp add: binds_def scopeAt_def heapGet_def st_w_def)
  show ?thesis
    by (rule conjI [OF Scope_chain_st_w evalName_unbound_nil [OF Scope_chain_st_w u]])
qed

theorem evalInfix_short_circuit_witness:
  "eval (Suc 0) E_w (BoolLit False) 0 st_w = (Inr (VBool False), st_w)
   \<and> eval (Suc (Suc 0)) E_w (Infix ''and'' (BoolLit False) (IntLit 1)) 0 st_w = (Inr (VBool False), st_w)
   \<and> eval (Suc (Suc 0)) E_w (Infix ''or'' (BoolLit False) (IntLit 1)) 0 st_w = (Inr (VInt 1), st_w)
   \<and> eval (Suc (Suc 0)) E_w (Infix ''??'' (BoolLit False) (IntLit 1)) 0 st_w = (Inr (VBool False), st_w)
   \<and> eval (Suc (Suc 0)) E_w (Infix ''?:'' (BoolLit False) (IntLit 1)) 0 st_w = (Inr (VInt 1), st_w)"
proof -
  have h: "eval (Suc 0) E_w (BoolLit False) 0 st_w = (Inr (VBool False), st_w)" by simp
  have r: "eval (Suc 0) E_w (IntLit 1) 0 st_w = (Inr (VInt 1), st_w)" by simp
  note T = evalInfix_short_circuit [OF h, of "IntLit 1"]
  from T have a: "eval (Suc (Suc 0)) E_w (Infix ''and'' (BoolLit False) (IntLit 1)) 0 st_w
      = (if \<not> truthy (VBool False) then (Inr (VBool False), st_w) else eval (Suc 0) E_w (IntLit 1) 0 st_w)"
    by (rule conjunct1)
  from T have b: "eval (Suc (Suc 0)) E_w (Infix ''or'' (BoolLit False) (IntLit 1)) 0 st_w
      = (if truthy (VBool False) then (Inr (VBool False), st_w) else eval (Suc 0) E_w (IntLit 1) 0 st_w)"
    by (rule conjunct2 [THEN conjunct1])
  from T have c: "eval (Suc (Suc 0)) E_w (Infix ''??'' (BoolLit False) (IntLit 1)) 0 st_w
      = (if VBool False \<noteq> VNil then (Inr (VBool False), st_w) else eval (Suc 0) E_w (IntLit 1) 0 st_w)"
    by (rule conjunct2 [THEN conjunct2, THEN conjunct1])
  from T have d: "eval (Suc (Suc 0)) E_w (Infix ''?:'' (BoolLit False) (IntLit 1)) 0 st_w
      = (if truthy (VBool False) then (Inr (VBool False), st_w) else eval (Suc 0) E_w (IntLit 1) 0 st_w)"
    by (rule conjunct2 [THEN conjunct2, THEN conjunct2])
  have t: "\<not> truthy (VBool False)" by (simp add: truthy_def)
  show ?thesis
    unfolding a b c d using t r h by simp
qed

subsection \<open>Index\<close>

lemma wrapIndex_nonneg:
  "0 \<le> sint i \<Longrightarrow> sint i < int n \<Longrightarrow> wrapIndex i n = Some (nat (sint i))"
  by (simp add: wrapIndex_def)

lemma wrapIndex_neg:
  "sint i < 0 \<Longrightarrow> 0 \<le> sint i + int n \<Longrightarrow> wrapIndex i n = Some (nat (sint i + int n))"
  by (simp add: wrapIndex_def)

lemma wrapIndex_out:
  "sint i \<ge> int n \<or> sint i + int n < 0 \<Longrightarrow> wrapIndex i n = None"
  by (auto simp: wrapIndex_def)

lemma MapData_get_local:
  "mapAt h ma = Some m \<Longrightarrow> proxy m = None \<Longrightarrow>
   MapData_get h ma k = Some (case map_of (entries m) k of Some v \<Rightarrow> v | None \<Rightarrow> VNil)"
  by (simp add: MapData_get_def split: option.splits)

lemma MapData_get_proxy:
  "mapAt h ma = Some m \<Longrightarrow> proxy m = Some sa \<Longrightarrow> Scope_chain h sa = Some as \<Longrightarrow>
   \<exists>v. MapData_get h ma k = Some v"
  by (simp add: MapData_get_def Scope_lookup_chain split: option.splits)

lemma indexValues_array:
  assumes "arrayAt (heap st) a = Some arr"
  shows "0 \<le> sint i \<Longrightarrow> sint i < int (length arr) \<Longrightarrow>
           indexValues (VArray a) (VInt i) st = (Inr (arr ! nat (sint i)), st)"
    and "sint i < 0 \<Longrightarrow> 0 \<le> sint i + int (length arr) \<Longrightarrow>
           indexValues (VArray a) (VInt i) st = (Inr (arr ! nat (sint i + int (length arr))), st)"
    and "sint i \<ge> int (length arr) \<or> sint i + int (length arr) < 0 \<Longrightarrow>
           indexValues (VArray a) (VInt i) st =
             (Inl (ScriptError (''Array index out of bounds: '' @ to_string (sint i))), st)"
  using assms
  by (simp_all add: indexValues_def wrapIndex_nonneg wrapIndex_neg wrapIndex_out)

lemma indexValues_string:
  assumes "stringAt (heap st) a = Some s"
  shows "0 \<le> sint i \<Longrightarrow> sint i < int (length s) \<Longrightarrow>
           indexValues (VString a) (VInt i) st =
             (Inr (VString (length (heap st))),
              st\<lparr>heap := heap st @ [OString [s ! nat (sint i)]]\<rparr>)"
    and "sint i < 0 \<Longrightarrow> 0 \<le> sint i + int (length s) \<Longrightarrow>
           indexValues (VString a) (VInt i) st =
             (Inr (VString (length (heap st))),
              st\<lparr>heap := heap st @ [OString [s ! nat (sint i + int (length s))]]\<rparr>)"
    and "sint i \<ge> int (length s) \<or> sint i + int (length s) < 0 \<Longrightarrow>
           indexValues (VString a) (VInt i) st =
             (Inl (ScriptError (''String index out of bounds: '' @ to_string (sint i))), st)"
  using assms
  by (simp_all add: indexValues_def wrapIndex_nonneg wrapIndex_neg wrapIndex_out
      Value_string_def newObj_def)

lemma indexValues_bad_index:
  "\<not> isInt idx \<Longrightarrow>
     indexValues (VArray a) idx st = (Inl (ScriptError ''Array index must be an integer''), st)
   \<and> indexValues (VString a) idx st = (Inl (ScriptError ''String index must be an integer''), st)"
  by (cases idx) (simp_all add: indexValues_def isInt_def)

lemma indexValues_bad_key:
  "\<not> isSymbol idx \<Longrightarrow>
     indexValues (VMap ma) idx st = (Inl (ScriptError ''Map key must be a symbol''), st)"
  by (cases idx) (simp_all add: indexValues_def isSymbol_def)

lemma indexValues_bad_target:
  "\<not> isArrayV target \<Longrightarrow> \<not> isStringV target \<Longrightarrow> \<not> isMapV target \<Longrightarrow>
     indexValues target idx st = (Inl (ScriptError (''Cannot index '' @ typeName target)), st)"
  by (cases target) (simp_all add: indexValues_def isArrayV_def isStringV_def isMapV_def)



definition st_arr :: State where
  "st_arr = st_w\<lparr>heap := heap st_w @ [OArray [VInt 10, VInt 20, VInt 30]]\<rparr>"

lemma eval_ArrayLit_w:
  "eval (Suc (Suc 0)) E_w (ArrayLit [IntLit 10, IntLit 20, IntLit 30]) 0 st_w
     = (Inr (VArray 1), st_arr)"
  by (simp add: eval.simps(2) [of "Suc 0"] evalNode_def evalArrayLit_def Value_array_def
      newObj_def st_arr_def st_w_def)


subsection \<open>Return\<close>

text \<open>
  The parameters of a call are bound without an exception: \<open>cs\<close> is the call scope and
  \<open>st4\<close> the state in which the body starts.
\<close>

definition paramsBound :: "evalT \<Rightarrow> Closure \<Rightarrow> Value list \<Rightarrow> State \<Rightarrow> addr \<Rightarrow> State \<Rightarrow> bool" where
  "paramsBound ev c args st cs st4 \<longleftrightarrow>
     (\<exists>st1 st2 st3.
        createChild (capturedScope c) st = (cs, st1)
      \<and> bindParams ev c args cs 0 (paramIds c) st1 = (Inr (), st2)
      \<and> bindRest c (drop (length (paramIds c)) args) cs st2 = (Inr (), st3)
      \<and> bindKwargs c [] cs st3 = (Inr (), st4))"

definition paramsBoundNamed ::
    "evalT \<Rightarrow> Closure \<Rightarrow> Value list \<Rightarrow> (u32 \<times> Value) list \<Rightarrow> State \<Rightarrow> addr \<Rightarrow> State \<Rightarrow> bool" where
  "paramsBoundNamed ev c posArgs namedArgs st cs st4 \<longleftrightarrow>
     (\<exists>st1 used st2 st3.
        createChild (capturedScope c) st = (cs, st1)
      \<and> bindParamsNamed ev c posArgs namedArgs cs 0 (replicate (length namedArgs) False)
           (paramIds c) st1 = (Inr used, st2)
      \<and> bindRest c (drop (length (paramIds c)) posArgs) cs st2 = (Inr (), st3)
      \<and> bindKwargs c (map fst (filter (\<lambda>kvu. \<not> snd kvu) (zip namedArgs used))) cs st3
           = (Inr (), st4))"

lemma catchReturn_simps [simp]:
  "catchReturn (Inl (ReturnSignal v), st) = (Inr v, st)"
  "catchReturn (Inr v, st) = (Inr v, st)"
  "catchReturn (Inl (ScriptError m), st) = (Inl (ScriptError m), st)"
  "catchReturn (Inl NoResult, st) = (Inl NoResult, st)"
  "catchReturn (Inl Unmodelled, st) = (Inl Unmodelled, st)"
  by (simp_all add: catchReturn_def)

lemma catchReturn_no_signal: "catchReturn r \<noteq> (Inl (ReturnSignal v), s)"
proof (cases r)
  case (Pair x st)
  show ?thesis
  proof (cases x)
    case (Inl e)
    with Pair show ?thesis by (cases e) simp_all
  next
    case (Inr w)
    with Pair show ?thesis by simp
  qed
qed

lemma callClosure_body:
  "paramsBound ev c args st cs st4 \<Longrightarrow>
   callClosure ev c args st = catchReturn (ev (body c) cs st4)"
  by (auto simp: paramsBound_def callClosure_def)

lemma callClosureWithNamed_body:
  "paramsBoundNamed ev c posArgs namedArgs st cs st4 \<Longrightarrow>
   callClosureWithNamed ev c posArgs namedArgs st = catchReturn (ev (body c) cs st4)"
  by (auto simp: paramsBoundNamed_def callClosureWithNamed_def)

lemma execute_return:
  assumes "ctx st = Some cx"
    and "eval n (fst (preInternSymbols (interner st))) root (contextScope cx)
           (st\<lparr>interner := snd (preInternSymbols (interner st))\<rparr>) = (Inl (ReturnSignal v), st1)"
  shows "execute n root st = (Some \<lparr>success = True, returnValue = v, errorMessage = []\<rparr>, st1)"
  using assms by (simp add: execute_def case_prod_unfold)

text \<open>
  C5.  Whenever a closure is called (with positional arguments only, or with named
  arguments too) and its parameters are bound, a \<open>ReturnSignal\<close> with value \<open>v\<close> thrown by
  the evaluation of its body ends that call with the result \<open>v\<close>, in the state the body
  left; and no \<open>ReturnSignal\<close> leaves that call, so none reaches the boundary of a closure
  that encloses the call.  A \<open>ReturnSignal\<close> that leaves the evaluation of the root in
  \<open>ScriptEngine::execute\<close> gives a result with \<open>success = true\<close> and the value of the signal as
  \<open>returnValue\<close>.
\<close>

theorem return_boundary:
  "(\<forall>n E c args st cs st4 v st5.
      paramsBound (eval n E) c args st cs st4
      \<and> eval n E (body c) cs st4 = (Inl (ReturnSignal v), st5)
      \<longrightarrow> callClosure (eval n E) c args st = (Inr v, st5))
   \<and> (\<forall>n E c posArgs namedArgs st cs st4 v st5.
      paramsBoundNamed (eval n E) c posArgs namedArgs st cs st4
      \<and> eval n E (body c) cs st4 = (Inl (ReturnSignal v), st5)
      \<longrightarrow> callClosureWithNamed (eval n E) c posArgs namedArgs st = (Inr v, st5))
   \<and> (\<forall>n E c args st cs st4 v s.
      paramsBound (eval n E) c args st cs st4
      \<longrightarrow> callClosure (eval n E) c args st \<noteq> (Inl (ReturnSignal v), s))
   \<and> (\<forall>n E c posArgs namedArgs st cs st4 v s.
      paramsBoundNamed (eval n E) c posArgs namedArgs st cs st4
      \<longrightarrow> callClosureWithNamed (eval n E) c posArgs namedArgs st \<noteq> (Inl (ReturnSignal v), s))
   \<and> (\<forall>n root st cx v st1.
      ctx st = Some cx
      \<and> eval n (fst (preInternSymbols (interner st))) root (contextScope cx)
            (st\<lparr>interner := snd (preInternSymbols (interner st))\<rparr>) = (Inl (ReturnSignal v), st1)
      \<longrightarrow> execute n root st = (Some \<lparr>success = True, returnValue = v, errorMessage = []\<rparr>, st1))"
proof (intro conjI allI impI)
  fix n E c args st cs st4 v st5
  assume "paramsBound (eval n E) c args st cs st4
      \<and> eval n E (body c) cs st4 = (Inl (ReturnSignal v), st5)"
  then have p: "paramsBound (eval n E) c args st cs st4"
    and b: "eval n E (body c) cs st4 = (Inl (ReturnSignal v), st5)" by simp_all
  show "callClosure (eval n E) c args st = (Inr v, st5)"
    using callClosure_body [OF p] b by simp
next
  fix n E c posArgs namedArgs st cs st4 v st5
  assume "paramsBoundNamed (eval n E) c posArgs namedArgs st cs st4
      \<and> eval n E (body c) cs st4 = (Inl (ReturnSignal v), st5)"
  then have p: "paramsBoundNamed (eval n E) c posArgs namedArgs st cs st4"
    and b: "eval n E (body c) cs st4 = (Inl (ReturnSignal v), st5)" by simp_all
  show "callClosureWithNamed (eval n E) c posArgs namedArgs st = (Inr v, st5)"
    using callClosureWithNamed_body [OF p] b by simp
next
  fix n E c args st cs st4 v s
  assume p: "paramsBound (eval n E) c args st cs st4"
  show "callClosure (eval n E) c args st \<noteq> (Inl (ReturnSignal v), s)"
    using callClosure_body [OF p] by (simp add: catchReturn_no_signal)
next
  fix n E c posArgs namedArgs st cs st4 v s
  assume p: "paramsBoundNamed (eval n E) c posArgs namedArgs st cs st4"
  show "callClosureWithNamed (eval n E) c posArgs namedArgs st \<noteq> (Inl (ReturnSignal v), s)"
    using callClosureWithNamed_body [OF p] by (simp add: catchReturn_no_signal)
next
  fix n root st cx v st1
  assume "ctx st = Some cx
      \<and> eval n (fst (preInternSymbols (interner st))) root (contextScope cx)
            (st\<lparr>interner := snd (preInternSymbols (interner st))\<rparr>) = (Inl (ReturnSignal v), st1)"
  then show "execute n root st = (Some \<lparr>success = True, returnValue = v, errorMessage = []\<rparr>, st1)"
    using execute_return [of st cx n root v st1] by simp
qed

text \<open>
  Instances: a closure without parameters whose body is \<open>return 1\<close>, called in the state
  \<open>st_w\<close>, and the script \<open>return 42\<close> run by \<open>execute\<close> in a context on the global scope.
\<close>

definition c_ret :: Closure where
  "c_ret = \<lparr>paramIds = [], numRequired = 0, defaultExprs = [], body = Return (Some (IntLit 1)),
            capturedScope = 0, name = [], hasRestParam = False, restParamId = 0,
            hasKwargsParam = False, kwargsParamId = 0\<rparr>"

definition st_call :: State where
  "st_call = st_w\<lparr>heap := heap st_w @ [OScope \<lparr>parent = Some 0, bindings = []\<rparr>]\<rparr>"

definition cx_w :: ExecutionContext where
  "cx_w = \<lparr>contextScope = 0, eventHandlers = []\<rparr>"

definition st_ctx :: State where
  "st_ctx = st_w\<lparr>ctx := Some cx_w\<rparr>"

definition st_ctx1 :: State where
  "st_ctx1 = st_ctx\<lparr>interner := snd (preInternSymbols (interner st_ctx))\<rparr>"

lemma eval_Return_Some:
  "eval n E e sc st = (Inr v, st1) \<Longrightarrow>
   eval (Suc n) E (Return (Some e)) sc st = (Inl (ReturnSignal v), st1)"
  by (simp add: eval.simps(2) [of n] evalNode_def evalReturn_def)

theorem return_boundary_witness:
  "paramsBound (eval (Suc (Suc 0)) E_w) c_ret [] st_w 1 st_call
   \<and> eval (Suc (Suc 0)) E_w (body c_ret) 1 st_call = (Inl (ReturnSignal (VInt 1)), st_call)
   \<and> callClosure (eval (Suc (Suc 0)) E_w) c_ret [] st_w = (Inr (VInt 1), st_call)
   \<and> ctx st_ctx = Some cx_w
   \<and> eval (Suc (Suc 0)) (fst (preInternSymbols (interner st_ctx))) (Return (Some (IntLit 42)))
        (contextScope cx_w) st_ctx1 = (Inl (ReturnSignal (VInt 42)), st_ctx1)
   \<and> execute (Suc (Suc 0)) (Return (Some (IntLit 42))) st_ctx
       = (Some \<lparr>success = True, returnValue = VInt 42, errorMessage = []\<rparr>, st_ctx1)"
proof -
  have pb: "paramsBound (eval (Suc (Suc 0)) E_w) c_ret [] st_w 1 st_call"
    by (simp add: paramsBound_def c_ret_def createChild_def newObj_def st_w_def st_call_def
        bindRest_def bindKwargs_def)
  have bd: "eval (Suc (Suc 0)) E_w (body c_ret) 1 st_call = (Inl (ReturnSignal (VInt 1)), st_call)"
    by (simp add: c_ret_def eval_Return_Some)
  have cl: "callClosure (eval (Suc (Suc 0)) E_w) c_ret [] st_w = (Inr (VInt 1), st_call)"
    by (rule return_boundary [THEN conjunct1, rule_format, OF conjI [OF pb bd]])
  have cx: "ctx st_ctx = Some cx_w" by (simp add: st_ctx_def)
  have ev: "eval (Suc (Suc 0)) (fst (preInternSymbols (interner st_ctx)))
        (Return (Some (IntLit 42))) (contextScope cx_w) st_ctx1
        = (Inl (ReturnSignal (VInt 42)), st_ctx1)"
    by (simp add: eval_Return_Some)
  have ex: "execute (Suc (Suc 0)) (Return (Some (IntLit 42))) st_ctx
       = (Some \<lparr>success = True, returnValue = VInt 42, errorMessage = []\<rparr>, st_ctx1)"
    by (rule return_boundary [THEN conjunct2, THEN conjunct2, THEN conjunct2, THEN conjunct2,
          rule_format, OF conjI [OF cx ev [unfolded st_ctx1_def]], folded st_ctx1_def])
  show ?thesis by (intro conjI pb bd cl cx ev ex)
qed

text \<open>
  A nested call: \<open>inner\<close> returns 1 from the middle of its body; \<open>outer\<close> calls \<open>inner\<close> and
  goes on to yield 2.  The \<open>return\<close> of \<open>inner\<close> ends the call of \<open>inner\<close> only.
\<close>

definition nested_prog :: AstNode where
  "nested_prog =
     Block [Fn ''inner'' [] 0 (Block [Return (Some (IntLit 1)), IntLit 7]) [] [],
            Fn ''outer'' [] 0 (Block [Call (Name ''inner'') [] [], IntLit 2]) [] [],
            Call (Name ''outer'') [] []]"

lemma return_nested_example: "fst (eval 7 E_w nested_prog 0 st_w) = Inr (VInt 2)"
  by code_simp

section \<open>The method flag of a map key\<close>

text \<open>
  \<open>evalMapLit\<close> (evaluator.cpp:465), the dotted branch of \<open>evalSet\<close> (evaluator.cpp:509) and the
  built-in \<open>map.set\<close> (evaluator.cpp:889) all store with \<open>MapData::set\<close> and then call
  \<open>markMethod\<close> when \<open>isAutoMethod\<close> holds of the stored value; this is \<open>storeAuto\<close>. None of them
  has an else branch, and \<open>MapData::set\<close> does not touch \<open>methodKeys_\<close>: only \<open>MapData::remove\<close>
  erases a key from it.

  \<open>mapOk\<close>: the handle is a map, and the scope of a scope-backed map is alive.
  \<open>flagRule\<close>: what a store of \<open>v\<close> under \<open>k\<close> does to the map at \<open>ma\<close>, from the state \<open>st\<close> before
  to the state \<open>st'\<close> after.
\<close>

definition mapOk :: "heap \<Rightarrow> addr \<Rightarrow> bool" where
  "mapOk h ma \<longleftrightarrow>
     (case mapAt h ma of
        None \<Rightarrow> False
      | Some m \<Rightarrow> (case proxy m of None \<Rightarrow> True | Some sa \<Rightarrow> scopeAt h sa \<noteq> None))"

definition flagRule :: "Evaluator \<Rightarrow> addr \<Rightarrow> u32 \<Rightarrow> Value \<Rightarrow> State \<Rightarrow> State \<Rightarrow> bool" where
  "flagRule E ma k v st st' \<longleftrightarrow>
     (\<exists>m. mapAt (heap st) ma = Some m
        \<and> MapData_isMethod (heap st') ma k = Some (k \<in> methodKeys m \<or> isAutoMethod E (heap st) v)
        \<and> (\<forall>k'. k' \<noteq> k \<longrightarrow> MapData_isMethod (heap st') ma k' = Some (k' \<in> methodKeys m))
        \<and> MapData_get (heap st') ma k = Some v)"

lemma mapAt_lt: "mapAt h a = Some m \<Longrightarrow> a < length h"
  by (auto simp: mapAt_def heapGet_def split: if_splits)

lemma mapAt_obj: "mapAt h a = Some m \<Longrightarrow> h ! a = OMap m"
  by (auto simp: mapAt_def heapGet_def split: if_splits option.splits HeapObj.splits)

lemma scopeAt_obj: "scopeAt h a = Some sc \<Longrightarrow> h ! a = OScope sc"
  by (auto simp: scopeAt_def heapGet_def split: if_splits option.splits HeapObj.splits)

lemma closureAt_upd_map:
  "mapAt h ma = Some m \<Longrightarrow> closureAt (h[ma := OMap m']) a = closureAt h a"
  by (cases "a = ma") (auto simp: closureAt_def mapAt_def heapGet_update split: option.splits HeapObj.splits)

lemma closureAt_upd_scope:
  "scopeAt h sa = Some sc \<Longrightarrow> closureAt (h[sa := OScope sc']) a = closureAt h a"
  by (cases "a = sa") (auto simp: closureAt_def scopeAt_def heapGet_update split: option.splits HeapObj.splits)

lemma isAutoMethod_upd_map:
  "mapAt h ma = Some m \<Longrightarrow> isAutoMethod E (h[ma := OMap m']) v = isAutoMethod E h v"
  by (simp add: isAutoMethod_def closureAt_upd_map split: Value.splits)

lemma isAutoMethod_upd_scope:
  "scopeAt h sa = Some sc \<Longrightarrow> isAutoMethod E (h[sa := OScope sc']) v = isAutoMethod E h v"
  by (simp add: isAutoMethod_def closureAt_upd_scope split: Value.splits)

lemma mapAt_upd_same: "a < length h \<Longrightarrow> mapAt (h[a := OMap m']) a = Some m'"
  by (simp add: mapAt_def heapGet_def)

lemma mapAt_upd_scope:
  "scopeAt h sa = Some sc \<Longrightarrow> mapAt (h[sa := OScope sc']) a = mapAt h a"
  by (cases "a = sa") (auto simp: mapAt_def scopeAt_def heapGet_update split: option.splits HeapObj.splits)

lemma scopeAt_upd_map:
  "mapAt h ma = Some m \<Longrightarrow> scopeAt (h[ma := OMap m']) a = scopeAt h a"
  by (cases "a = ma") (auto simp: mapAt_def scopeAt_def heapGet_update split: option.splits HeapObj.splits)

lemma map_of_update_same: "map_of (AList.update k v al) k = Some v"
  by (simp add: update_conv')

lemma storeAuto_local:
  assumes m: "mapAt (heap st) ma = Some m" and p: "proxy m = None"
  shows "\<exists>st'. storeAuto E ma k v st = (Inr (), st') \<and> flagRule E ma k v st st'"
proof -
  let ?m1 = "m\<lparr>entries := AList.update k v (entries m)\<rparr>"
  let ?h1 = "(heap st)[ma := OMap ?m1]"
  from m have lt: "ma < length (heap st)" by (rule mapAt_lt)
  have set: "MapData_set (heap st) ma k v = Some ?h1" using m p by (simp add: MapData_set_def)
  have m1: "mapAt ?h1 ma = Some ?m1" using lt by (simp add: mapAt_upd_same)
  have auto1: "isAutoMethod E ?h1 v = isAutoMethod E (heap st) v"
    using m by (rule isAutoMethod_upd_map)
  show ?thesis
  proof (cases "isAutoMethod E (heap st) v")
    case True
    let ?h2 = "?h1[ma := OMap (?m1\<lparr>methodKeys := insert k (methodKeys ?m1)\<rparr>)]"
    have "storeAuto E ma k v st = (Inr (), st\<lparr>heap := ?h2\<rparr>)"
      using set m1 auto1 True by (simp add: storeAuto_def MapData_markMethod_def)
    moreover have "flagRule E ma k v st (st\<lparr>heap := ?h2\<rparr>)"
      using m p lt True
      by (simp add: flagRule_def MapData_isMethod_def MapData_get_def mapAt_upd_same map_of_update_same)
    ultimately show ?thesis by blast
  next
    case False
    have "storeAuto E ma k v st = (Inr (), st\<lparr>heap := ?h1\<rparr>)"
      using set auto1 False by (simp add: storeAuto_def)
    moreover have "flagRule E ma k v st (st\<lparr>heap := ?h1\<rparr>)"
      using m p lt False
      by (simp add: flagRule_def MapData_isMethod_def MapData_get_def mapAt_upd_same map_of_update_same)
    ultimately show ?thesis by blast
  qed
qed

lemma storeAuto_proxy:
  assumes m: "mapAt (heap st) ma = Some m" and p: "proxy m = Some sa"
    and sc: "scopeAt (heap st) sa = Some sc"
  shows "\<exists>st'. storeAuto E ma k v st = (Inr (), st') \<and> flagRule E ma k v st st'"
proof -
  let ?sc1 = "sc\<lparr>bindings := AList.update k v (bindings sc)\<rparr>"
  let ?h1 = "(heap st)[sa := OScope ?sc1]"
  from m have lt: "ma < length (heap st)" by (rule mapAt_lt)
  from sc have slt: "sa < length (heap st)" by (rule scopeAt_lt)
  have set: "MapData_set (heap st) ma k v = Some ?h1"
    using m p sc by (simp add: MapData_set_def Scope_define_def bindIn_def)
  have m1: "mapAt ?h1 ma = Some m" using sc m by (simp add: mapAt_upd_scope)
  have sc1: "scopeAt ?h1 sa = Some ?sc1" using slt by (simp add: scopeAt_def heapGet_def)
  have lk1: "Scope_lookup ?h1 sa k = Some (Some v)"
    using sc1 by (subst Scope_lookup.simps) (simp add: map_of_update_same)
  have auto1: "isAutoMethod E ?h1 v = isAutoMethod E (heap st) v"
    using sc by (rule isAutoMethod_upd_scope)
  show ?thesis
  proof (cases "isAutoMethod E (heap st) v")
    case True
    let ?m2 = "m\<lparr>methodKeys := insert k (methodKeys m)\<rparr>"
    let ?h2 = "?h1[ma := OMap ?m2]"
    have sc2: "scopeAt ?h2 sa = Some ?sc1" using sc1 m1 by (simp add: scopeAt_upd_map)
    have lk2: "Scope_lookup ?h2 sa k = Some (Some v)"
      using sc2 by (subst Scope_lookup.simps) (simp add: map_of_update_same)
    have "storeAuto E ma k v st = (Inr (), st\<lparr>heap := ?h2\<rparr>)"
      using set m1 auto1 True by (simp add: storeAuto_def MapData_markMethod_def)
    moreover have "flagRule E ma k v st (st\<lparr>heap := ?h2\<rparr>)"
      using m p lt True lk2
      by (simp add: flagRule_def MapData_isMethod_def MapData_get_def mapAt_upd_same)
    ultimately show ?thesis by blast
  next
    case False
    have "storeAuto E ma k v st = (Inr (), st\<lparr>heap := ?h1\<rparr>)"
      using set auto1 False by (simp add: storeAuto_def)
    moreover have "flagRule E ma k v st (st\<lparr>heap := ?h1\<rparr>)"
      using m p m1 False lk1
      by (simp add: flagRule_def MapData_isMethod_def MapData_get_def)
    ultimately show ?thesis by blast
  qed
qed

lemma storeAuto_flagRule:
  assumes "mapOk (heap st) ma"
  shows "\<exists>st'. storeAuto E ma k v st = (Inr (), st') \<and> flagRule E ma k v st st'"
proof -
  from assms obtain m where m: "mapAt (heap st) ma = Some m"
    by (auto simp: mapOk_def split: option.splits)
  show ?thesis
  proof (cases "proxy m")
    case None
    with m show ?thesis by (rule storeAuto_local)
  next
    case (Some sa)
    with assms m obtain sc where "scopeAt (heap st) sa = Some sc"
      by (auto simp: mapOk_def)
    with m Some show ?thesis by (rule storeAuto_proxy)
  qed
qed

lemma dispatch_map_set:
  "sym_set E \<noteq> sym_get E \<Longrightarrow>
   dispatchBuiltinMethod n ev E (VMap ma) (sym_set E) [VSymbol k, v] st =
     thenR (storeAuto E ma k v st) (\<lambda>u st1. (Inr v, st1))"
  by (simp add: dispatchBuiltinMethod_def dispatchMap_def)

lemma evalSet_dotted:
  assumes "ev rhs sc st0 = (Inr v, st1)"
    and "Scope_lookup (heap st1) sc (fst (internS root st1)) = Some (Some (VMap ma))"
  shows "evalSet ev E [root, field] rhs sc st0 =
     thenR (storeAuto E ma (fst (internS field (snd (internS root st1)))) v
              (snd (internS field (snd (internS root st1))))) (\<lambda>u st5. (Inr v, st5))"
  using assms by (simp add: evalSet_def case_prod_unfold)

lemma evalMapLit_single:
  assumes "ev e sc (snd (internS key (snd (Value_map st0)))) = (Inr v, st3)"
  shows "evalMapLit ev E [(key, e)] sc st0 =
     thenR (storeAuto E (length (heap st0)) (fst (internS key (snd (Value_map st0)))) v st3)
       (\<lambda>u st4. (Inr (VMap (length (heap st0))), st4))"
  using assms
  by (simp add: evalMapLit_def Value_map_def newObj_def case_prod_unfold thenR_def split: sum.splits prod.splits)

lemma flagRule_heap: "heap st = heap st0 \<Longrightarrow> flagRule E ma k v st st' = flagRule E ma k v st0 st'"
  by (simp add: flagRule_def)


text \<open>
  The program \<open>set obj {=greet (fn [self] 1)}\<close>, \<open>obj.set :greet 5\<close>: the second store overwrites a
  flagged key with an integer.
\<close>

definition flag_prog :: AstNode where
  "flag_prog = Block
     [SetNode [''obj''] (MapLit [(''greet'', Fn [] [''self''] 1 (IntLit 1) [] [])]),
      Call (DottedName (Name ''obj'') [''set'']) [SymbolLit ''greet'', IntLit 5] []]"



text \<open>
  \<open>st_m\<close>: the state after \<open>set obj {=greet (fn [self] 1)}\<close>, where the key \<open>greet\<close> of the map at
  handle 1 is flagged; \<open>st_lit\<close>: the state in which a map literal \<open>{=greet 5}\<close> evaluated from
  \<open>st_m\<close> stores its entry.
\<close>

definition st_m :: State where
  "st_m = snd (eval 4 E_w (SetNode [''obj''] (MapLit [(''greet'', Fn [] [''self''] 1 (IntLit 1) [] [])])) 0 st_w)"

lemma flagRule_isMethod:
  "flagRule E ma k v st st' \<Longrightarrow> mapAt (heap st) ma = Some m \<Longrightarrow>
   MapData_isMethod (heap st') ma k = Some (k \<in> methodKeys m \<or> isAutoMethod E (heap st) v)"
  by (auto simp: flagRule_def)

lemma mapAt_st_m:
  "mapAt (heap st_m) 1 = Some \<lparr>proxy = None, entries = [(30, VClosure 2)], methodKeys = {30}\<rparr>"
  by code_simp

lemma mapOk_st_m: "mapOk (heap st_m) 1"
  by code_simp

lemma sym_set_get_w: "sym_set E_w \<noteq> sym_get E_w"
  by code_simp

lemma not_auto_w: "\<not> isAutoMethod E_w (heap st_m) (VInt 5)"
  by (simp add: isAutoMethod_def)

definition st_lit :: State where
  "st_lit = snd (internS ''greet'' (snd (Value_map st_m)))"

lemma mapAt_st_lit:
  "mapAt (heap st_lit) 3 = Some \<lparr>proxy = None, entries = [], methodKeys = {}\<rparr>"
  by code_simp

lemma mapOk_st_lit: "mapOk (heap st_lit) 3"
  by code_simp

lemma len_st_m: "length (heap st_m) = 3" by code_simp
lemma key_lit: "fst (internS ''greet'' (snd (Value_map st_m))) = 30" by code_simp
lemma key_set: "fst (internS ''greet'' (snd (internS ''obj'' st_m))) = 30" by code_simp
lemma look_obj: "Scope_lookup (heap st_m) 0 (fst (internS ''obj'' st_m)) = Some (Some (VMap 1))" by code_simp


section \<open>The scope of a \<open>for\<close> loop\<close>

text \<open>
  \<open>evalFor\<close> (evaluator.cpp:602-622) calls \<open>scope->createChild()\<close> once, before its loop, and every
  iteration calls \<open>loopScope->define(varSym, elem)\<close> and evaluates the body in \<open>loopScope\<close>.

  \<open>loopClosure fb L\<close> is the closure that \<open>evalFn\<close> builds for \<open>fn [] fb\<close> evaluated in the scope
  \<open>L\<close>; \<open>loopFrame sc k v\<close> is a child scope of \<open>sc\<close> that binds only \<open>k\<close>, to \<open>v\<close>;
  \<open>forFinal st2 sc k elems fb\<close> is the state \<open>st2\<close> with, appended to its heap, one such frame
  binding \<open>k\<close> to the last element and one \<open>loopClosure\<close> for each element.
\<close>

definition loopClosure :: "AstNode \<Rightarrow> addr \<Rightarrow> Closure" where
  "loopClosure fb L =
     \<lparr>paramIds = [], numRequired = 0, defaultExprs = [], body = fb, capturedScope = L, name = [],
      hasRestParam = False, restParamId = 0, hasKwargsParam = False, kwargsParamId = 0\<rparr>"

definition loopFrame :: "addr \<Rightarrow> u32 \<Rightarrow> Value \<Rightarrow> HeapObj" where
  "loopFrame sc k v = OScope \<lparr>parent = Some sc, bindings = [(k, v)]\<rparr>"

definition forFinal :: "State \<Rightarrow> addr \<Rightarrow> u32 \<Rightarrow> Value list \<Rightarrow> AstNode \<Rightarrow> State" where
  "forFinal st2 sc k elems fb =
     st2\<lparr>heap := heap st2 @ [loopFrame sc k (last (VNil # elems))]
              @ replicate (length elems) (OClosure (loopClosure fb (length (heap st2))))\<rparr>"

lemma eval_Fn_anon:
  "eval (Suc n) E (Fn [] [] 0 fb [] []) L st =
     (Inr (VClosure (length (heap st))), st\<lparr>heap := heap st @ [OClosure (loopClosure fb L)]\<rparr>)"
  by (simp add: eval.simps evalNode_def evalFn_def internAllS_def Value_closure_def newObj_def
      loopClosure_def)

lemma scopeAt_frame: "scopeAt (h0 @ OScope s # cs) (length h0) = Some s"
  by (simp add: scopeAt_def heapGet_def)

lemma Scope_define_frame:
  "Scope_define (h0 @ loopFrame sc k v # cs) (length h0) k x = Some (h0 @ loopFrame sc k x # cs)"
  by (simp add: Scope_define_def loopFrame_def scopeAt_frame bindIn_def)

lemma forLoop_fn:
  "forLoop (eval (Suc n) E) k (Fn [] [] 0 fb [] []) (length h0) r elems
       (st\<lparr>heap := h0 @ loopFrame sc k v # cs\<rparr>) =
     (Inr (if elems = [] then r else VClosure (length h0 + length cs + length elems)),
      st\<lparr>heap := h0 @ loopFrame sc k (last (v # elems)) # cs
                @ replicate (length elems) (OClosure (loopClosure fb (length h0)))\<rparr>)"
proof (induction elems arbitrary: r v cs)
  case Nil
  show ?case by simp
next
  case (Cons x xs)
  have "forLoop (eval (Suc n) E) k (Fn [] [] 0 fb [] []) (length h0) r (x # xs)
       (st\<lparr>heap := h0 @ loopFrame sc k v # cs\<rparr>) =
     forLoop (eval (Suc n) E) k (Fn [] [] 0 fb [] []) (length h0) (VClosure (Suc (length h0 + length cs))) xs
       (st\<lparr>heap := h0 @ loopFrame sc k x # (cs @ [OClosure (loopClosure fb (length h0))])\<rparr>)"
    by (simp add: Scope_define_frame eval_Fn_anon)
  also have "\<dots> = (Inr (if xs = [] then VClosure (Suc (length h0 + length cs))
                         else VClosure (length h0 + length (cs @ [OClosure (loopClosure fb (length h0))]) + length xs)),
      st\<lparr>heap := h0 @ loopFrame sc k (last (x # xs)) # (cs @ [OClosure (loopClosure fb (length h0))])
                @ replicate (length xs) (OClosure (loopClosure fb (length h0)))\<rparr>)"
    by (rule Cons.IH)
  finally show ?case by (simp add: replicate_app_Cons_same)
qed

lemma arrayAt_append: "arrayAt h a = Some xs \<Longrightarrow> arrayAt (h @ ys) a = Some xs"
  by (auto simp: arrayAt_def heapGet_def nth_append split: if_splits option.splits HeapObj.splits)

lemma evalFor_forLoop:
  assumes "ev iter sc (snd (internS var st)) = (Inr (VArray a), st2)"
    and "arrayAt (heap st2) a = Some elems"
  shows "evalFor ev var iter bdy sc st =
     forLoop ev (fst (internS var st)) bdy (length (heap st2)) VNil elems
       (st2\<lparr>heap := heap st2 @ [loopFrame sc (fst (internS var st)) VNil]\<rparr>)"
proof -
  have d: "Scope_define (heap st2 @ [OScope \<lparr>parent = Some sc, bindings = []\<rparr>]) (length (heap st2))
        (fst (internS var st)) VNil = Some (heap st2 @ [loopFrame sc (fst (internS var st)) VNil])"
    by (simp add: Scope_define_def scopeAt_frame bindIn_def loopFrame_def)
  have e: "arrayAt (heap st2 @ [loopFrame sc (fst (internS var st)) VNil]) a = Some elems"
    using assms(2) by (rule arrayAt_append)
  show ?thesis
    using assms(1) d e
    by (simp add: evalFor_def case_prod_unfold createChild_def newObj_def)
qed

lemma forLoop_step:
  "scopeAt (heap s) L \<noteq> None \<Longrightarrow>
   forLoop ev k bdy L r (x # xs) s =
     thenR (ev bdy L (s\<lparr>heap := writeBinding (heap s) L k x\<rparr>)) (\<lambda>r' s'. forLoop ev k bdy L r' xs s')"
  by (auto simp: Scope_define_def writeBinding_def)

lemma closureAt_nth:
  "a < length h \<Longrightarrow> h ! a = OClosure c \<Longrightarrow> closureAt h a = Some c"
  by (simp add: closureAt_def heapGet_def)

lemma call_loopClosure:
  assumes c: "closureAt (heap s) a = Some (loopClosure (Name var) L)"
    and f: "scopeAt (heap s) L = Some fr" and b: "map_of (bindings fr) k = Some v"
    and i: "intern (interner s) var = (k, interner s)"
  shows "callFunction (eval (Suc m) E) (VClosure a) [] s =
     (Inr v, s\<lparr>heap := heap s @ [OScope \<lparr>parent = Some L, bindings = []\<rparr>]\<rparr>)"
proof -
  let ?h = "heap s @ [OScope \<lparr>parent = Some L, bindings = []\<rparr>]"
  from f have lt: "L < length (heap s)" by (rule scopeAt_lt)
  have f1: "scopeAt ?h L = Some fr"
    using f lt by (simp add: scopeAt_def heapGet_def nth_append)
  have f2: "scopeAt ?h (length (heap s)) = Some \<lparr>parent = Some L, bindings = []\<rparr>"
    by (simp add: scopeAt_def heapGet_def)
  have lk: "Scope_lookup ?h (length (heap s)) k = Some (Some v)"
    by (subst Scope_lookup.simps, simp add: f2, subst Scope_lookup.simps, simp add: f1 b)
  show ?thesis
    using c i lk
    by (simp add: callFunction_def callClosure_def createChild_def newObj_def bindRest_def
        bindKwargs_def loopClosure_def catchReturn_def eval.simps evalNode_def evalName_def internS_def)
qed


lemma forFinal_closure:
  "i < length elems \<Longrightarrow>
   closureAt (heap (forFinal st2 sc k elems fb)) (length (heap st2) + 1 + i)
     = Some (loopClosure fb (length (heap st2)))"
  by (simp add: forFinal_def closureAt_def heapGet_def nth_append)

lemma forFinal_frame:
  "scopeAt (heap (forFinal st2 sc k elems fb)) (length (heap st2))
     = Some \<lparr>parent = Some sc, bindings = [(k, last (VNil # elems))]\<rparr>"
  by (simp add: forFinal_def scopeAt_def heapGet_def nth_append loopFrame_def)



text \<open>
  The loop \<open>for i in [1 2 3] do (fn [] i) end\<close> from the global scope: \<open>st_it\<close> is the state after
  the iterable, \<open>st_for\<close> the state after the loop.
\<close>

definition iter_w :: AstNode where
  "iter_w = ArrayLit [IntLit 1, IntLit 2, IntLit 3]"

definition st_it :: State where
  "st_it = snd (eval (Suc (Suc 0)) E_w iter_w 0 (snd (internS ''i'' st_w)))"

lemma eval_iter_w:
  "eval (Suc (Suc 0)) E_w iter_w 0 (snd (internS ''i'' st_w)) = (Inr (VArray 1), st_it)"
  by (simp add: st_it_def eval.simps(2) [of "Suc 0"] evalNode_def evalArrayLit_def Value_array_def
      newObj_def st_w_def iter_w_def case_prod_unfold)

lemma heap_st_it: "heap st_it = [OScope \<lparr>parent = None, bindings = []\<rparr>, OArray [VInt 1, VInt 2, VInt 3]]"
  by code_simp

lemma arrayAt_st_it: "arrayAt (heap st_it) 1 = Some [VInt 1, VInt 2, VInt 3]"
  by code_simp

lemma intern_st_it: "intern (interner st_it) ''i'' = (fst (internS ''i'' st_w), interner st_it)"
  by code_simp

lemma sym_i: "fst (internS ''i'' st_w) = 30"
  by code_simp


definition st_for :: State where
  "st_for = forFinal st_it 0 30 [VInt 1, VInt 2, VInt 3] (Name ''i'')"

lemma heap_st_for:
  "heap st_for =
     [OScope \<lparr>parent = None, bindings = []\<rparr>, OArray [VInt 1, VInt 2, VInt 3],
      OScope \<lparr>parent = Some 0, bindings = [(30, VInt 3)]\<rparr>,
      OClosure (loopClosure (Name ''i'') 2), OClosure (loopClosure (Name ''i'') 2),
      OClosure (loopClosure (Name ''i'') 2)]"
  by (simp add: st_for_def forFinal_def heap_st_it loopFrame_def numeral_3_eq_3 numeral_2_eq_2)


text \<open>
  The same on a whole program, where the body pushes its closure onto an array:
  \<open>set fs []\<close>, \<open>for i in [1 2 3] do fs.push (fn [] i) end\<close>, \<open>[(fs[0]) (fs[1]) (fs[2])]\<close>
  evaluates to \<open>[3 3 3]\<close>.
\<close>

definition loop_prog :: AstNode where
  "loop_prog = Block
     [SetNode [''fs''] (ArrayLit []),
      ForNode ''i'' (ArrayLit [IntLit 1, IntLit 2, IntLit 3])
        (Call (DottedName (Name ''fs'') [''push'']) [Fn [] [] 0 (Name ''i'') [] []] []),
      ArrayLit [Call (Index (Name ''fs'') (IntLit 0)) [] [],
                Call (Index (Name ''fs'') (IntLit 1)) [] [],
                Call (Index (Name ''fs'') (IntLit 2)) [] []]]"

lemma loop_prog_example:
  "fst (eval 7 E_w loop_prog 0 st_w) = Inr (VArray 10)
   \<and> arrayAt (heap (snd (eval 7 E_w loop_prog 0 st_w))) 10 = Some [VInt 3, VInt 3, VInt 3]"
  by code_simp


end
